(* ===== verification/Prelude.thy ===== *)
theory Prelude
  imports Main "HOL-Library.Word"
begin

text \<open>
  Shared vocabulary of the development: the machine-integer types of the kernel
  sources (\<open>uint32_t\<close>, \<open>uint64_t\<close>), the descriptor-typed view of physical memory
  that the memory-map code reads and writes through \<open>EFI_MEMORY_DESCRIPTOR *\<close>
  pointers, the strided write loop that every allocator path uses, and the
  arithmetic facts about pointer strides that the component proofs share.
\<close>

type_synonym u32 = "32 word"
type_synonym u64 = "64 word"

named_theorems stride_simps "arithmetic on strided pointers used by the memory-map scans"

text \<open>
  A C pointer is a byte address.  Pointers into the memory maps are modelled as
  \<open>nat\<close> byte addresses: the kernel never lets them wrap (they stay below the
  physical memory sz), and \<open>0\<close> is \<open>NULL\<close>.  A region of memory that the code
  only ever accesses as \<open>'a\<close>-typed records is a total function from byte
  addresses to records (a typed view of memory, as in a C heap model).
\<close>

type_synonym 'a typed_mem = "nat \<Rightarrow> 'a"

text \<open>Offsets of the entries visited by a loop \<open>for (p = b; p < b + size; p += s)\<close>.\<close>

definition entry_count :: "nat \<Rightarrow> nat \<Rightarrow> nat" where
  "entry_count s sz = (if s = 0 then 0 else (sz + s - 1) div s)"

lemma entry_count_iff [stride_simps]:
  assumes "0 < s"
  shows "k < entry_count s sz \<longleftrightarrow> k * s < sz"
proof -
  have "k < (sz + s - 1) div s \<longleftrightarrow> k * s < sz"
  proof
    assume "k < (sz + s - 1) div s"
    then have "Suc k \<le> (sz + s - 1) div s" by simp
    then have "Suc k * s \<le> (sz + s - 1) div s * s" by (rule mult_right_mono) simp
    also have "\<dots> \<le> sz + s - 1" by (rule div_times_less_eq_dividend)
    finally show "k * s < sz" using assms by simp
  next
    assume "k * s < sz"
    then have "k * s + s \<le> sz + s - 1" by simp
    then have "(k * s + s) div s \<le> (sz + s - 1) div s" by (rule div_le_mono)
    then show "k < (sz + s - 1) div s" using assms by simp
  qed
  with assms show ?thesis by (simp add: entry_count_def)
qed

lemma entry_count_mult [simp]:
  assumes "0 < s"
  shows "entry_count s (n * s) = n"
proof -
  have "(s - 1 + n * s) div s = n + (s - 1) div s"
    by (rule div_mult_self1) (use assms in simp)
  moreover have "n * s + s - 1 = s - 1 + n * s"
    using assms by simp
  ultimately show ?thesis using assms by (simp add: entry_count_def)
qed

lemma u32_of_nat_eq_0:
  assumes "x < 2 ^ 32"
  shows "(of_nat x = (0 :: u32)) \<longleftrightarrow> x = 0"
proof
  assume "of_nat x = (0 :: u32)"
  then have "(2::nat) ^ 32 dvd x" by (simp add: word_of_nat_eq_0_iff)
  with assms show "x = 0" by (metis dvd_imp_le gr0I linorder_not_le)
qed simp

lemma u32_of_nat_minus_1:
  assumes "0 < x"
  shows "(of_nat x :: u32) - 1 = of_nat (x - 1)"
  using assms by (simp add: of_nat_diff)

lemma stride_inj [stride_simps]:
  "0 < s \<Longrightarrow> (b + i * s = b + j * (s::nat)) \<longleftrightarrow> i = j"
  by simp

lemma stride_less [stride_simps]:
  "0 < s \<Longrightarrow> (b + i * s < b + j * (s::nat)) \<longleftrightarrow> i < j"
  by simp

lemma funpow_add_apply: "(f ^^ a) ((f ^^ b) x) = (f ^^ (a + b)) x"
  by (simp add: funpow_add)

lemma stride_Suc [stride_simps]: "b + i * s + s = b + Suc i * (s::nat)"
  by simp

end
