(* ===== verification/MemoryDescriptor.thy ===== *)
theory MemoryDescriptor
  imports Prelude
begin

text \<open>
  The data model of \<open>src/inc/uefi.h\<close> and of the globals of \<open>src/kern/uefi.c\<close>:
  the firmware memory descriptor, the memory-type enumeration with its numeric
  codes and the name table \<open>memory_types[]\<close>, the allocation request types and
  status codes, the memory-map part of \<open>LOADER_PARAMS\<close>, and the kernel state
  (the globals \<open>AVAIBLE_MEMORY\<close>, \<open>MEMORY_MAP_SIZE\<close>, \<open>MEMORY_MAP_ADDR\<close> and the
  memory holding the rebuilt map).
\<close>

section \<open>Descriptors and memory types\<close>

text \<open>\<open>EFI_MEMORY_DESCRIPTOR\<close> (uefi.h): the C field widths are kept.\<close>

record EFI_MEMORY_DESCRIPTOR =
  Type :: u32
  PhysicalStart :: u64
  VirtualStart :: u64
  NumberOfPages :: u64
  Attribute :: u64

text \<open>The page size, \<open>#define SPAGES 4096\<close> in uefi.c.\<close>

abbreviation SPAGES :: "'a::numeral" where
  "SPAGES \<equiv> 4096"

text \<open>The memory types named in \<open>memory_types[]\<close>, in code order 0 to 15.\<close>

datatype EFI_MEMORY_TYPE =
    EfiReservedMemoryType | EfiLoaderCode | EfiLoaderData | EfiBootServicesCode
  | EfiBootServicesData | EfiRuntimeServicesCode | EfiRuntimeServicesData
  | EfiConventionalMemory | EfiUnusableMemory | EfiACPIReclaimMemory | EfiACPIMemoryNVS
  | EfiMemoryMappedIO | EfiMemoryMappedIOPortSpace | EfiPalCode | EfiPersistentMemory
  | EfiMaxMemoryType

primrec memory_type_code :: "EFI_MEMORY_TYPE \<Rightarrow> u32" where
  "memory_type_code EfiReservedMemoryType = 0"
| "memory_type_code EfiLoaderCode = 1"
| "memory_type_code EfiLoaderData = 2"
| "memory_type_code EfiBootServicesCode = 3"
| "memory_type_code EfiBootServicesData = 4"
| "memory_type_code EfiRuntimeServicesCode = 5"
| "memory_type_code EfiRuntimeServicesData = 6"
| "memory_type_code EfiConventionalMemory = 7"
| "memory_type_code EfiUnusableMemory = 8"
| "memory_type_code EfiACPIReclaimMemory = 9"
| "memory_type_code EfiACPIMemoryNVS = 10"
| "memory_type_code EfiMemoryMappedIO = 11"
| "memory_type_code EfiMemoryMappedIOPortSpace = 12"
| "memory_type_code EfiPalCode = 13"
| "memory_type_code EfiPersistentMemory = 14"
| "memory_type_code EfiMaxMemoryType = 15"

definition memory_type_list :: "EFI_MEMORY_TYPE list" where
  "memory_type_list =
     [EfiReservedMemoryType, EfiLoaderCode, EfiLoaderData, EfiBootServicesCode,
      EfiBootServicesData, EfiRuntimeServicesCode, EfiRuntimeServicesData,
      EfiConventionalMemory, EfiUnusableMemory, EfiACPIReclaimMemory, EfiACPIMemoryNVS,
      EfiMemoryMappedIO, EfiMemoryMappedIOPortSpace, EfiPalCode, EfiPersistentMemory,
      EfiMaxMemoryType]"

text \<open>Decoding a \<open>Type\<close> field: codes 16 and above name no enumerator.\<close>

definition memory_type_of :: "u32 \<Rightarrow> EFI_MEMORY_TYPE option" where
  "memory_type_of w =
     (if unat w < length memory_type_list then Some (memory_type_list ! unat w) else None)"

text \<open>
  The string table \<open>memory_types[]\<close> (uefi.c) and the read
  \<open>memory_types[desc->Type]\<close> of \<open>PrintMemoryMap\<close>: the array has 16 entries and
  the index is not checked, so a code of 16 or more reads past the table
  (\<open>None\<close>).
\<close>

definition memory_types :: "string list" where
  "memory_types =
     [''EfiReservedMemoryType'', ''EfiLoaderCode'', ''EfiLoaderData'',
      ''EfiBootServicesCode'', ''EfiBootServicesData'', ''EfiRuntimeServicesCode'',
      ''EfiRuntimeServicesData'', ''EfiConventionalMemory'', ''EfiUnusableMemory'',
      ''EfiACPIReclaimMemory'', ''EfiACPIMemoryNVS'', ''EfiMemoryMappedIO'',
      ''EfiMemoryMappedIOPortSpace'', ''EfiPalCode'', ''EfiPersistentMemory'',
      ''EfiMaxMemoryType'']"

definition memory_type_name :: "u32 \<Rightarrow> string option" where
  "memory_type_name w =
     (if unat w < length memory_types then Some (memory_types ! unat w) else None)"

text \<open>Type tests used by every scan of the rebuilt map.\<close>

definition is_conventional :: "EFI_MEMORY_DESCRIPTOR \<Rightarrow> bool" where
  "is_conventional d \<longleftrightarrow> Type d = memory_type_code EfiConventionalMemory"

section \<open>Allocation requests and results\<close>

text \<open>\<open>EFI_ALLOCATE_TYPE\<close>, in the order of \<open>alocate_types[]\<close> (uefi.c).\<close>

datatype EFI_ALLOCATE_TYPE =
  AllocateAnyPages | AllocateMaxAddress | AllocateAddress | MaxAllocateType

text \<open>The status codes \<open>AllocatePages\<close> and \<open>FreePages\<close> return.\<close>

datatype EFI_ALLOCATE_ERROR =
  EFI_SUCCESS | EFI_INVALID_PARAMETER | EFI_NOT_FOUND | EFI_OUT_OF_RESOURCES

text \<open>
  A run of C code either returns normally or faults; a fault of this code is a
  write or read through a \<open>NULL\<close> \<open>mem\<close> pointer.
\<close>

datatype fault = NullDereference

section \<open>Loader parameters and kernel state\<close>

text \<open>
  The memory-map fields of \<open>LOADER_PARAMS\<close> (uefi.h).  The firmware buffer
  \<open>Memory_Map\<close> is read through descriptor pointers at byte offsets from its
  start, so it is a typed view indexed by byte offset.  \<open>UINTN\<close> is
  \<open>uint32_t\<close> in the kernel's header.  The other fields (kernel path, graphics,
  configuration tables) are not read by the memory-map code.
\<close>

record LOADER_PARAMS =
  Memory_Map_Descriptor_Version :: u32
  Memory_Map_Descriptor_Size :: u32
  Memory_Map :: "EFI_MEMORY_DESCRIPTOR typed_mem"
  Memory_Map_Size :: u32

text \<open>
  The kernel state of uefi.c: the loader block \<open>UEFI_LP\<close>, the three globals, and
  physical memory seen as descriptors at byte addresses (\<open>kmem\<close>), where the
  rebuilt map lives.
\<close>

record kstate =
  UEFI_LP :: LOADER_PARAMS
  AVAIBLE_MEMORY :: u64
  MEMORY_MAP_SIZE :: u64
  MEMORY_MAP_ADDR :: u64
  kmem :: "EFI_MEMORY_DESCRIPTOR typed_mem"

text \<open>
  Every function of uefi.c reaches the rebuilt map through
  \<open>uint32_t DungerousPlace = (uint32_t) MEMORY_MAP_ADDR;
   uint8_t *LowBorder = (uint8_t *) DungerousPlace;\<close>
  so the map's base pointer is \<open>MEMORY_MAP_ADDR\<close> truncated to 32 bits.
\<close>

definition LowBorder :: "u64 \<Rightarrow> nat" where
  "LowBorder a = unat (ucast a :: u32)"

definition map_start :: "kstate \<Rightarrow> nat" where
  "map_start st = LowBorder (MEMORY_MAP_ADDR st)"

definition map_end :: "kstate \<Rightarrow> nat" where
  "map_end st = map_start st + unat (MEMORY_MAP_SIZE st)"

definition desc_size :: "kstate \<Rightarrow> nat" where
  "desc_size st = unat (Memory_Map_Descriptor_Size (UEFI_LP st))"

section \<open>Lemmas\<close>

lemma memory_type_of_code [simp]: "memory_type_of (memory_type_code k) = Some k"
  by (cases k) (simp_all add: memory_type_of_def memory_type_list_def)

lemma memory_type_code_of:
  assumes "memory_type_of w = Some k"
  shows "memory_type_code k = w"
proof -
  have lt: "unat w < 16" and k: "k = memory_type_list ! unat w"
    using assms by (auto simp: memory_type_of_def memory_type_list_def split: if_splits)
  have "w = of_nat (unat w)" by simp
  moreover have "memory_type_code (memory_type_list ! n) = of_nat n" if "n < 16" for n
    using that by (auto simp: memory_type_list_def numeral_eq_Suc less_Suc_eq)
  ultimately show ?thesis using lt k by metis
qed

lemma memory_type_of_None: "memory_type_of w = None \<longleftrightarrow> 16 \<le> unat w"
  by (auto simp: memory_type_of_def memory_type_list_def)

lemma memory_type_name_code:
  "memory_type_name (memory_type_code k) = Some (memory_types ! unat (memory_type_code k))"
  by (cases k) (simp_all add: memory_type_name_def memory_types_def)

lemma is_conventional_Type_upd [simp]:
  "is_conventional (d\<lparr>Type := t\<rparr>) \<longleftrightarrow> t = 7"
  by (simp add: is_conventional_def)

lemma LowBorder_bound: "LowBorder a < 2 ^ 32"
  unfolding LowBorder_def using unsigned_less [of "ucast a :: u32"] by simp

lemma LowBorder_eq: "LowBorder a = unat a \<longleftrightarrow> unat a < 2 ^ 32"
proof
  assume "LowBorder a = unat a"
  then show "unat a < 2 ^ 32" using LowBorder_bound by metis
next
  assume "unat a < 2 ^ 32"
  then show "LowBorder a = unat a"
    by (simp add: LowBorder_def unsigned_ucast_eq take_bit_nat_eq_self)
qed

end
