(* ===== verification/PageAllocator.thy ===== *)
theory PageAllocator
  imports MemoryDescriptor
begin

text \<open>
  The page allocator of \<open>src/kern/uefi.c\<close>: \<open>AllocatePages\<close> with its three
  strategies and \<open>FreePages\<close>, over the rebuilt map of one descriptor per page
  that starts at \<open>LowBorder\<close> and spans \<open>MEMORY_MAP_SIZE\<close> bytes with stride
  \<open>Memory_Map_Descriptor_Size\<close>.  Each \<open>while (offset < endOfMemoryMap)\<close> loop is
  a \<open>partial_function (option)\<close> over the byte pointer \<open>offset\<close> (a zero stride
  makes the loop spin, which is the value \<open>None\<close>); each \<open>for (i < pages)\<close> loop
  over \<open>save_offset\<close> is a \<open>primrec\<close> on the page count.
\<close>

section \<open>Scans of the rebuilt map\<close>

text \<open>
  How a scan ends: \<open>Found save off\<close> when the success branch is taken with
  \<open>save_offset = save\<close> and \<open>offset = off\<close>; \<open>Passed\<close> at an early
  \<open>return\<close> because an entry lies above the requested address; \<open>Exhausted\<close>
  when the loop condition fails.
\<close>

datatype scan_outcome = Found nat nat | Passed | Exhausted

text \<open>
  The run counter shared by the first-fit scans (uefi.c lines 253 and 293):
  \<open>if (save_offset == NULL) {save_offset=offset; num_pages=pages-1;}
   else {num_pages--;}\<close>.  A pointer equal to 0 is \<open>NULL\<close>, and \<open>num_pages\<close> is a
  \<open>UINTN\<close>, so \<open>pages - 1\<close> wraps for \<open>pages = 0\<close>.
\<close>

definition run_step :: "nat \<Rightarrow> u32 \<Rightarrow> nat \<Rightarrow> u32 \<Rightarrow> nat \<times> u32" where
  "run_step save num off pages = (if save = 0 then (off, pages - 1) else (save, num - 1))"

text \<open>\<open>AllocateAnyPages\<close> scan (lines 248--277).\<close>

partial_function (option) any_scan ::
  "EFI_MEMORY_DESCRIPTOR typed_mem \<Rightarrow> nat \<Rightarrow> nat \<Rightarrow> u32 \<Rightarrow> nat \<Rightarrow> nat \<Rightarrow> u32
   \<Rightarrow> scan_outcome option" where
  "any_scan m s e pages off save num =
     (if off < e then
        (if is_conventional (m off) then
           (case run_step save num off pages of (save', num') \<Rightarrow>
              if num' = 0 then Some (Found save' off)
              else any_scan m s e pages (off + s) save' num')
         else any_scan m s e pages (off + s) 0 pages)
      else Some Exhausted)"

text \<open>
  \<open>AllocateMaxAddress\<close> scan (lines 285--313): the bound test comes first, and
  the test \<open>num_pages == 0\<close> is outside the conventional branch.
\<close>

partial_function (option) max_scan ::
  "EFI_MEMORY_DESCRIPTOR typed_mem \<Rightarrow> nat \<Rightarrow> nat \<Rightarrow> u32 \<Rightarrow> u64 \<Rightarrow> nat \<Rightarrow> nat \<Rightarrow> u32
   \<Rightarrow> scan_outcome option" where
  "max_scan m s e pages maxa off save num =
     (if off < e then
        (if maxa < PhysicalStart (m off) then Some Passed
         else
           (case (if is_conventional (m off) then run_step save num off pages else (0, pages))
            of (save', num') \<Rightarrow>
              if num' = 0 then Some (Found save' off)
              else max_scan m s e pages maxa (off + s) save' num'))
      else Some Exhausted)"

text \<open>\<open>AllocateAddress\<close> scan (lines 322--348).\<close>

partial_function (option) addr_scan ::
  "EFI_MEMORY_DESCRIPTOR typed_mem \<Rightarrow> nat \<Rightarrow> nat \<Rightarrow> u64 \<Rightarrow> nat \<Rightarrow> scan_outcome option" where
  "addr_scan m s e a off =
     (if off < e then
        (if \<not> is_conventional (m off) \<and> a < PhysicalStart (m off) then Some Passed
         else if is_conventional (m off) \<and> PhysicalStart (m off) = a then Some (Found off off)
         else addr_scan m s e a (off + s))
      else Some Exhausted)"

text \<open>\<open>FreePages\<close> scan (lines 380--397).\<close>

partial_function (option) free_scan ::
  "EFI_MEMORY_DESCRIPTOR typed_mem \<Rightarrow> nat \<Rightarrow> nat \<Rightarrow> u64 \<Rightarrow> nat \<Rightarrow> scan_outcome option" where
  "free_scan m s e a off =
     (if off < e then
        (if a < PhysicalStart (m off) then Some Passed
         else if PhysicalStart (m off) = a then Some (Found off off)
         else free_scan m s e a (off + s))
      else Some Exhausted)"

text \<open>
  The write loop \<open>for (i = 0; i < pages; ++i) { desctmp = save_offset;
  desctmp->Type = t; save_offset += stride; }\<close> (lines 259--264, 304--309,
  338--343, 387--392).  It does not test the end of the map.
\<close>

primrec retag ::
  "EFI_MEMORY_DESCRIPTOR typed_mem \<Rightarrow> nat \<Rightarrow> nat \<Rightarrow> u32 \<Rightarrow> nat \<Rightarrow> EFI_MEMORY_DESCRIPTOR typed_mem"
where
  "retag m p s t 0 = m"
| "retag m p s t (Suc n) = retag (m(p := (m p)\<lparr>Type := t\<rparr>)) (p + s) s t n"

text \<open>The check loop of \<open>AllocateAddress\<close> (lines 331--336); it does not test the end of the map.\<close>

primrec pages_free :: "EFI_MEMORY_DESCRIPTOR typed_mem \<Rightarrow> nat \<Rightarrow> nat \<Rightarrow> nat \<Rightarrow> bool" where
  "pages_free m p s 0 = True"
| "pages_free m p s (Suc n) = (is_conventional (m p) \<and> pages_free m (p + s) s n)"

section \<open>AllocatePages and FreePages\<close>

text \<open>
  A call returns normally with the status, the value left in \<open>*mem\<close>
  (\<open>None\<close> for a \<open>NULL\<close> \<open>mem\<close>) and the new state; or it faults; \<open>None\<close> is
  a call that does not return.
\<close>

type_synonym alloc_result = "(fault + EFI_ALLOCATE_ERROR \<times> u64 option \<times> kstate) option"
type_synonym free_result = "(fault + EFI_ALLOCATE_ERROR \<times> kstate) option"

text \<open>The \<open>AllocateAnyPages\<close> branch (lines 246--278); \<open>*mem\<close> is written on success only.\<close>

definition allocate_any_pages :: "kstate \<Rightarrow> u32 \<Rightarrow> u32 \<Rightarrow> u64 option \<Rightarrow> alloc_result" where
  "allocate_any_pages st m_type pages mem =
     map_option
       (\<lambda>r. case r of
          Found save off \<Rightarrow>
            (case mem of
               None \<Rightarrow> Inl NullDereference
             | Some _ \<Rightarrow> Inr (EFI_SUCCESS, Some (PhysicalStart (kmem st off)),
                 st\<lparr>kmem := retag (kmem st) save (desc_size st) m_type (unat pages)\<rparr>))
        | _ \<Rightarrow> Inr (EFI_OUT_OF_RESOURCES, mem, st))
       (any_scan (kmem st) (desc_size st) (map_end st) pages (map_start st) 0 pages)"

text \<open>
  The \<open>AllocateMaxAddress\<close> branch (lines 282--315).  \<open>AllocatePages\<close> only
  reaches it with a non-\<open>NULL\<close> \<open>mem\<close> (line 223).
\<close>

definition allocate_max_address :: "kstate \<Rightarrow> u32 \<Rightarrow> u32 \<Rightarrow> u64 option \<Rightarrow> alloc_result" where
  "allocate_max_address st m_type pages mem =
     (case mem of
        None \<Rightarrow> Some (Inl NullDereference)
      | Some a \<Rightarrow>
          map_option
            (\<lambda>r. case r of
               Found save off \<Rightarrow>
                 Inr (EFI_SUCCESS, Some (PhysicalStart (kmem st off)),
                   st\<lparr>kmem := retag (kmem st) save (desc_size st) m_type (unat pages)\<rparr>)
             | _ \<Rightarrow> Inr (EFI_OUT_OF_RESOURCES, mem, st))
            (max_scan (kmem st) (desc_size st) (map_end st) pages a (map_start st) 0 pages))"

text \<open>The \<open>AllocateAddress\<close> branch (lines 317--350).\<close>

definition allocate_address :: "kstate \<Rightarrow> u32 \<Rightarrow> u32 \<Rightarrow> u64 option \<Rightarrow> alloc_result" where
  "allocate_address st m_type pages mem =
     (case mem of
        None \<Rightarrow> Some (Inl NullDereference)
      | Some a \<Rightarrow>
          (if AVAIBLE_MEMORY st < a then Some (Inr (EFI_NOT_FOUND, mem, st))
           else
             map_option
               (\<lambda>r. case r of
                  Found p _ \<Rightarrow>
                    (if pages_free (kmem st) p (desc_size st) (unat pages)
                     then Inr (EFI_SUCCESS, mem,
                       st\<lparr>kmem := retag (kmem st) p (desc_size st) m_type (unat pages)\<rparr>)
                     else Inr (EFI_OUT_OF_RESOURCES, mem, st))
                | _ \<Rightarrow> Inr (EFI_OUT_OF_RESOURCES, mem, st))
               (addr_scan (kmem st) (desc_size st) (map_end st) a (map_start st))))"

text \<open>
  \<open>AllocatePages (a_type, m_type, pages, mem)\<close> (lines 215--354): the parameter
  checks of lines 218--227 in order, then the branch of the request type.
  \<open>m_type\<close> is compared as an unsigned 32-bit code.
\<close>

definition AllocatePages ::
  "kstate \<Rightarrow> EFI_ALLOCATE_TYPE \<Rightarrow> u32 \<Rightarrow> u32 \<Rightarrow> u64 option \<Rightarrow> alloc_result" where
  "AllocatePages st a_type m_type pages mem =
     (if a_type \<noteq> AllocateAnyPages \<and> a_type \<noteq> AllocateMaxAddress \<and> a_type \<noteq> AllocateAddress
      then Some (Inr (EFI_INVALID_PARAMETER, mem, st))
      else if (case mem of None \<Rightarrow> False | Some a \<Rightarrow> a mod SPAGES \<noteq> 0)
      then Some (Inr (EFI_INVALID_PARAMETER, mem, st))
      else if mem = None \<and> a_type \<noteq> AllocateAnyPages
      then Some (Inr (EFI_INVALID_PARAMETER, mem, st))
      else if m_type = memory_type_code EfiPersistentMemory
      then Some (Inr (EFI_INVALID_PARAMETER, mem, st))
      else if memory_type_code EfiMaxMemoryType \<le> m_type \<and> m_type \<le> 0x6FFFFFFF
      then Some (Inr (EFI_INVALID_PARAMETER, mem, st))
      else
        (case a_type of
           AllocateAnyPages \<Rightarrow> allocate_any_pages st m_type pages mem
         | AllocateMaxAddress \<Rightarrow> allocate_max_address st m_type pages mem
         | AllocateAddress \<Rightarrow> allocate_address st m_type pages mem
         | MaxAllocateType \<Rightarrow> Some (Inr (EFI_OUT_OF_RESOURCES, mem, st))))"

text \<open>
  \<open>FreePages (mem, pages)\<close> (lines 358--399).  The \<open>NULL\<close> test guards only the
  alignment check: line 363 reads \<open>*mem\<close> unconditionally.  A scan that reaches
  the end of the map returns \<open>EFI_SUCCESS\<close> without freeing anything.
\<close>

definition FreePages :: "kstate \<Rightarrow> u64 option \<Rightarrow> u32 \<Rightarrow> free_result" where
  "FreePages st mem pages =
     (case mem of
        None \<Rightarrow> Some (Inl NullDereference)
      | Some a \<Rightarrow>
          (if a mod SPAGES \<noteq> 0 then Some (Inr (EFI_INVALID_PARAMETER, st))
           else if AVAIBLE_MEMORY st < a then Some (Inr (EFI_INVALID_PARAMETER, st))
           else
             map_option
               (\<lambda>r. case r of
                  Found p _ \<Rightarrow>
                    Inr (EFI_SUCCESS,
                      st\<lparr>kmem := retag (kmem st) p (desc_size st)
                                  (memory_type_code EfiConventionalMemory) (unat pages)\<rparr>)
                | Passed \<Rightarrow> Inr (EFI_NOT_FOUND, st)
                | Exhausted \<Rightarrow> Inr (EFI_SUCCESS, st))
               (free_scan (kmem st) (desc_size st) (map_end st) a (map_start st))))"

section \<open>Abstract specification of the first-fit strategies\<close>

text \<open>
  The rebuilt map seen as an array: entry \<open>k\<close> is the descriptor at
  \<open>b + k * s\<close> for base \<open>b\<close> and stride \<open>s\<close>; the scans visit the
  \<open>map_entries\<close> entries below \<open>LowBorder + MEMORY_MAP_SIZE\<close>.
\<close>

definition map_entries :: "kstate \<Rightarrow> nat" where
  "map_entries st = entry_count (desc_size st) (unat (MEMORY_MAP_SIZE st))"

definition entry :: "kstate \<Rightarrow> nat \<Rightarrow> EFI_MEMORY_DESCRIPTOR" where
  "entry st k = kmem st (map_start st + k * desc_size st)"

text \<open>A run of \<open>len\<close> free (conventional) entries starting at index \<open>j\<close>.\<close>

definition free_run :: "EFI_MEMORY_DESCRIPTOR typed_mem \<Rightarrow> nat \<Rightarrow> nat \<Rightarrow> nat \<Rightarrow> nat \<Rightarrow> bool" where
  "free_run m b s j len \<longleftrightarrow> (\<forall>i<len. is_conventional (m (b + (j + i) * s)))"

text \<open>First fit: the least start index \<open>j \<ge> j0\<close> of a free run of length \<open>len\<close> inside the first \<open>n\<close> entries.\<close>

function first_fit ::
  "EFI_MEMORY_DESCRIPTOR typed_mem \<Rightarrow> nat \<Rightarrow> nat \<Rightarrow> nat \<Rightarrow> nat \<Rightarrow> nat \<Rightarrow> nat option" where
  "first_fit m b s n len j =
     (if n < j + len then None
      else if free_run m b s j len then Some j
      else first_fit m b s n len (Suc j))"
  by pat_completeness auto
termination
  by (relation "measure (\<lambda>(m, b, s, n, len, j). Suc n - j)") auto

text \<open>The length of run the \<open>UINTN\<close> counter waits for: \<open>pages\<close>, or \<open>2^32\<close> when \<open>pages - 1\<close> wraps.\<close>

definition run_len :: "u32 \<Rightarrow> nat" where
  "run_len pages = (if pages = 0 then 2 ^ 32 else unat pages)"

text \<open>Setting the type of the entries \<open>j .. j + len - 1\<close>, and nothing else.\<close>

definition tag_run ::
  "EFI_MEMORY_DESCRIPTOR typed_mem \<Rightarrow> nat \<Rightarrow> nat \<Rightarrow> nat \<Rightarrow> nat \<Rightarrow> u32 \<Rightarrow> EFI_MEMORY_DESCRIPTOR typed_mem"
where
  "tag_run m b s j len t = (\<lambda>q. if \<exists>i<len. q = b + (j + i) * s then (m q)\<lparr>Type := t\<rparr> else m q)"

text \<open>The memory types \<open>AllocatePages\<close> accepts (lines 225 and 227).\<close>

definition alloc_type_ok :: "u32 \<Rightarrow> bool" where
  "alloc_type_ok t \<longleftrightarrow>
     t \<noteq> memory_type_code EfiPersistentMemory \<and>
     \<not> (memory_type_code EfiMaxMemoryType \<le> t \<and> t \<le> 0x6FFFFFFF)"

text \<open>Where the \<open>AllocateAddress\<close> scan stops (line 326 and 328) and where the \<open>FreePages\<close> scan stops (lines 383 and 384).\<close>

definition addr_stop :: "EFI_MEMORY_DESCRIPTOR \<Rightarrow> u64 \<Rightarrow> bool" where
  "addr_stop d a \<longleftrightarrow> (is_conventional d \<and> PhysicalStart d = a) \<or> (\<not> is_conventional d \<and> a < PhysicalStart d)"

definition free_stop :: "EFI_MEMORY_DESCRIPTOR \<Rightarrow> u64 \<Rightarrow> bool" where
  "free_stop d a \<longleftrightarrow> a \<le> PhysicalStart d"

text \<open>The map lists strictly increasing page addresses, and the index of the entry at address \<open>a\<close>.\<close>

definition map_sorted :: "kstate \<Rightarrow> bool" where
  "map_sorted st \<longleftrightarrow>
     (\<forall>i j. i < j \<longrightarrow> j < map_entries st \<longrightarrow> PhysicalStart (entry st i) < PhysicalStart (entry st j))"

definition entry_index :: "kstate \<Rightarrow> u64 \<Rightarrow> nat option" where
  "entry_index st a = find (\<lambda>j. PhysicalStart (entry st j) = a) [0..<map_entries st]"

text \<open>The index of the first entry above address \<open>a\<close> (the \<open>AllocateMaxAddress\<close> bound of line 289).\<close>

definition first_above :: "kstate \<Rightarrow> u64 \<Rightarrow> nat" where
  "first_above st a =
     (case find (\<lambda>k. a < PhysicalStart (entry st k)) [0..<map_entries st] of
        Some k \<Rightarrow> k
      | None \<Rightarrow> map_entries st)"

text \<open>
  The concrete scenario of the specification (section 8): a map of 272 page
  entries with stride 48 at physical address \<open>0x1000000\<close>; entries 0--255 are
  conventional pages from \<open>0x100000\<close>, entries 256--271 reserved pages from
  \<open>0x200000\<close>.
\<close>

definition example_mem :: "EFI_MEMORY_DESCRIPTOR typed_mem" where
  "example_mem p =
     (let i = (p - 0x1000000) div 48 in
      \<lparr>Type = (if i < 256 then 7 else 0), PhysicalStart = 0x100000 + of_nat i * 4096,
       VirtualStart = 0, NumberOfPages = 1, Attribute = 0\<rparr>)"

definition example_state :: kstate where
  "example_state =
     \<lparr>UEFI_LP = \<lparr>Memory_Map_Descriptor_Version = 1, Memory_Map_Descriptor_Size = 48,
        Memory_Map = (\<lambda>_. example_mem 0), Memory_Map_Size = 96\<rparr>,
      AVAIBLE_MEMORY = 0x210000, MEMORY_MAP_SIZE = 13056, MEMORY_MAP_ADDR = 0x1000000,
      kmem = example_mem\<rparr>"

declare any_scan.simps [simp del] max_scan.simps [simp del]
  addr_scan.simps [simp del] free_scan.simps [simp del] first_fit.simps [simp del]

section \<open>Lemmas\<close>

subsection \<open>The write and check loops\<close>

lemma retag_apply:
  "retag m p s t n q = (if \<exists>i<n. q = p + i * s then (m q)\<lparr>Type := t\<rparr> else m q)"
proof (induction n arbitrary: m p)
  case 0
  then show ?case by simp
next
  case (Suc n)
  let ?m = "m(p := (m p)\<lparr>Type := t\<rparr>)"
  have IH: "retag ?m (p + s) s t n q =
      (if \<exists>i<n. q = p + s + i * s then (?m q)\<lparr>Type := t\<rparr> else ?m q)"
    by (rule Suc.IH)
  have split: "(\<exists>i<Suc n. q = p + i * s) \<longleftrightarrow> q = p \<or> (\<exists>i<n. q = p + s + i * s)"
    by (auto simp: less_Suc_eq_0_disj)
  show ?case
  proof (cases "q = p")
    case True
    from IH have "retag ?m (p + s) s t n p = (m p)\<lparr>Type := t\<rparr>"
      unfolding True by (simp split: if_splits)
    moreover have "\<exists>i<Suc n. p = p + i * s" by (rule exI [of _ 0]) simp
    ultimately show ?thesis using True by simp
  next
    case False
    with IH show ?thesis by (simp only: split retag.simps fun_upd_other simp_thms)
  qed
qed

lemma retag_tag_run: "retag m (b + j * s) s t len = tag_run m b s j len t"
  by (rule ext) (simp add: retag_apply tag_run_def algebra_simps)

lemma pages_free_iff:
  "pages_free m p s n \<longleftrightarrow> (\<forall>i<n. is_conventional (m (p + i * s)))"
proof (induction n arbitrary: p)
  case 0
  then show ?case by simp
next
  case (Suc n)
  then show ?case
    by (auto simp: less_Suc_eq_0_disj algebra_simps)
qed

lemma pages_free_free_run: "pages_free m (b + j * s) s len \<longleftrightarrow> free_run m b s j len"
  by (simp add: pages_free_iff free_run_def algebra_simps)

subsection \<open>First fit\<close>

lemma first_fit_past: "n < j + len \<Longrightarrow> first_fit m b s n len j = None"
  by (simp add: first_fit.simps)

lemma first_fit_hit: "j + len \<le> n \<Longrightarrow> free_run m b s j len \<Longrightarrow> first_fit m b s n len j = Some j"
  by (simp add: first_fit.simps)

lemma first_fit_skip:
  assumes "j \<le> j'" and "\<forall>i. j \<le> i \<and> i < j' \<longrightarrow> \<not> free_run m b s i len"
  shows "first_fit m b s n len j = first_fit m b s n len j'"
  using assms
proof (induction "j' - j" arbitrary: j)
  case 0
  then show ?case by simp
next
  case (Suc d)
  then have lt: "j < j'" and nf: "\<not> free_run m b s j len" by auto
  have rest: "first_fit m b s n len (Suc j) = first_fit m b s n len j'"
    using Suc.prems lt Suc.hyps(2) by (intro Suc.hyps(1)) auto
  show ?case
  proof (cases "n < j + len")
    case True
    with lt have "n < j' + len" by simp
    with True show ?thesis by (simp add: first_fit_past)
  next
    case False
    with nf rest show ?thesis by (simp add: first_fit.simps [of m b s n len j])
  qed
qed

lemma first_fit_SomeD:
  "first_fit m b s n len j0 = Some j \<Longrightarrow>
     j0 \<le> j \<and> j + len \<le> n \<and> free_run m b s j len \<and>
     (\<forall>i. j0 \<le> i \<and> i < j \<longrightarrow> \<not> free_run m b s i len)"
proof (induction m b s n len j0 rule: first_fit.induct)
  case (1 m b s n len j0)
  show ?case
  proof (cases "n < j0 + len \<or> free_run m b s j0 len")
    case True
    with "1.prems" show ?thesis by (auto simp: first_fit.simps [of m b s n len j0] split: if_splits)
  next
    case False
    with "1.prems" have "first_fit m b s n len (Suc j0) = Some j"
      by (simp add: first_fit.simps [of m b s n len j0])
    with "1.IH" False have "Suc j0 \<le> j \<and> j + len \<le> n \<and> free_run m b s j len \<and>
        (\<forall>i. Suc j0 \<le> i \<and> i < j \<longrightarrow> \<not> free_run m b s i len)" by simp
    moreover have "\<forall>i. j0 \<le> i \<and> i < j \<longrightarrow> \<not> free_run m b s i len"
    proof (intro allI impI)
      fix i
      assume "j0 \<le> i \<and> i < j"
      with False calculation show "\<not> free_run m b s i len" by (cases "i = j0") auto
    qed
    ultimately show ?thesis by simp
  qed
qed

lemma first_fit_NoneD:
  "first_fit m b s n len j0 = None \<Longrightarrow> j0 \<le> i \<Longrightarrow> i + len \<le> n \<Longrightarrow> \<not> free_run m b s i len"
proof (induction m b s n len j0 rule: first_fit.induct)
  case (1 m b s n len j0)
  show ?case
  proof (cases "n < j0 + len \<or> free_run m b s j0 len")
    case True
    with "1.prems" show ?thesis by (auto simp: first_fit.simps [of m b s n len j0] split: if_splits)
  next
    case False
    with "1.prems" have "first_fit m b s n len (Suc j0) = None"
      by (simp add: first_fit.simps [of m b s n len j0])
    with "1.IH" False "1.prems" show ?thesis by (cases "i = j0") auto
  qed
qed

lemma run_len_bounds: "0 < run_len pages" "run_len pages \<le> 2 ^ 32"
proof -
  have "unat pages < 2 ^ LENGTH(32)" by (rule unsigned_less)
  then show "0 < run_len pages" "run_len pages \<le> 2 ^ 32"
    by (auto simp: run_len_def unat_gt_0)
qed

lemma run_len_word: "(of_nat (run_len pages) :: u32) = pages"
  by (simp add: run_len_def)

lemma run_len_unat: "pages \<noteq> 0 \<Longrightarrow> run_len pages = unat pages"
  by (simp add: run_len_def)

lemma run_step_fresh: "run_step 0 num off pages = (off, pages - 1)"
  by (simp add: run_step_def)

lemma run_step_cont: "0 < save \<Longrightarrow> run_step save num off pages = (save, num - 1)"
  by (simp add: run_step_def)

text \<open>The counter after \<open>c\<close> free entries: \<open>NULL\<close> for none, else the run start and \<open>pages - c\<close>.\<close>

lemma run_len_minus_1: "pages - 1 = (of_nat (run_len pages - 1) :: u32)"
proof -
  have "pages - 1 = (of_nat (run_len pages) :: u32) - 1" by (simp only: run_len_word)
  also have "\<dots> = of_nat (run_len pages - 1)"
    by (rule u32_of_nat_minus_1) (rule run_len_bounds(1))
  finally show ?thesis .
qed

lemma run_step_count:
  assumes b: "0 < b" and c: "c < len" and len: "len = run_len pages"
    and sv: "if c = 0 then save = 0 else save = b + (k - c) * s \<and> num = of_nat (len - c)"
  shows "run_step save num (b + k * s) pages = (b + (k - c) * s, of_nat (len - Suc c))"
proof (cases "c = 0")
  case True
  with sv have "save = 0" by simp
  then have "run_step save num (b + k * s) pages = (b + k * s, pages - 1)"
    by (simp only: run_step_fresh)
  with True len show ?thesis by (simp only: run_len_minus_1 minus_nat.diff_0 One_nat_def)
next
  case False
  with sv b have sv': "save = b + (k - c) * s" "num = of_nat (len - c)" "0 < save" by auto
  from False c have "(of_nat (len - c) :: u32) - 1 = of_nat (len - c - 1)"
    by (intro u32_of_nat_minus_1) simp
  with sv' show ?thesis by (simp add: run_step_cont)
qed

text \<open>Facts about one step of a first-fit scan, shared by \<open>any_scan\<close> and \<open>max_scan\<close>.\<close>

lemma run_full:
  assumes "Suc c = len" "c \<le> k" "\<forall>i<c. is_conventional (m (b + (k - c + i) * s))"
    and "is_conventional (m (b + k * s))"
  shows "free_run m b s (k - c) len"
  unfolding free_run_def
proof (intro allI impI)
  fix i
  assume "i < len"
  with assms(1) have "i < c \<or> i = c" by auto
  then show "is_conventional (m (b + (k - c + i) * s))" using assms(2-) by auto
qed

lemma run_extend:
  assumes "c \<le> k" "\<forall>i<c. is_conventional (m (b + (k - c + i) * s))"
    and "is_conventional (m (b + k * s))"
  shows "\<forall>i<Suc c. is_conventional (m (b + (Suc k - Suc c + i) * s))"
  using assms by (auto simp: less_Suc_eq)

lemma first_fit_skip_nonfree:
  assumes "\<not> is_conventional (m (b + k * s))" "c < len" "c \<le> k"
  shows "first_fit m b s n len (k - c) = first_fit m b s n len (Suc k)"
proof (rule first_fit_skip)
  show "k - c \<le> Suc k" by simp
  show "\<forall>i. k - c \<le> i \<and> i < Suc k \<longrightarrow> \<not> free_run m b s i len"
  proof (intro allI impI)
    fix i
    assume i: "k - c \<le> i \<and> i < Suc k"
    then have "k - i < len" "i + (k - i) = k" using assms(2,3) by auto
    then show "\<not> free_run m b s i len" using assms(1) unfolding free_run_def by metis
  qed
qed

lemma counter_nonzero:
  assumes "Suc c < len" "len \<le> 2 ^ 32"
  shows "(of_nat (len - Suc c) :: u32) \<noteq> 0"
proof -
  have lt32: "len - Suc c < 2 ^ 32" using assms by simp
  have nz: "len - Suc c \<noteq> 0" using assms by simp
  show ?thesis by (subst u32_of_nat_eq_0 [OF lt32]) (rule nz)
qed

lemma any_scan_first_fit:
  assumes s: "0 < s" and b: "0 < b" and len: "len = run_len pages"
    and "c < len" "c \<le> k"
    and "\<forall>i<c. is_conventional (m (b + (k - c + i) * s))"
    and "if c = 0 then save = 0 else save = b + (k - c) * s \<and> num = of_nat (len - c)"
  shows "any_scan m s (b + sz) pages (b + k * s) save num =
          Some (case first_fit m b s (entry_count s sz) len (k - c) of
                  Some j \<Rightarrow> Found (b + j * s) (b + (j + len - 1) * s)
                | None \<Rightarrow> Exhausted)"
  using assms(4-)
proof (induction "entry_count s sz - k" arbitrary: k c save num rule: less_induct)
  case less
  let ?n = "entry_count s sz"
  have unfold: "any_scan m s (b + sz) pages (b + k * s) save num =
     (if b + k * s < b + sz then
        (if is_conventional (m (b + k * s)) then
           (case run_step save num (b + k * s) pages of (save', num') \<Rightarrow>
              if num' = 0 then Some (Found save' (b + k * s))
              else any_scan m s (b + sz) pages (b + Suc k * s) save' num')
         else any_scan m s (b + sz) pages (b + Suc k * s) 0 pages)
      else Some Exhausted)"
    unfolding stride_Suc [symmetric] by (rule any_scan.simps)
  show ?case
  proof (cases "k < ?n")
    case False
    with s have "\<not> b + k * s < b + sz" by (simp add: entry_count_iff)
    moreover have "first_fit m b s ?n len (k - c) = None"
      using False less.prems(1,2) by (intro first_fit_past) simp
    ultimately show ?thesis by (simp add: unfold)
  next
    case True
    with s have lt: "b + k * s < b + sz" by (simp add: entry_count_iff)
    show ?thesis
    proof (cases "is_conventional (m (b + k * s))")
      case conv: True
      have rs: "run_step save num (b + k * s) pages = (b + (k - c) * s, of_nat (len - Suc c))"
        using b less.prems(1) len less.prems(4) by (rule run_step_count)
      have len_le: "len \<le> 2 ^ 32" using len run_len_bounds(2) by simp
      show ?thesis
      proof (cases "Suc c = len")
        case full: True
        have "free_run m b s (k - c) len"
          using full less.prems(2,3) conv by (rule run_full)
        moreover have "k - c + len \<le> ?n" using True full less.prems(2) by simp
        ultimately have "first_fit m b s ?n len (k - c) = Some (k - c)"
          by (rule first_fit_hit [rotated])
        moreover have "k - c + len - 1 = k" using full less.prems(2) by simp
        ultimately show ?thesis using lt conv rs full by (simp add: unfold)
      next
        case part: False
        with less.prems(1) have more: "Suc c < len" by simp
        have "(of_nat (len - Suc c) :: u32) \<noteq> 0" using more len_le by (rule counter_nonzero)
        moreover have "any_scan m s (b + sz) pages (b + Suc k * s) (b + (k - c) * s) (of_nat (len - Suc c)) =
          Some (case first_fit m b s ?n len (Suc k - Suc c) of
                  Some j \<Rightarrow> Found (b + j * s) (b + (j + len - 1) * s)
                | None \<Rightarrow> Exhausted)"
        proof (rule less.hyps)
          show "?n - Suc k < ?n - k" using True by simp
          show "Suc c < len" by (rule more)
          show "Suc c \<le> Suc k" using less.prems(2) by simp
          show "\<forall>i<Suc c. is_conventional (m (b + (Suc k - Suc c + i) * s))"
            using less.prems(2,3) conv by (rule run_extend)
          show "if Suc c = 0 then b + (k - c) * s = 0
                else b + (k - c) * s = b + (Suc k - Suc c) * s \<and>
                  (of_nat (len - Suc c) :: u32) = of_nat (len - Suc c)" by simp
        qed
        ultimately show ?thesis using lt conv rs by (simp add: unfold)
      qed
    next
      case nconv: False
      have skip: "first_fit m b s ?n len (k - c) = first_fit m b s ?n len (Suc k)"
        using nconv less.prems(1,2) by (rule first_fit_skip_nonfree)
      have "any_scan m s (b + sz) pages (b + Suc k * s) 0 pages =
          Some (case first_fit m b s ?n len (Suc k - 0) of
                  Some j \<Rightarrow> Found (b + j * s) (b + (j + len - 1) * s)
                | None \<Rightarrow> Exhausted)"
        using True less.prems(1) by (intro less.hyps) auto
      with lt nconv skip show ?thesis by (simp add: unfold)
    qed
  qed
qed

subsection \<open>AllocateAnyPages\<close>

lemma allocate_any_pages_first_fit:
  assumes "0 < desc_size st" "0 < map_start st"
  shows "allocate_any_pages st m_type pages mem =
    Some (case first_fit (kmem st) (map_start st) (desc_size st) (map_entries st) (run_len pages) 0 of
        None \<Rightarrow> Inr (EFI_OUT_OF_RESOURCES, mem, st)
      | Some j \<Rightarrow>
          (case mem of
             None \<Rightarrow> Inl NullDereference
           | Some _ \<Rightarrow> Inr (EFI_SUCCESS, Some (PhysicalStart (entry st (j + run_len pages - 1))),
               st\<lparr>kmem := tag_run (kmem st) (map_start st) (desc_size st) j (unat pages) m_type\<rparr>)))"
proof -
  have "any_scan (kmem st) (desc_size st) (map_start st + unat (MEMORY_MAP_SIZE st)) pages
          (map_start st + 0 * desc_size st) 0 pages =
        Some (case first_fit (kmem st) (map_start st) (desc_size st) (map_entries st)
                     (run_len pages) (0 - 0) of
                Some j \<Rightarrow> Found (map_start st + j * desc_size st)
                               (map_start st + (j + run_len pages - 1) * desc_size st)
              | None \<Rightarrow> Exhausted)"
    unfolding map_entries_def using assms run_len_bounds(1) [of pages]
    by (intro any_scan_first_fit) simp_all
  then show ?thesis
    by (auto simp: allocate_any_pages_def map_end_def entry_def retag_tag_run
        split: option.splits)
qed

lemma example_first_fit_4: "first_fit example_mem 0x1000000 48 272 4 0 = Some 0"
  by (rule first_fit_hit) (simp_all add: free_run_def example_mem_def is_conventional_def)

lemma example_hyps:
  "0 < desc_size example_state" "0 < map_start example_state" "alloc_type_ok 2"
  "map_entries example_state = 272"
  by (simp_all add: example_state_def desc_size_def map_start_def LowBorder_def
      alloc_type_ok_def map_entries_def entry_count_def)

text \<open>
  C1.  \<open>AllocateAnyPages\<close> implements first fit: with a non-zero stride, a map
  not at address 0, an aligned \<open>*mem\<close> and an accepted memory type, it returns
  \<open>EFI_OUT_OF_RESOURCES\<close> and changes nothing when no run of \<open>pages\<close> free
  entries exists, and otherwise retags exactly the first such run and stores in
  \<open>*mem\<close> the address of the run's last page.  The run length is \<open>2^32\<close> for
  \<open>pages = 0\<close> (the \<open>UINTN\<close> counter wraps), while nothing is retagged then.
\<close>

theorem AllocatePages_any_pages:
  assumes "0 < desc_size st" "0 < map_start st" "a mod SPAGES = 0" "alloc_type_ok m_type"
  shows "AllocatePages st AllocateAnyPages m_type pages (Some a) =
    Some (Inr (case first_fit (kmem st) (map_start st) (desc_size st) (map_entries st) (run_len pages) 0 of
        None \<Rightarrow> (EFI_OUT_OF_RESOURCES, Some a, st)
      | Some j \<Rightarrow> (EFI_SUCCESS, Some (PhysicalStart (entry st (j + run_len pages - 1))),
          st\<lparr>kmem := tag_run (kmem st) (map_start st) (desc_size st) j (unat pages) m_type\<rparr>)))"
  using assms
  by (auto simp: AllocatePages_def alloc_type_ok_def allocate_any_pages_first_fit
      split: option.splits)

theorem AllocatePages_any_pages_witness:
  "AllocatePages example_state AllocateAnyPages 2 4 (Some 0) =
     Some (Inr (EFI_SUCCESS, Some 0x103000,
        example_state\<lparr>kmem := tag_run example_mem 0x1000000 48 0 4 2\<rparr>))"
proof -
  have h: "(0::u64) mod SPAGES = 0" by simp
  show ?thesis
    using AllocatePages_any_pages [OF example_hyps(1,2) h example_hyps(3), of 4]
      example_first_fit_4 example_hyps(4)
    by (simp add: example_state_def map_start_def LowBorder_def desc_size_def
        run_len_def entry_def example_mem_def)
qed

subsection \<open>AllocateAddress and FreePages on a sorted map\<close>

lemma addr_scan_find:
  assumes s: "0 < s"
  shows "addr_scan m s (b + sz) a (b + k * s) =
    Some (case find (\<lambda>i. addr_stop (m (b + i * s)) a) [k..<entry_count s sz] of
            Some i \<Rightarrow> (if is_conventional (m (b + i * s)) \<and> PhysicalStart (m (b + i * s)) = a
                       then Found (b + i * s) (b + i * s) else Passed)
          | None \<Rightarrow> Exhausted)"
proof (induction "entry_count s sz - k" arbitrary: k rule: less_induct)
  case less
  show ?case
  proof (cases "k < entry_count s sz")
    case True
    then have lt: "b + k * s < b + sz" using s by (simp add: entry_count_iff)
    have "addr_scan m s (b + sz) a (b + Suc k * s) =
      Some (case find (\<lambda>i. addr_stop (m (b + i * s)) a) [Suc k..<entry_count s sz] of
            Some i \<Rightarrow> (if is_conventional (m (b + i * s)) \<and> PhysicalStart (m (b + i * s)) = a
                       then Found (b + i * s) (b + i * s) else Passed)
          | None \<Rightarrow> Exhausted)"
      using True by (intro less.hyps) simp
    with True lt show ?thesis
      unfolding addr_scan.simps [of m s "b + sz" a "b + k * s"] stride_Suc
      by (auto simp: upt_conv_Cons addr_stop_def)
  next
    case False
    with s have "\<not> b + k * s < b + sz" by (simp add: entry_count_iff)
    with False show ?thesis by (simp add: addr_scan.simps [of m s "b + sz" a "b + k * s"])
  qed
qed

lemma free_scan_find:
  assumes s: "0 < s"
  shows "free_scan m s (b + sz) a (b + k * s) =
    Some (case find (\<lambda>i. free_stop (m (b + i * s)) a) [k..<entry_count s sz] of
            Some i \<Rightarrow> (if PhysicalStart (m (b + i * s)) = a then Found (b + i * s) (b + i * s) else Passed)
          | None \<Rightarrow> Exhausted)"
proof (induction "entry_count s sz - k" arbitrary: k rule: less_induct)
  case less
  show ?case
  proof (cases "k < entry_count s sz")
    case True
    then have lt: "b + k * s < b + sz" using s by (simp add: entry_count_iff)
    have "free_scan m s (b + sz) a (b + Suc k * s) =
      Some (case find (\<lambda>i. free_stop (m (b + i * s)) a) [Suc k..<entry_count s sz] of
            Some i \<Rightarrow> (if PhysicalStart (m (b + i * s)) = a then Found (b + i * s) (b + i * s) else Passed)
          | None \<Rightarrow> Exhausted)"
      using True by (intro less.hyps) simp
    with True lt show ?thesis
      unfolding free_scan.simps [of m s "b + sz" a "b + k * s"] stride_Suc
      by (auto simp: upt_conv_Cons free_stop_def)
  next
    case False
    with s have "\<not> b + k * s < b + sz" by (simp add: entry_count_iff)
    with False show ?thesis by (simp add: free_scan.simps [of m s "b + sz" a "b + k * s"])
  qed
qed

lemma find_upt_Some:
  "find P [0..<n] = Some i \<longleftrightarrow> i < n \<and> P i \<and> (\<forall>k<i. \<not> P k)"
  by (auto simp: find_Some_iff)

lemma find_upt_None: "find P [0..<n] = None \<longleftrightarrow> (\<forall>k<n. \<not> P k)"
  by (auto simp: find_None_iff)

lemma map_sorted_less:
  "map_sorted st \<Longrightarrow> i < map_entries st \<Longrightarrow> k < map_entries st \<Longrightarrow>
     PhysicalStart (entry st k) < PhysicalStart (entry st i) \<longleftrightarrow> k < i"
  unfolding map_sorted_def by (metis linorder_neqE_nat not_less_iff_gr_or_eq order_less_asym)

lemma entry_index_SomeD:
  "entry_index st a = Some j \<Longrightarrow> j < map_entries st \<and> PhysicalStart (entry st j) = a"
  by (simp add: entry_index_def find_upt_Some)

lemma entry_index_sorted:
  assumes "map_sorted st" "j < map_entries st" "PhysicalStart (entry st j) = a"
  shows "entry_index st a = Some j"
proof -
  have "PhysicalStart (entry st k) \<noteq> a" if "k < j" for k
  proof -
    have "k < map_entries st" using that assms(2) by simp
    with that have "PhysicalStart (entry st k) < PhysicalStart (entry st j)"
      using map_sorted_less [OF assms(1,2)] by simp
    with assms(3) show ?thesis by simp
  qed
  with assms(2,3) show ?thesis by (simp add: entry_index_def find_upt_Some)
qed

lemma tag_run_fields [simp]:
  "PhysicalStart (tag_run m b s j len t q) = PhysicalStart (m q)"
  "Type (tag_run m b s j len t q) = (if \<exists>i<len. q = b + (j + i) * s then t else Type (m q))"
  by (auto simp: tag_run_def)

lemma tag_run_tag_run: "tag_run (tag_run m b s j len t) b s j len t' = tag_run m b s j len t'"
proof
  fix q
  show "tag_run (tag_run m b s j len t) b s j len t' q = tag_run m b s j len t' q"
    by (cases "\<exists>i<len. q = b + (j + i) * s") (auto simp: tag_run_def)
qed

lemma tag_run_free_run:
  "free_run m b s j len \<Longrightarrow> tag_run m b s j len 7 = m"
  by (rule ext) (auto simp: tag_run_def free_run_def is_conventional_def)

lemma map_sorted_kmem_cong:
  "(\<And>q. PhysicalStart (m q) = PhysicalStart (kmem st q)) \<Longrightarrow> map_sorted (st\<lparr>kmem := m\<rparr>) = map_sorted st"
  by (simp add: map_sorted_def entry_def map_entries_def map_start_def desc_size_def)

lemma entry_index_kmem_cong:
  "(\<And>q. PhysicalStart (m q) = PhysicalStart (kmem st q)) \<Longrightarrow> entry_index (st\<lparr>kmem := m\<rparr>) a = entry_index st a"
  by (simp add: entry_index_def entry_def map_entries_def map_start_def desc_size_def)

lemma find_addr_stop_entry_index:
  assumes "map_sorted st" "entry_index st a = Some j" "is_conventional (entry st j)"
  shows "find (\<lambda>i. addr_stop (entry st i) a) [0..<map_entries st] = Some j"
proof -
  from assms(2) have j: "j < map_entries st" "PhysicalStart (entry st j) = a"
    by (simp_all add: entry_index_SomeD)
  have "PhysicalStart (entry st k) < a" if "k < j" for k
    using that j map_sorted_less [OF assms(1) j(1), of k] by simp
  then have "\<forall>k<j. \<not> addr_stop (entry st k) a"
    unfolding addr_stop_def by (meson less_asym less_imp_neq)
  with j assms(3) show ?thesis
    by (simp add: find_upt_Some addr_stop_def)
qed

lemma allocate_address_sorted:
  assumes s: "0 < desc_size st" and sorted: "map_sorted st" and le: "\<not> AVAIBLE_MEMORY st < a"
  shows "allocate_address st t pages (Some a) = Some (Inr (
     case entry_index st a of
       Some j \<Rightarrow>
         if is_conventional (entry st j) \<and> free_run (kmem st) (map_start st) (desc_size st) j (unat pages)
         then (EFI_SUCCESS, Some a,
               st\<lparr>kmem := tag_run (kmem st) (map_start st) (desc_size st) j (unat pages) t\<rparr>)
         else (EFI_OUT_OF_RESOURCES, Some a, st)
     | None \<Rightarrow> (EFI_OUT_OF_RESOURCES, Some a, st)))"
proof -
  let ?F = "find (\<lambda>i. addr_stop (entry st i) a) [0..<map_entries st]"
  have scan: "addr_scan (kmem st) (desc_size st) (map_end st) a (map_start st) =
    Some (case ?F of
            Some i \<Rightarrow> (if is_conventional (entry st i) \<and> PhysicalStart (entry st i) = a
                       then Found (map_start st + i * desc_size st) (map_start st + i * desc_size st)
                       else Passed)
          | None \<Rightarrow> Exhausted)"
    using addr_scan_find [OF s, of "kmem st" "map_start st" "unat (MEMORY_MAP_SIZE st)" a 0]
    unfolding map_end_def entry_def map_entries_def by simp
  show ?thesis
  proof (cases "\<exists>j. entry_index st a = Some j \<and> is_conventional (entry st j)")
    case True
    then obtain j where j: "entry_index st a = Some j" "is_conventional (entry st j)" by blast
    then have "?F = Some j" using sorted by (intro find_addr_stop_entry_index)
    with j scan le show ?thesis
      by (simp add: allocate_address_def entry_index_SomeD pages_free_free_run retag_tag_run)
  next
    case False
    have "case ?F of Some i \<Rightarrow> \<not> (is_conventional (entry st i) \<and> PhysicalStart (entry st i) = a)
                   | None \<Rightarrow> True"
    proof (cases ?F)
      case (Some i)
      then have "i < map_entries st" by (simp add: find_upt_Some)
      then show ?thesis using Some False entry_index_sorted [OF sorted] by auto
    qed simp
    with False scan le show ?thesis
      by (auto simp: allocate_address_def split: option.splits if_splits)
  qed
qed

lemma FreePages_sorted:
  assumes s: "0 < desc_size st" and sorted: "map_sorted st"
    and al: "a mod SPAGES = 0" and le: "\<not> AVAIBLE_MEMORY st < a"
  shows "FreePages st (Some a) pages = Some (Inr (
     case entry_index st a of
       Some j \<Rightarrow> (EFI_SUCCESS,
         st\<lparr>kmem := tag_run (kmem st) (map_start st) (desc_size st) j (unat pages)
                       (memory_type_code EfiConventionalMemory)\<rparr>)
     | None \<Rightarrow> (if \<exists>k<map_entries st. a < PhysicalStart (entry st k)
                then EFI_NOT_FOUND else EFI_SUCCESS, st)))"
proof -
  let ?F = "find (\<lambda>i. free_stop (entry st i) a) [0..<map_entries st]"
  have scan: "free_scan (kmem st) (desc_size st) (map_end st) a (map_start st) =
    Some (case ?F of
            Some i \<Rightarrow> (if PhysicalStart (entry st i) = a
                       then Found (map_start st + i * desc_size st) (map_start st + i * desc_size st)
                       else Passed)
          | None \<Rightarrow> Exhausted)"
    using free_scan_find [OF s, of "kmem st" "map_start st" "unat (MEMORY_MAP_SIZE st)" a 0]
    unfolding map_end_def entry_def map_entries_def by simp
  show ?thesis
  proof (cases "entry_index st a")
    case (Some j)
    then have j: "j < map_entries st" "PhysicalStart (entry st j) = a"
      by (simp_all add: entry_index_SomeD)
    have "PhysicalStart (entry st k) < a" if "k < j" for k
      using that j map_sorted_less [OF sorted j(1), of k] by simp
    then have "\<forall>k<j. \<not> free_stop (entry st k) a"
      unfolding free_stop_def by (meson leD)
    with j have "?F = Some j" by (simp add: find_upt_Some free_stop_def)
    with Some j scan al le show ?thesis
      by (simp add: FreePages_def retag_tag_run)
  next
    case None
    then have ne: "\<forall>k<map_entries st. PhysicalStart (entry st k) \<noteq> a"
      by (simp add: entry_index_def find_upt_None)
    show ?thesis
    proof (cases ?F)
      case None': None
      then have "\<not> (\<exists>k<map_entries st. a < PhysicalStart (entry st k))"
        by (auto simp: find_upt_None free_stop_def)
      with None None' scan al le show ?thesis by (simp add: FreePages_def)
    next
      case (Some i)
      then have "i < map_entries st" "a \<le> PhysicalStart (entry st i)"
        by (simp_all add: find_upt_Some free_stop_def)
      with ne have "a < PhysicalStart (entry st i)" "PhysicalStart (entry st i) \<noteq> a"
        by auto
      with \<open>i < map_entries st\<close> None Some scan al le show ?thesis
        by (auto simp: FreePages_def)
    qed
  qed
qed

lemma AllocatePages_address_SUCCESS:
  assumes "0 < desc_size st" "map_sorted st"
    and "AllocatePages st AllocateAddress t pages (Some a) = Some (Inr (EFI_SUCCESS, r, st'))"
  shows "a mod SPAGES = 0 \<and> \<not> AVAIBLE_MEMORY st < a \<and>
    (\<exists>j. entry_index st a = Some j \<and> free_run (kmem st) (map_start st) (desc_size st) j (unat pages) \<and>
      st' = st\<lparr>kmem := tag_run (kmem st) (map_start st) (desc_size st) j (unat pages) t\<rparr>)"
proof -
  have guards: "a mod SPAGES = 0" "\<not> AVAIBLE_MEMORY st < a"
    using assms(3) by (auto simp: AllocatePages_def allocate_address_def split: if_splits)
  with assms show ?thesis
    by (auto simp: AllocatePages_def allocate_address_sorted split: if_splits option.splits)
qed

lemma alloc_free_restores:
  assumes "0 < desc_size st" "map_sorted st"
    and "AllocatePages st AllocateAddress t pages (Some a) = Some (Inr (EFI_SUCCESS, r, st'))"
  shows "FreePages st' (Some a) pages = Some (Inr (EFI_SUCCESS, st))"
proof -
  obtain j where al: "a mod SPAGES = 0" and le: "\<not> AVAIBLE_MEMORY st < a"
    and j: "entry_index st a = Some j"
    and free: "free_run (kmem st) (map_start st) (desc_size st) j (unat pages)"
    and st': "st' = st\<lparr>kmem := tag_run (kmem st) (map_start st) (desc_size st) j (unat pages) t\<rparr>"
    using AllocatePages_address_SUCCESS [OF assms] by auto
  have ps: "\<And>q. PhysicalStart (kmem st' q) = PhysicalStart (kmem st q)" by (simp add: st')
  have "0 < desc_size st'" "map_sorted st'" "entry_index st' a = Some j"
    using assms(1,2) j map_sorted_kmem_cong [OF ps] entry_index_kmem_cong [OF ps]
    by (simp_all add: st' desc_size_def)
  moreover have "\<not> AVAIBLE_MEMORY st' < a" using le by (simp add: st')
  ultimately show ?thesis
    using FreePages_sorted [of st' a pages] al free
    by (simp add: st' map_start_def desc_size_def tag_run_tag_run tag_run_free_run)
qed

text \<open>
  C2.  Allocating at an address and freeing it round-trip: on a map with
  strictly increasing page addresses and a non-zero stride, when
  \<open>AllocatePages(AllocateAddress, t, pages, &a)\<close> succeeds, \<open>FreePages(&a, pages)\<close>
  succeeds on the resulting state and returns exactly the state before the
  allocation.
\<close>

theorem alloc_address_free_roundtrip:
  assumes "0 < desc_size st" "map_sorted st"
    and "AllocatePages st AllocateAddress t pages (Some a) = Some (Inr (EFI_SUCCESS, r, st'))"
  shows "FreePages st' (Some a) pages = Some (Inr (EFI_SUCCESS, st))"
  using assms by (rule alloc_free_restores)

lemma example_entry:
  "entry example_state i =
     \<lparr>Type = (if i < 256 then 7 else 0), PhysicalStart = 0x100000 + of_nat i * 4096,
      VirtualStart = 0, NumberOfPages = 1, Attribute = 0\<rparr>"
  by (simp add: entry_def example_state_def map_start_def LowBorder_def desc_size_def example_mem_def)

lemma example_unat_ps:
  assumes "i < 272"
  shows "unat (PhysicalStart (entry example_state i)) = 0x100000 + i * 4096"
proof -
  have eq: "(0x100000 + of_nat i * 4096 :: u64) = of_nat (0x100000 + i * 4096)" by simp
  have "0x100000 + i * 4096 < (2::nat) ^ 64" using assms by simp
  then have "unat (of_nat (0x100000 + i * 4096) :: u64) = 0x100000 + i * 4096"
    by (subst unat_of_nat) simp
  then show ?thesis by (simp only: example_entry eq EFI_MEMORY_DESCRIPTOR.select_convs)
qed

lemma example_sorted: "map_sorted example_state"
  unfolding map_sorted_def
proof (intro allI impI)
  fix i j
  assume "i < j" "j < map_entries example_state"
  then have "i < 272" "j < 272" "i < j" using example_hyps(4) by simp_all
  then show "PhysicalStart (entry example_state i) < PhysicalStart (entry example_state j)"
    by (simp add: word_less_nat_alt example_unat_ps)
qed

lemma example_alloc_address:
  "AllocatePages example_state AllocateAddress 2 4 (Some 0x100000) =
     Some (Inr (EFI_SUCCESS, Some 0x100000, example_state\<lparr>kmem := tag_run example_mem 0x1000000 48 0 4 2\<rparr>))"
proof -
  have idx: "entry_index example_state 0x100000 = Some 0"
    using example_sorted by (rule entry_index_sorted) (simp_all add: example_hyps(4) example_entry)
  have free: "free_run example_mem 0x1000000 48 0 4"
    by (simp add: free_run_def example_mem_def is_conventional_def)
  show ?thesis
    using allocate_address_sorted [OF example_hyps(1) example_sorted, where a = "0x100000" and t = 2 and pages = 4] idx free
    by (simp add: AllocatePages_def alloc_type_ok_def example_entry)
       (simp add: example_state_def map_start_def LowBorder_def desc_size_def is_conventional_def)
qed

theorem alloc_address_free_roundtrip_witness:
  "0 < desc_size example_state \<and> map_sorted example_state \<and>
   AllocatePages example_state AllocateAddress 2 4 (Some 0x100000) =
     Some (Inr (EFI_SUCCESS, Some 0x100000, example_state\<lparr>kmem := tag_run example_mem 0x1000000 48 0 4 2\<rparr>)) \<and>
   FreePages (example_state\<lparr>kmem := tag_run example_mem 0x1000000 48 0 4 2\<rparr>) (Some 0x100000) 4 =
     Some (Inr (EFI_SUCCESS, example_state))"
  using alloc_address_free_roundtrip [OF example_hyps(1) example_sorted example_alloc_address] example_alloc_address
    example_hyps(1) example_sorted by simp

subsection \<open>AllocateMaxAddress\<close>

lemma max_scan_first_fit:
  assumes s: "0 < s" and b: "0 < b" and p: "pages \<noteq> 0" and len: "len = unat pages"
    and "c < len" "c \<le> k"
    and "\<forall>i<c. is_conventional (m (b + (k - c + i) * s))"
    and "if c = 0 then save = 0 else save = b + (k - c) * s \<and> num = of_nat (len - c)"
  shows "max_scan m s (b + sz) pages maxa (b + k * s) save num =
          Some (let n' = (case find (\<lambda>i. maxa < PhysicalStart (m (b + i * s))) [k..<entry_count s sz] of
                            Some i \<Rightarrow> i | None \<Rightarrow> entry_count s sz) in
                case first_fit m b s n' len (k - c) of
                  Some j \<Rightarrow> Found (b + j * s) (b + (j + len - 1) * s)
                | None \<Rightarrow> if n' < entry_count s sz then Passed else Exhausted)"
  using assms(5-)
proof (induction "entry_count s sz - k" arbitrary: k c save num rule: less_induct)
  case less
  let ?n = "entry_count s sz"
  let ?P = "\<lambda>i. maxa < PhysicalStart (m (b + i * s))"
  let ?bnd = "\<lambda>k. case find ?P [k..<?n] of Some i \<Rightarrow> i | None \<Rightarrow> ?n"
  have lenr: "len = run_len pages" using len p by (simp add: run_len_unat)
  have unfold: "max_scan m s (b + sz) pages maxa (b + k * s) save num =
     (if b + k * s < b + sz then
        (if maxa < PhysicalStart (m (b + k * s)) then Some Passed
         else
           (case (if is_conventional (m (b + k * s)) then run_step save num (b + k * s) pages else (0, pages))
            of (save', num') \<Rightarrow>
              if num' = 0 then Some (Found save' (b + k * s))
              else max_scan m s (b + sz) pages maxa (b + Suc k * s) save' num'))
      else Some Exhausted)"
    unfolding stride_Suc [symmetric] by (rule max_scan.simps)
  show ?case
  proof (cases "k < ?n")
    case False
    with s have "\<not> b + k * s < b + sz" by (simp add: entry_count_iff)
    moreover have "?bnd k = ?n" using False by simp
    moreover have "first_fit m b s ?n len (k - c) = None"
      using False less.prems(1,2) by (intro first_fit_past) simp
    ultimately show ?thesis by (simp add: unfold)
  next
    case True
    with s have lt: "b + k * s < b + sz" by (simp add: entry_count_iff)
    show ?thesis
    proof (cases "?P k")
      case above: True
      then have "?bnd k = k" using True by (simp add: upt_conv_Cons)
      moreover have "first_fit m b s k len (k - c) = None"
        using less.prems(1,2) by (intro first_fit_past) simp
      ultimately show ?thesis using lt above True by (simp add: unfold)
    next
      case below: False
      then have bnd: "?bnd k = ?bnd (Suc k)" using True by (simp add: upt_conv_Cons)
      have bnd_ge: "Suc k \<le> ?bnd (Suc k)"
        using True by (auto simp: find_Some_iff split: option.split)
      show ?thesis
      proof (cases "is_conventional (m (b + k * s))")
        case conv: True
        have rs: "run_step save num (b + k * s) pages = (b + (k - c) * s, of_nat (len - Suc c))"
          using b less.prems(1) lenr less.prems(4) by (rule run_step_count)
        have len_le: "len \<le> 2 ^ 32" using lenr run_len_bounds(2) by simp
        show ?thesis
        proof (cases "Suc c = len")
          case full: True
          have "free_run m b s (k - c) len"
            using full less.prems(2,3) conv by (rule run_full)
          moreover have "k - c + len \<le> ?bnd (Suc k)" using bnd_ge full less.prems(2) by simp
          ultimately have "first_fit m b s (?bnd (Suc k)) len (k - c) = Some (k - c)"
            by (rule first_fit_hit [rotated])
          moreover have "k - c + len - 1 = k" using full less.prems(2) by simp
          ultimately show ?thesis using lt below conv rs full bnd by (simp add: unfold Let_def)
        next
          case part: False
          with less.prems(1) have more: "Suc c < len" by simp
          have nz: "(of_nat (len - Suc c) :: u32) \<noteq> 0" using more len_le by (rule counter_nonzero)
          have "max_scan m s (b + sz) pages maxa (b + Suc k * s) (b + (k - c) * s) (of_nat (len - Suc c)) =
            Some (let n' = ?bnd (Suc k) in
                  case first_fit m b s n' len (Suc k - Suc c) of
                    Some j \<Rightarrow> Found (b + j * s) (b + (j + len - 1) * s)
                  | None \<Rightarrow> if n' < ?n then Passed else Exhausted)"
          proof (rule less.hyps)
            show "?n - Suc k < ?n - k" using True by simp
            show "Suc c < len" by (rule more)
            show "Suc c \<le> Suc k" using less.prems(2) by simp
            show "\<forall>i<Suc c. is_conventional (m (b + (Suc k - Suc c + i) * s))"
              using less.prems(2,3) conv by (rule run_extend)
            show "if Suc c = 0 then b + (k - c) * s = 0
                  else b + (k - c) * s = b + (Suc k - Suc c) * s \<and>
                    (of_nat (len - Suc c) :: u32) = of_nat (len - Suc c)" by simp
          qed
          with nz show ?thesis using lt below conv rs bnd by (simp add: unfold Let_def)
        qed
      next
        case nconv: False
        have skip: "first_fit m b s (?bnd (Suc k)) len (k - c) = first_fit m b s (?bnd (Suc k)) len (Suc k)"
          using nconv less.prems(1,2) by (rule first_fit_skip_nonfree)
        have "max_scan m s (b + sz) pages maxa (b + Suc k * s) 0 pages =
            Some (let n' = ?bnd (Suc k) in
                  case first_fit m b s n' len (Suc k - 0) of
                    Some j \<Rightarrow> Found (b + j * s) (b + (j + len - 1) * s)
                  | None \<Rightarrow> if n' < ?n then Passed else Exhausted)"
          using True less.prems(1) by (intro less.hyps) auto
        with lt below nconv skip bnd p show ?thesis by (simp add: unfold Let_def)
      qed
    qed
  qed
qed

lemma allocate_max_address_first_fit:
  assumes "0 < desc_size st" "0 < map_start st" "pages \<noteq> 0"
  shows "allocate_max_address st t pages (Some a) =
    Some (Inr (case first_fit (kmem st) (map_start st) (desc_size st) (first_above st a) (unat pages) 0 of
        None \<Rightarrow> (EFI_OUT_OF_RESOURCES, Some a, st)
      | Some j \<Rightarrow> (EFI_SUCCESS, Some (PhysicalStart (entry st (j + unat pages - 1))),
          st\<lparr>kmem := tag_run (kmem st) (map_start st) (desc_size st) j (unat pages) t\<rparr>)))"
proof -
  have "max_scan (kmem st) (desc_size st) (map_start st + unat (MEMORY_MAP_SIZE st)) pages a
          (map_start st + 0 * desc_size st) 0 pages =
        Some (let n' = first_above st a in
              case first_fit (kmem st) (map_start st) (desc_size st) n' (unat pages) (0 - 0) of
                Some j \<Rightarrow> Found (map_start st + j * desc_size st)
                               (map_start st + (j + unat pages - 1) * desc_size st)
              | None \<Rightarrow> if n' < map_entries st then Passed else Exhausted)"
    unfolding first_above_def map_entries_def entry_def using assms
    by (intro max_scan_first_fit) (simp_all add: unat_gt_0)
  then show ?thesis
    by (auto simp: allocate_max_address_def map_end_def entry_def retag_tag_run Let_def
        split: option.splits)
qed

text \<open>
  C3.  \<open>AllocateMaxAddress\<close> implements first fit below the bound: for
  \<open>pages > 0\<close> it allocates the first run of \<open>pages\<close> free entries that lies
  before the first entry whose address exceeds \<open>*mem\<close>, reports the address of
  the run's last page, and fails with the map unchanged when there is none.
\<close>

theorem AllocatePages_max_address:
  assumes "0 < desc_size st" "0 < map_start st" "pages \<noteq> 0" "a mod SPAGES = 0" "alloc_type_ok t"
  shows "AllocatePages st AllocateMaxAddress t pages (Some a) =
    Some (Inr (case first_fit (kmem st) (map_start st) (desc_size st) (first_above st a) (unat pages) 0 of
        None \<Rightarrow> (EFI_OUT_OF_RESOURCES, Some a, st)
      | Some j \<Rightarrow> (EFI_SUCCESS, Some (PhysicalStart (entry st (j + unat pages - 1))),
          st\<lparr>kmem := tag_run (kmem st) (map_start st) (desc_size st) j (unat pages) t\<rparr>)))"
  using assms
  by (auto simp: AllocatePages_def alloc_type_ok_def allocate_max_address_first_fit)

lemma example_first_above: "first_above example_state 0x103000 = 4"
proof -
  have "\<forall>k<4. \<not> (0x103000::u64) < PhysicalStart (entry example_state k)"
    by (auto simp: word_less_nat_alt example_unat_ps)
  moreover have "(0x103000::u64) < PhysicalStart (entry example_state 4)"
    by (simp add: word_less_nat_alt example_unat_ps)
  ultimately have "find (\<lambda>k. (0x103000::u64) < PhysicalStart (entry example_state k))
      [0..<map_entries example_state] = Some 4"
    by (simp add: find_upt_Some example_hyps(4))
  then show ?thesis by (simp add: first_above_def)
qed

theorem AllocatePages_max_address_witness:
  "AllocatePages example_state AllocateMaxAddress 2 4 (Some 0x103000) =
     Some (Inr (EFI_SUCCESS, Some 0x103000,
        example_state\<lparr>kmem := tag_run example_mem 0x1000000 48 0 4 2\<rparr>))"
proof -
  have h: "(4::u32) \<noteq> 0" "(0x103000::u64) mod SPAGES = 0" by simp_all
  have ff: "first_fit example_mem 0x1000000 48 4 4 0 = Some 0"
    by (rule first_fit_hit) (simp_all add: free_run_def example_mem_def is_conventional_def)
  have ps: "PhysicalStart (entry example_state 3) = 0x103000"
    by (simp add: example_entry)
  have st: "map_start example_state = 0x1000000" "desc_size example_state = 48"
    "kmem example_state = example_mem"
    by (simp_all add: example_state_def map_start_def LowBorder_def desc_size_def)
  show ?thesis
    using AllocatePages_max_address [OF example_hyps(1,2) h example_hyps(3)] ff example_first_above
    unfolding st by (simp add: ps)
qed

end
