(* ===== verification/MapImporter.thy ===== *)
theory MapImporter
  imports PageAllocator
begin

text \<open>
  The map importer \<open>init_memory_map\<close> of \<open>src/kern/uefi.c\<close> (lines 50--129).
  It reads the firmware map of \<open>LOADER_PARAMS\<close> (a buffer of
  \<open>Memory_Map_Size\<close> bytes with descriptor stride \<open>Memory_Map_Descriptor_Size\<close>),
  computes \<open>AVAIBLE_MEMORY\<close> from the last descriptor and \<open>MEMORY_MAP_SIZE\<close> from
  it, picks the first conventional region that is large enough as
  \<open>MEMORY_MAP_ADDR\<close>, and writes one descriptor per page at
  \<open>LowBorder\<close> with a running page address.  The two \<open>while\<close> loops over the
  firmware buffer are partial functions of the byte offset (a zero stride
  spins); the page loop is a recursion on the page count.  The code writes
  into the firmware descriptor and restores it afterwards (lines 113 and 124);
  the model keeps the firmware map unchanged and assumes it does not overlap the
  destination region (it is \<open>EfiLoaderData\<close> pool memory, the destination is a
  conventional region).
\<close>

section \<open>Definitions\<close>

text \<open>
  The search for the map's home (lines 80--90): the first conventional
  descriptor with more than \<open>need = MEMORY_MAP_SIZE / SPAGES\<close> pages; when there
  is none the loop ends and \<open>MEMORY_MAP_ADDR\<close> keeps its old value \<open>addr\<close>.
\<close>

partial_function (option) find_map_region ::
  "EFI_MEMORY_DESCRIPTOR typed_mem \<Rightarrow> nat \<Rightarrow> nat \<Rightarrow> u64 \<Rightarrow> u64 \<Rightarrow> nat \<Rightarrow> u64 option" where
  "find_map_region fw s e need addr off =
     (if off < e then
        (if is_conventional (fw off) \<and> need < NumberOfPages (fw off)
         then Some (PhysicalStart (fw off))
         else find_map_region fw s e need addr (off + s))
      else Some addr)"

text \<open>The running page address (lines 121--122): one page further, skipping the legacy hole.\<close>

definition next_addr :: "u64 \<Rightarrow> u64" where
  "next_addr a = (if a + SPAGES = 0xA0000 then 0x100000 else a + SPAGES)"

text \<open>
  The page loop (lines 115--123) for one firmware descriptor: \<open>n\<close> pages left,
  \<open>i\<close> the page index, \<open>d\<close> the descriptor as modified so far, \<open>p\<close> the write
  pointer \<open>memmap_offset\<close>, \<open>adr\<close> the address counter \<open>memadr_offset\<close>.
  \<open>i >= MEMORY_MAP_SIZE / SPAGES\<close> compares the \<open>int\<close> index with a
  \<open>uint64_t\<close>; the type set there stays set for the later pages.
\<close>

primrec expand_pages ::
  "nat \<Rightarrow> nat \<Rightarrow> u64 \<Rightarrow> nat \<Rightarrow> EFI_MEMORY_DESCRIPTOR \<Rightarrow> EFI_MEMORY_DESCRIPTOR typed_mem \<Rightarrow> nat \<Rightarrow> u64
   \<Rightarrow> EFI_MEMORY_DESCRIPTOR \<times> EFI_MEMORY_DESCRIPTOR typed_mem \<times> nat \<times> u64" where
  "expand_pages 0 i need s d m p adr = (d, m, p, adr)"
| "expand_pages (Suc n) i need s d m p adr =
     (let d1 = d\<lparr>PhysicalStart := adr\<rparr>;
          d2 = (if unat need \<le> i then d1\<lparr>Type := memory_type_code EfiConventionalMemory\<rparr> else d1)
      in expand_pages n (Suc i) need s d2 (m(p := d2)) (p + s) (next_addr adr))"

text \<open>
  The expansion loop (lines 109--126): every firmware descriptor gets
  \<open>NumberOfPages = 1\<close>, the type \<open>EfiMaxMemoryType\<close> when it starts at
  \<open>MEMORY_MAP_ADDR\<close>, and one copy per page.
\<close>

partial_function (option) expand_map ::
  "EFI_MEMORY_DESCRIPTOR typed_mem \<Rightarrow> nat \<Rightarrow> nat \<Rightarrow> u64 \<Rightarrow> u64 \<Rightarrow> nat
   \<Rightarrow> EFI_MEMORY_DESCRIPTOR typed_mem \<Rightarrow> nat \<Rightarrow> u64
   \<Rightarrow> (EFI_MEMORY_DESCRIPTOR typed_mem \<times> nat \<times> u64) option" where
  "expand_map fw s e need addr off m p adr =
     (if off < e then
        (let d0 = (fw off)\<lparr>NumberOfPages := 1\<rparr>;
             d1 = (if PhysicalStart d0 = addr then d0\<lparr>Type := memory_type_code EfiMaxMemoryType\<rparr> else d0)
         in case expand_pages (unat (NumberOfPages (fw off))) 0 need s d1 m p adr of
              (_, m', p', adr') \<Rightarrow> expand_map fw s e need addr (off + s) m' p' adr')
      else Some (m, p, adr))"

text \<open>
  \<open>init_memory_map\<close> (lines 50--129).  The last descriptor is read at byte
  offset \<open>Memory_Map_Size - Memory_Map_Descriptor_Size\<close>; \<open>AVAIBLE_MEMORY\<close> and
  \<open>MEMORY_MAP_SIZE\<close> are \<open>uint64_t\<close> computations, the stride promoted from
  \<open>UINTN\<close>.  The function always returns 0, so the model returns the new state;
  \<open>None\<close> is a call that never returns.
\<close>

definition init_memory_map :: "kstate \<Rightarrow> kstate option" where
  "init_memory_map st =
     (let lp = UEFI_LP st;
          s = unat (Memory_Map_Descriptor_Size lp);
          e = unat (Memory_Map_Size lp);
          last = Memory_Map lp (e - s);
          avail = PhysicalStart last + NumberOfPages last * SPAGES;
          msize = avail div SPAGES * ucast (Memory_Map_Descriptor_Size lp);
          need = msize div SPAGES
      in Option.bind (find_map_region (Memory_Map lp) s e need (MEMORY_MAP_ADDR st) 0)
           (\<lambda>addr. map_option
              (\<lambda>(m, _, _). st\<lparr>AVAIBLE_MEMORY := avail, MEMORY_MAP_SIZE := msize,
                             MEMORY_MAP_ADDR := addr, kmem := m\<rparr>)
              (expand_map (Memory_Map lp) s e need addr 0 (kmem st) (LowBorder addr) 0)))"

section \<open>Abstract description of the import\<close>

text \<open>
  What one page of a firmware descriptor becomes (lines 117--121): its address
  is the running counter, and its type is conventional once the page index has
  reached \<open>need\<close>.
\<close>

definition page_desc :: "u64 \<Rightarrow> EFI_MEMORY_DESCRIPTOR \<Rightarrow> nat \<Rightarrow> u64 \<Rightarrow> EFI_MEMORY_DESCRIPTOR" where
  "page_desc need d i a =
     (let d1 = d\<lparr>PhysicalStart := a\<rparr>
      in if unat need \<le> i then d1\<lparr>Type := memory_type_code EfiConventionalMemory\<rparr> else d1)"

text \<open>The firmware descriptor as rewritten before its pages are copied (lines 112--114).\<close>

definition map_desc :: "u64 \<Rightarrow> EFI_MEMORY_DESCRIPTOR \<Rightarrow> EFI_MEMORY_DESCRIPTOR" where
  "map_desc addr d =
     (let d0 = d\<lparr>NumberOfPages := 1\<rparr>
      in if PhysicalStart d0 = addr then d0\<lparr>Type := memory_type_code EfiMaxMemoryType\<rparr> else d0)"

text \<open>
  The pages the expansion writes, in order: for every firmware descriptor from
  index \<open>k\<close> on, one \<open>(descriptor, page index)\<close> pair per page.
\<close>

definition desc_pages ::
  "EFI_MEMORY_DESCRIPTOR typed_mem \<Rightarrow> nat \<Rightarrow> u64 \<Rightarrow> nat \<Rightarrow> nat \<Rightarrow> (EFI_MEMORY_DESCRIPTOR \<times> nat) list" where
  "desc_pages fw s addr k n =
     concat (map (\<lambda>k. map (\<lambda>i. (map_desc addr (fw (k * s)), i)) [0..<unat (NumberOfPages (fw (k * s)))])
                 [k..<n])"

text \<open>The region search as a \<open>find\<close> over the firmware entries.\<close>

definition import_region ::
  "EFI_MEMORY_DESCRIPTOR typed_mem \<Rightarrow> nat \<Rightarrow> nat \<Rightarrow> u64 \<Rightarrow> u64 \<Rightarrow> u64" where
  "import_region fw s e need addr =
     (case find (\<lambda>j. is_conventional (fw (j * s)) \<and> need < NumberOfPages (fw (j * s))) [0..<entry_count s e] of
        Some j \<Rightarrow> PhysicalStart (fw (j * s))
      | None \<Rightarrow> addr)"

text \<open>
  The rebuilt map as a function of memory: slot \<open>g\<close> at \<open>b + g * s\<close> holds
  the \<open>g\<close>-th page with address \<open>next_addr\<close> iterated \<open>g\<close> times from 0;
  memory off the slots is unchanged.
\<close>

definition imported_mem ::
  "(EFI_MEMORY_DESCRIPTOR \<times> nat) list \<Rightarrow> u64 \<Rightarrow> nat \<Rightarrow> nat
   \<Rightarrow> EFI_MEMORY_DESCRIPTOR typed_mem \<Rightarrow> EFI_MEMORY_DESCRIPTOR typed_mem" where
  "imported_mem P need s b m =
     (\<lambda>q. if b \<le> q \<and> (q - b) mod s = 0 \<and> (q - b) div s < length P
          then (case P ! ((q - b) div s) of (d, i) \<Rightarrow> page_desc need d i ((next_addr ^^ ((q - b) div s)) 0))
          else m q)"

text \<open>The state after the import, without loops.\<close>

definition import_spec :: "kstate \<Rightarrow> kstate" where
  "import_spec st =
     (let lp = UEFI_LP st;
          s = desc_size st;
          e = unat (Memory_Map_Size lp);
          fw = Memory_Map lp;
          last = fw (e - s);
          avail = PhysicalStart last + NumberOfPages last * SPAGES;
          msize = avail div SPAGES * ucast (Memory_Map_Descriptor_Size lp);
          need = msize div SPAGES;
          addr = import_region fw s e need (MEMORY_MAP_ADDR st)
      in st\<lparr>AVAIBLE_MEMORY := avail, MEMORY_MAP_SIZE := msize, MEMORY_MAP_ADDR := addr,
            kmem := imported_mem (desc_pages fw s addr 0 (entry_count s e)) need s (LowBorder addr) (kmem st)\<rparr>)"

section \<open>Example firmware map\<close>

text \<open>
  Three firmware descriptors with a 1024-byte stride: one reserved page at 0,
  three conventional pages at \<open>0x1000\<close>, two reserved pages at \<open>0x4000\<close>.
\<close>

definition fw_desc :: "u32 \<Rightarrow> u64 \<Rightarrow> u64 \<Rightarrow> EFI_MEMORY_DESCRIPTOR" where
  "fw_desc t a n = \<lparr>Type = t, PhysicalStart = a, VirtualStart = 0, NumberOfPages = n, Attribute = 0xF\<rparr>"

definition ex_fw :: "EFI_MEMORY_DESCRIPTOR typed_mem" where
  "ex_fw off = (if off < 1024 then fw_desc 0 0 1 else if off < 2048 then fw_desc 7 0x1000 3 else fw_desc 0 0x4000 2)"

definition ex_boot :: kstate where
  "ex_boot = \<lparr>UEFI_LP = \<lparr>Memory_Map_Descriptor_Version = 1, Memory_Map_Descriptor_Size = 1024,
     Memory_Map = ex_fw, Memory_Map_Size = 3072\<rparr>,
   AVAIBLE_MEMORY = 0, MEMORY_MAP_SIZE = 0, MEMORY_MAP_ADDR = 0, kmem = (\<lambda>_. fw_desc 0 0 0)\<rparr>"

declare find_map_region.simps [simp del] expand_map.simps [simp del]

section \<open>Lemmas\<close>


lemma page_desc_step:
  "i < k \<Longrightarrow> page_desc need (page_desc need d i a) k a' = page_desc need d k a'"
  by (cases "unat need \<le> i") (simp_all add: page_desc_def Let_def)

lemma expand_pages_pos:
  "expand_pages n i need s d m p adr = (d', m', p', adr') \<Longrightarrow> p' = p + n * s \<and> adr' = (next_addr ^^ n) adr"
proof (induction n arbitrary: i d m p adr)
  case 0
  then show ?case by simp
next
  case (Suc n)
  from Suc.prems have "expand_pages n (Suc i) need s (page_desc need d i adr) (m(p := page_desc need d i adr)) (p + s) (next_addr adr) = (d', m', p', adr')"
    by (simp add: page_desc_def Let_def)
  from Suc.IH [OF this] show ?case by (simp add: funpow_swap1)
qed

lemma expand_pages_mem:
  assumes "0 < s" "expand_pages n i need s d m p adr = (d', m', p', adr')"
  shows "(\<forall>j<n. m' (p + j * s) = page_desc need d (i + j) ((next_addr ^^ j) adr)) \<and>
         (\<forall>q. (\<forall>j<n. q \<noteq> p + j * s) \<longrightarrow> m' q = m q)"
  using assms(2)
proof (induction n arbitrary: i d m p adr)
  case 0
  then show ?case by simp
next
  case (Suc n)
  let ?d = "page_desc need d i adr"
  from Suc.prems have e: "expand_pages n (Suc i) need s ?d (m(p := ?d)) (p + s) (next_addr adr) = (d', m', p', adr')"
    by (simp add: page_desc_def Let_def)
  note IH = Suc.IH [OF e]
  have first: "m' (p + j * s) = page_desc need d (i + j) ((next_addr ^^ j) adr)" if "j < Suc n" for j
  proof (cases j)
    case 0
    have "\<forall>j<n. p \<noteq> p + s + j * s" using assms(1) by simp
    with IH show ?thesis using 0 by simp
  next
    case (Suc j')
    with that have "j' < n" by simp
    with IH have "m' (p + s + j' * s) = page_desc need ?d (Suc i + j') ((next_addr ^^ j') (next_addr adr))"
      by blast
    moreover have "page_desc need ?d (Suc i + j') a = page_desc need d (Suc i + j') a" for a
      by (rule page_desc_step) simp
    ultimately show ?thesis using Suc by (simp add: funpow_swap1 add.assoc)
  qed
  have frame: "m' q = m q" if "\<forall>j<Suc n. q \<noteq> p + j * s" for q
  proof -
    have "\<forall>j<n. q \<noteq> p + s + j * s"
    proof (intro allI impI)
      fix j assume "j < n"
      with that have "q \<noteq> p + Suc j * s" by blast
      then show "q \<noteq> p + s + j * s" by (simp add: add.assoc)
    qed
    with IH have "m' q = (m(p := ?d)) q" by blast
    moreover have "q \<noteq> p" using that by (metis add.right_neutral mult_0 zero_less_Suc)
    ultimately show ?thesis by simp
  qed
  from first frame show ?case by blast
qed

lemma desc_pages_Cons:
  "k < n \<Longrightarrow> desc_pages fw s addr k n =
     map (\<lambda>i. (map_desc addr (fw (k * s)), i)) [0..<unat (NumberOfPages (fw (k * s)))] @
     desc_pages fw s addr (Suc k) n"
  by (simp add: desc_pages_def upt_conv_Cons)

lemma desc_pages_Nil: "n \<le> k \<Longrightarrow> desc_pages fw s addr k n = []"
  by (simp add: desc_pages_def)

lemma expand_map_pages:
  assumes s: "0 < s"
  shows "\<exists>m'. expand_map fw s e need addr (k * s) m p adr =
      Some (m', p + length (desc_pages fw s addr k (entry_count s e)) * s,
            (next_addr ^^ length (desc_pages fw s addr k (entry_count s e))) adr) \<and>
    (\<forall>g<length (desc_pages fw s addr k (entry_count s e)).
       m' (p + g * s) = (case desc_pages fw s addr k (entry_count s e) ! g of
                           (d, i) \<Rightarrow> page_desc need d i ((next_addr ^^ g) adr))) \<and>
    (\<forall>q. (\<forall>g<length (desc_pages fw s addr k (entry_count s e)). q \<noteq> p + g * s) \<longrightarrow> m' q = m q)"
proof (induction "entry_count s e - k" arbitrary: k m p adr rule: less_induct)
  case less
  let ?N = "entry_count s e"
  let ?P = "desc_pages fw s addr k ?N"
  have unfold: "expand_map fw s e need addr (k * s) m p adr =
     (if k * s < e then
        (case expand_pages (unat (NumberOfPages (fw (k * s)))) 0 need s (map_desc addr (fw (k * s))) m p adr of
           (_, m', p', adr') \<Rightarrow> expand_map fw s e need addr (Suc k * s) m' p' adr')
      else Some (m, p, adr))"
    by (simp add: expand_map.simps [of fw s e need addr "k * s"] map_desc_def Let_def add.commute)
  show ?case
  proof (cases "k < ?N")
    case False
    with s have "\<not> k * s < e" by (simp add: entry_count_iff)
    with False show ?thesis by (simp add: unfold desc_pages_Nil)
  next
    case True
    with s have lt: "k * s < e" by (simp add: entry_count_iff)
    let ?n = "unat (NumberOfPages (fw (k * s)))"
    let ?md = "map_desc addr (fw (k * s))"
    obtain d1 m1 p1 adr1 where inner: "expand_pages ?n 0 need s ?md m p adr = (d1, m1, p1, adr1)"
      by (metis prod_cases4)
    have pos: "p1 = p + ?n * s" "adr1 = (next_addr ^^ ?n) adr"
      using expand_pages_pos [OF inner] by simp_all
    note mem = expand_pages_mem [OF s inner]
    let ?Q = "desc_pages fw s addr (Suc k) ?N"
    have dec: "?N - Suc k < ?N - k" using True by simp
    obtain m' where rec: "expand_map fw s e need addr (Suc k * s) m1 p1 adr1 =
        Some (m', p1 + length ?Q * s, (next_addr ^^ length ?Q) adr1)"
      and rec_mem: "\<forall>g<length ?Q. m' (p1 + g * s) = (case ?Q ! g of (d, i) \<Rightarrow> page_desc need d i ((next_addr ^^ g) adr1))"
      and rec_frame: "\<forall>q. (\<forall>g<length ?Q. q \<noteq> p1 + g * s) \<longrightarrow> m' q = m1 q"
      using less.hyps [OF dec, of m1 p1 adr1] by blast
    have P: "?P = map (\<lambda>i. (?md, i)) [0..<?n] @ ?Q" using True by (rule desc_pages_Cons)
    have len: "length ?P = ?n + length ?Q" by (simp add: P)
    have fp: "(next_addr ^^ length ?Q) adr1 = (next_addr ^^ length ?P) adr"
      using pos len by (simp add: funpow_add_apply add.commute)
    have res: "expand_map fw s e need addr (k * s) m p adr =
        Some (m', p + length ?P * s, (next_addr ^^ length ?P) adr)"
      using lt inner rec pos fp by (simp add: unfold len algebra_simps)
    have at: "m' (p + g * s) = (case ?P ! g of (d, i) \<Rightarrow> page_desc need d i ((next_addr ^^ g) adr))"
      if g: "g < length ?P" for g
    proof (cases "g < ?n")
      case True
      have "g * s < ?n * s" using True s by simp
      then have "\<forall>g'<length ?Q. p + g * s \<noteq> p1 + g' * s"
      proof (intro allI impI)
        fix g' have "p + g * s < p1 + g' * s" using \<open>g * s < ?n * s\<close> pos(1) by linarith
        then show "p + g * s \<noteq> p1 + g' * s" by simp
      qed
      then have "m' (p + g * s) = m1 (p + g * s)" using rec_frame by blast
      with True mem show ?thesis by (simp add: P nth_append)
    next
      case False
      then have g': "g - ?n < length ?Q" using g len by simp
      have "p + g * s = p1 + (g - ?n) * s" using False pos by (simp add: algebra_simps)
      moreover have "(next_addr ^^ (g - ?n)) adr1 = (next_addr ^^ g) adr"
        using False pos by (simp add: funpow_add_apply)
      ultimately show ?thesis using rec_mem g' False by (simp add: P nth_append)
    qed
    have frame: "m' q = m q" if "\<forall>g<length ?P. q \<noteq> p + g * s" for q
    proof -
      have "\<forall>g<length ?Q. q \<noteq> p1 + g * s"
      proof (intro allI impI)
        fix g assume "g < length ?Q"
        then have "q \<noteq> p + (?n + g) * s" using that len by simp
        then show "q \<noteq> p1 + g * s" using pos by (simp add: algebra_simps)
      qed
      with rec_frame have "m' q = m1 q" by blast
      moreover have "\<forall>j<?n. q \<noteq> p + j * s" using that len by auto
      ultimately show ?thesis using mem by simp
    qed
    from res at frame show ?thesis by blast
  qed
qed

lemma find_map_region_find:
  assumes s: "0 < s"
  shows "find_map_region fw s e need addr (k * s) =
    Some (case find (\<lambda>j. is_conventional (fw (j * s)) \<and> need < NumberOfPages (fw (j * s))) [k..<entry_count s e] of
            Some j \<Rightarrow> PhysicalStart (fw (j * s)) | None \<Rightarrow> addr)"
proof (induction "entry_count s e - k" arbitrary: k rule: less_induct)
  case less
  show ?case
  proof (cases "k < entry_count s e")
    case True
    with s have lt: "k * s < e" by (simp add: entry_count_iff)
    have "find_map_region fw s e need addr (Suc k * s) =
        Some (case find (\<lambda>j. is_conventional (fw (j * s)) \<and> need < NumberOfPages (fw (j * s))) [Suc k..<entry_count s e] of
                Some j \<Rightarrow> PhysicalStart (fw (j * s)) | None \<Rightarrow> addr)"
      using True by (intro less.hyps) auto
    then show ?thesis
      using lt True by (simp add: find_map_region.simps [of fw s e need addr "k * s"] upt_conv_Cons add.commute)
  next
    case False
    then have nil: "[k..<entry_count s e] = []" by simp
    have "\<not> k * s < e" using False s by (simp add: entry_count_iff)
    then show ?thesis unfolding nil by (simp add: find_map_region.simps)
  qed
qed

lemma imported_mem_eq:
  assumes s: "0 < s"
    and at: "\<forall>g<length P. m' (b + g * s) = (case P ! g of (d, i) \<Rightarrow> page_desc need d i ((next_addr ^^ g) 0))"
    and frame: "\<forall>q. (\<forall>g<length P. q \<noteq> b + g * s) \<longrightarrow> m' q = m q"
  shows "m' = imported_mem P need s b m"
proof
  fix q
  show "m' q = imported_mem P need s b m q"
  proof (cases "b \<le> q \<and> (q - b) mod s = 0 \<and> (q - b) div s < length P")
    case True
    define g where "g = (q - b) div s"
    have g: "g < length P" "q = b + g * s"
      using True by (simp_all add: g_def) (metis add_diff_inverse_nat div_mult_mod_eq add_0_right not_le)
    have "m' (b + g * s) = (case P ! g of (d, i) \<Rightarrow> page_desc need d i ((next_addr ^^ g) 0))"
      using at g(1) by blast
    then have "m' q = (case P ! g of (d, i) \<Rightarrow> page_desc need d i ((next_addr ^^ g) 0))"
      using g(2) by simp
    then show ?thesis using True by (simp add: imported_mem_def g_def)
  next
    case False
    have "\<forall>g<length P. q \<noteq> b + g * s" using False s by auto
    with frame have "m' q = m q" by blast
    moreover have "imported_mem P need s b m q = m q"
      by (simp only: imported_mem_def if_not_P [OF False])
    ultimately show ?thesis by simp
  qed
qed

lemma init_memory_map_eq:
  assumes s: "0 < desc_size st"
  shows "init_memory_map st = Some (import_spec st)"
proof -
  let ?lp = "UEFI_LP st"
  let ?s = "desc_size st"
  let ?e = "unat (Memory_Map_Size ?lp)"
  let ?fw = "Memory_Map ?lp"
  define avail where "avail = PhysicalStart (?fw (?e - ?s)) + NumberOfPages (?fw (?e - ?s)) * SPAGES"
  define msize where "msize = avail div SPAGES * ucast (Memory_Map_Descriptor_Size ?lp)"
  define need where "need = msize div SPAGES"
  define addr where "addr = import_region ?fw ?s ?e need (MEMORY_MAP_ADDR st)"
  have reg: "find_map_region ?fw ?s ?e need (MEMORY_MAP_ADDR st) 0 = Some addr"
    using find_map_region_find [OF s, of ?fw ?e need "MEMORY_MAP_ADDR st" 0]
    by (simp add: addr_def import_region_def)
  obtain m' where ex: "expand_map ?fw ?s ?e need addr 0 (kmem st) (LowBorder addr) 0 =
      Some (m', LowBorder addr + length (desc_pages ?fw ?s addr 0 (entry_count ?s ?e)) * ?s,
            (next_addr ^^ length (desc_pages ?fw ?s addr 0 (entry_count ?s ?e))) 0)"
    and at: "\<forall>g<length (desc_pages ?fw ?s addr 0 (entry_count ?s ?e)).
       m' (LowBorder addr + g * ?s) = (case desc_pages ?fw ?s addr 0 (entry_count ?s ?e) ! g of
                           (d, i) \<Rightarrow> page_desc need d i ((next_addr ^^ g) 0))"
    and frame: "\<forall>q. (\<forall>g<length (desc_pages ?fw ?s addr 0 (entry_count ?s ?e)). q \<noteq> LowBorder addr + g * ?s) \<longrightarrow> m' q = kmem st q"
    using expand_map_pages [OF s, of ?fw ?e need addr 0 "kmem st" "LowBorder addr" 0] by auto
  have m': "m' = imported_mem (desc_pages ?fw ?s addr 0 (entry_count ?s ?e)) need ?s (LowBorder addr) (kmem st)"
    by (rule imported_mem_eq [OF s at frame])
  show ?thesis
    using reg ex
    unfolding init_memory_map_def import_spec_def m'
    by (simp add: Let_def avail_def msize_def need_def addr_def desc_size_def)
qed

lemma expand_map_stride0:
  assumes "off < e"
  shows "expand_map fw 0 e need addr off m p adr = None"
proof -
  have "expand_map fw s e need addr off m p adr = Some y \<Longrightarrow> s = 0 \<longrightarrow> off < e \<longrightarrow> False"
    for s y
    by (erule expand_map.raw_induct [where P = "\<lambda>fw s e need addr off m p adr y. s = 0 \<longrightarrow> off < e \<longrightarrow> False", rotated])
       (auto simp: Let_def split: prod.splits if_splits; metis add_0_right gr0I)
  with assms show ?thesis by (cases "expand_map fw 0 e need addr off m p adr") auto
qed

lemma init_memory_map_stride0:
  assumes "desc_size st = 0" and "Memory_Map_Size (UEFI_LP st) \<noteq> 0"
  shows "init_memory_map st = None"
proof -
  have e: "0 < unat (Memory_Map_Size (UEFI_LP st))" using assms(2) by (simp add: unat_gt_0)
  show ?thesis
    using assms(1) expand_map_stride0 [OF e]
    by (simp add: init_memory_map_def Let_def desc_size_def split: option.split)
qed

lemma next_addr_iter:
  assumes "g < 2 ^ 40"
  shows "unat ((next_addr ^^ g) 0) = (if g < 160 then g * 4096 else (g + 96) * 4096)"
  using assms
proof (induction g)
  case 0
  then show ?case by simp
next
  case (Suc g)
  let ?a = "(next_addr ^^ g) 0"
  have v: "unat ?a = (if g < 160 then g * 4096 else (g + 96) * 4096)" using Suc by simp
  have big: "(g + 97) * 4096 < (2::nat) ^ 64" using Suc.prems by simp
  have sum: "unat (?a + 4096) = unat ?a + 4096"
    using v big by (subst unat_add_lem [THEN iffD1]) (auto split: if_splits)
  have hole: "?a + 4096 = 0xA0000 \<longleftrightarrow> g = 159"
  proof -
    have "?a + 4096 = 0xA0000 \<longleftrightarrow> unat (?a + 4096) = unat (0xA0000 :: u64)"
      by (rule word_unat_eq_iff)
    also have "\<dots> \<longleftrightarrow> g = 159" using sum v by (auto split: if_splits)
    finally show ?thesis .
  qed
  have step: "(next_addr ^^ Suc g) 0 = (if ?a + 4096 = 0xA0000 then 0x100000 else ?a + 4096)"
    by (simp only: funpow.simps comp_apply next_addr_def)
  show ?case
  proof (cases "g = 159")
    case True
    have "?a + 4096 = 0xA0000" using hole True by blast
    then have "(next_addr ^^ Suc g) 0 = 0x100000" by (simp add: step next_addr_def)
    then show ?thesis by (simp only:) (simp add: True)
  next
    case False
    then show ?thesis unfolding step using sum v hole by simp
  qed
qed


section \<open>Properties of the import\<close>

text \<open>
  C4.  For every firmware map with a nonzero descriptor stride,
  \<open>init_memory_map\<close> returns, and its result is the loop-free description
  \<open>import_spec\<close>: the available memory and map size computed from the last
  descriptor, the map placed at the first conventional region with more than
  \<open>need\<close> pages (or the old address when there is none), and one descriptor per
  firmware page written at \<open>LowBorder\<close> of that address.
\<close>

theorem init_memory_map_spec:
  assumes "0 < desc_size st"
  shows "init_memory_map st = Some (import_spec st)"
  by (rule init_memory_map_eq [OF assms])

theorem init_memory_map_spec_witness:
  "0 < desc_size ex_boot \<and> init_memory_map ex_boot = Some (import_spec ex_boot)"
proof -
  have s: "0 < desc_size ex_boot" by (simp add: desc_size_def ex_boot_def)
  show ?thesis using init_memory_map_spec [OF s] s by simp
qed

text \<open>
  C5.  A descriptor stride of 0 with a nonempty firmware map makes the
  expansion loop spin forever: \<open>init_memory_map\<close> does not return.
\<close>

theorem init_memory_map_diverges:
  assumes "desc_size st = 0" and "Memory_Map_Size (UEFI_LP st) \<noteq> 0"
  shows "init_memory_map st = None"
proof -
  have e: "0 < unat (Memory_Map_Size (UEFI_LP st))" using assms(2) by (simp add: unat_gt_0)
  show ?thesis
    using assms(1) expand_map_stride0 [OF e]
    by (simp add: init_memory_map_def Let_def desc_size_def split: option.split)
qed

theorem init_memory_map_diverges_witness:
  "desc_size (ex_boot\<lparr>UEFI_LP := (UEFI_LP ex_boot)\<lparr>Memory_Map_Descriptor_Size := 0\<rparr>\<rparr>) = 0 \<and>
   Memory_Map_Size (UEFI_LP (ex_boot\<lparr>UEFI_LP := (UEFI_LP ex_boot)\<lparr>Memory_Map_Descriptor_Size := 0\<rparr>\<rparr>)) \<noteq> 0 \<and>
   init_memory_map (ex_boot\<lparr>UEFI_LP := (UEFI_LP ex_boot)\<lparr>Memory_Map_Descriptor_Size := 0\<rparr>\<rparr>) = None"
proof -
  let ?st = "ex_boot\<lparr>UEFI_LP := (UEFI_LP ex_boot)\<lparr>Memory_Map_Descriptor_Size := 0\<rparr>\<rparr>"
  have a: "desc_size ?st = 0" "Memory_Map_Size (UEFI_LP ?st) \<noteq> 0"
    by (simp_all add: desc_size_def ex_boot_def)
  show ?thesis using init_memory_map_diverges [OF a] a by simp
qed

text \<open>
  The page addresses the importer writes: page \<open>g\<close> gets \<open>g * 4096\<close> below
  the legacy hole and \<open>(g + 96) * 4096\<close> from page 160 on, so no page address
  falls in \<open>[0xA0000, 0x100000)\<close> (for fewer than \<open>2^40\<close> pages, far beyond any
  64-bit map).
\<close>

theorem next_addr_pages:
  assumes "g < 2 ^ 40"
  shows "unat ((next_addr ^^ g) 0) = (if g < 160 then g * 4096 else (g + 96) * 4096)"
  by (rule next_addr_iter [OF assms])

theorem next_addr_pages_witness:
  "(200::nat) < 2 ^ 40 \<and> unat ((next_addr ^^ 200) 0) = 296 * 4096"
  using next_addr_pages [of 200] by simp


end
