(* ===== verification/MapReport.thy ===== *)
theory MapReport
  imports PageAllocator
begin

text \<open>
  The map report \<open>PrintMemoryMap\<close> of \<open>src/kern/uefi.c\<close> (lines 130--185): it
  walks the rebuilt map and prints one block per run of entries of equal type,
  with the run's first descriptor and its page total.  The printed blocks are
  the model's output, a list of \<open>map_line\<close> records; the text formatting of
  \<open>cprintf\<close> is not modelled.
\<close>

section \<open>Definitions\<close>

text \<open>One printed block (lines 159--164): the counter, the type with its name
  (\<open>None\<close> when \<open>memory_types[Type]\<close> reads past the table), and the fields.\<close>

record map_line =
  line_no :: u32
  line_type :: u32
  line_name :: "string option"
  line_start :: u64
  line_virt :: u64
  line_pages :: u64
  line_attr :: u64

definition report_line :: "u32 \<Rightarrow> EFI_MEMORY_DESCRIPTOR \<Rightarrow> u64 \<Rightarrow> map_line" where
  "report_line c d n =
     \<lparr>line_no = c, line_type = Type d, line_name = memory_type_name (Type d),
      line_start = PhysicalStart d, line_virt = VirtualStart d, line_pages = n,
      line_attr = Attribute d\<rparr>"

text \<open>
  The loop (lines 151--183): \<open>flag\<close> says whether a run is open, \<open>dt\<close> is the
  pointer \<open>desctmp\<close> to its first descriptor and \<open>num\<close> its page total.  The
  \<open>counter--; ... counter++;\<close> pair of lines 180--182 cancels out.
\<close>

partial_function (option) print_loop ::
  "EFI_MEMORY_DESCRIPTOR typed_mem \<Rightarrow> nat \<Rightarrow> nat \<Rightarrow> nat \<Rightarrow> bool \<Rightarrow> nat \<Rightarrow> u64 \<Rightarrow> u32
   \<Rightarrow> map_line list \<Rightarrow> map_line list option" where
  "print_loop m s e off flag dt num counter out =
     (if off < e then
        (if flag then
           (if Type (m off) \<noteq> Type (m dt)
            then print_loop m s e (off + s) True off (0 + NumberOfPages (m off)) (counter + 1)
                   (out @ [report_line counter (m dt) num])
            else print_loop m s e (off + s) True dt (num + NumberOfPages (m off)) counter out)
         else print_loop m s e (off + s) True off (0 + NumberOfPages (m off)) counter out)
      else Some out)"

definition PrintMemoryMap :: "kstate \<Rightarrow> map_line list option" where
  "PrintMemoryMap st = print_loop (kmem st) (desc_size st) (map_end st) (map_start st) False 0 0 0 []"

text \<open>
  Run-length encoding of a list of descriptors by type, from left to right:
  each run is its first descriptor with the sum of the page counts.
\<close>

fun runs_from :: "EFI_MEMORY_DESCRIPTOR \<times> u64 \<Rightarrow> EFI_MEMORY_DESCRIPTOR list \<Rightarrow> (EFI_MEMORY_DESCRIPTOR \<times> u64) list" where
  "runs_from r [] = [r]"
| "runs_from (d, n) (y # ys) =
     (if Type y \<noteq> Type d then (d, n) # runs_from (y, NumberOfPages y) ys
      else runs_from (d, n + NumberOfPages y) ys)"

definition runs :: "EFI_MEMORY_DESCRIPTOR list \<Rightarrow> (EFI_MEMORY_DESCRIPTOR \<times> u64) list" where
  "runs ds = (case ds of [] \<Rightarrow> [] | d # ds' \<Rightarrow> runs_from (d, NumberOfPages d) ds')"

primrec report_lines :: "u32 \<Rightarrow> (EFI_MEMORY_DESCRIPTOR \<times> u64) list \<Rightarrow> map_line list" where
  "report_lines c [] = []"
| "report_lines c (r # rs) = report_line c (fst r) (snd r) # report_lines (c + 1) rs"

definition map_entry_list :: "kstate \<Rightarrow> EFI_MEMORY_DESCRIPTOR list" where
  "map_entry_list st = map (entry st) [0..<map_entries st]"

text \<open>
  A rebuilt map of three entries at \<open>0x2000\<close> (stride 48): two conventional
  pages followed by one \<open>EfiLoaderData\<close> page.
\<close>

definition report_mem :: "EFI_MEMORY_DESCRIPTOR typed_mem" where
  "report_mem p =
     \<lparr>Type = (if p < 0x2060 then 7 else 2), PhysicalStart = of_nat ((p - 0x2000) div 48) * 4096,
      VirtualStart = 0, NumberOfPages = 1, Attribute = 0xF\<rparr>"

definition report_state :: kstate where
  "report_state =
     \<lparr>UEFI_LP = \<lparr>Memory_Map_Descriptor_Version = 1, Memory_Map_Descriptor_Size = 48,
        Memory_Map = (\<lambda>_. report_mem 0), Memory_Map_Size = 0\<rparr>,
      AVAIBLE_MEMORY = 0x3000, MEMORY_MAP_SIZE = 144, MEMORY_MAP_ADDR = 0x2000, kmem = report_mem\<rparr>"

declare print_loop.simps [simp del]

section \<open>Lemmas\<close>

lemma runs_from_nonempty [simp]: "runs_from r ys \<noteq> []"
  by (induction r ys rule: runs_from.induct) auto

lemma print_loop_runs:
  assumes s: "0 < s"
  shows "print_loop m s (b + sz) (b + k * s) True dt num counter out =
    Some (out @ report_lines counter (butlast (runs_from (m dt, num) (map (\<lambda>i. m (b + i * s)) [k..<entry_count s sz]))))"
proof (induction "entry_count s sz - k" arbitrary: k dt num counter out rule: less_induct)
  case less
  let ?N = "entry_count s sz"
  show ?case
  proof (cases "k < ?N")
    case False
    then have nil: "[k..<?N] = []" by simp
    have "\<not> b + k * s < b + sz" using False s by (simp add: entry_count_iff)
    then show ?thesis unfolding nil by (simp add: print_loop.simps)
  next
    case True
    have dec: "?N - Suc k < ?N - k" using True by simp
    have lt: "b + k * s < b + sz" using True s by (simp add: entry_count_iff)
    have xs: "map (\<lambda>i. m (b + i * s)) [k..<?N] = m (b + k * s) # map (\<lambda>i. m (b + i * s)) [Suc k..<?N]"
      using True by (simp add: upt_conv_Cons)
    have step: "print_loop m s (b + sz) (b + k * s) True dt num counter out =
        (if Type (m (b + k * s)) \<noteq> Type (m dt)
         then print_loop m s (b + sz) (b + Suc k * s) True (b + k * s) (NumberOfPages (m (b + k * s))) (counter + 1)
                (out @ [report_line counter (m dt) num])
         else print_loop m s (b + sz) (b + Suc k * s) True dt (num + NumberOfPages (m (b + k * s))) counter out)"
      unfolding stride_Suc [symmetric] using lt by (subst print_loop.simps) simp
    show ?thesis
      unfolding step xs using less.hyps [OF dec]
      by (simp add: butlast_append)
  qed
qed

lemma PrintMemoryMap_eq:
  assumes s: "0 < desc_size st"
  shows "PrintMemoryMap st = Some (report_lines 0 (butlast (runs (map_entry_list st))))"
proof -
  let ?b = "map_start st"
  let ?s = "desc_size st"
  let ?sz = "unat (MEMORY_MAP_SIZE st)"
  let ?m = "kmem st"
  have e: "map_end st = ?b + ?sz" by (simp add: map_end_def)
  show ?thesis
  proof (cases "map_entries st = 0")
    case True
    then have "\<not> ?b < ?b + ?sz" using entry_count_iff [OF s, of 0 ?sz] by (simp add: map_entries_def)
    then show ?thesis using True
      by (simp add: PrintMemoryMap_def e print_loop.simps map_entry_list_def runs_def)
  next
    case False
    then have lt: "?b < ?b + ?sz" using entry_count_iff [OF s, of 0 ?sz] by (simp add: map_entries_def)
    have first: "PrintMemoryMap st = print_loop ?m ?s (?b + ?sz) (?b + 1 * ?s) True ?b (NumberOfPages (?m ?b)) 0 []"
      unfolding PrintMemoryMap_def e using lt by (subst print_loop.simps) simp
    have l: "map_entry_list st = ?m ?b # map (\<lambda>i. ?m (?b + i * ?s)) [1..<map_entries st]"
      using False by (simp add: map_entry_list_def entry_def upt_conv_Cons map_upt_Suc del: upt_Suc)
    show ?thesis
      unfolding first l using print_loop_runs [OF s, of ?m ?b ?sz 1 ?b "NumberOfPages (?m ?b)" 0 "[]"]
      by (simp add: runs_def map_entries_def)
  qed
qed

text \<open>With a descriptor size of 0 the loop never moves and never returns.\<close>

lemma print_loop_stride0:
  assumes "off < e"
  shows "print_loop m 0 e off flag dt num c out = None"
proof -
  have "print_loop m s e off flag dt num c out = Some y \<Longrightarrow> s = 0 \<longrightarrow> off < e \<longrightarrow> False" for s y
    by (erule print_loop.raw_induct [where P = "\<lambda>m s e off flag dt num c out y. s = 0 \<longrightarrow> off < e \<longrightarrow> False", rotated])
       (auto split: if_splits; metis add_0_right gr0I)
  with assms show ?thesis by (cases "print_loop m 0 e off flag dt num c out") auto
qed

lemma PrintMemoryMap_stride0:
  assumes "desc_size st = 0" "MEMORY_MAP_SIZE st \<noteq> 0"
  shows "PrintMemoryMap st = None"
proof -
  have "map_start st < map_end st" using assms(2) by (simp add: map_end_def unat_gt_0)
  then show ?thesis using assms(1) by (simp add: PrintMemoryMap_def print_loop_stride0)
qed

section \<open>Properties of the report\<close>

text \<open>
  C8.  With a nonzero stride \<open>PrintMemoryMap\<close> returns and prints, numbered
  from 0, every run of equal-type entries of the rebuilt map with its first
  descriptor and page total, except the last run, which is never printed.
\<close>

theorem PrintMemoryMap_spec:
  assumes "0 < desc_size st"
  shows "PrintMemoryMap st = Some (report_lines 0 (butlast (runs (map_entry_list st))))"
  by (rule PrintMemoryMap_eq [OF assms])

theorem PrintMemoryMap_spec_witness:
  "0 < desc_size report_state \<and>
   PrintMemoryMap report_state = Some (report_lines 0 (butlast (runs (map_entry_list report_state))))"
proof -
  have s: "0 < desc_size report_state" by (simp add: desc_size_def report_state_def)
  show ?thesis using PrintMemoryMap_spec [OF s] s by simp
qed

text \<open>
  On a map of two conventional pages followed by one \<open>EfiLoaderData\<close>
  page, which has two runs, \<open>PrintMemoryMap\<close> prints only the conventional run:
  the loader-data page is missing from the report.
\<close>

theorem PrintMemoryMap_drops_last_run:
  "length (runs (map_entry_list report_state)) = 2 \<and>
   PrintMemoryMap report_state = Some [report_line 0 (report_mem 0x2000) 2]"
  by (simp add: PrintMemoryMap_def report_state_def map_end_def map_start_def desc_size_def LowBorder_def
      print_loop.simps report_mem_def runs_def map_entry_list_def map_entries_def entry_def entry_count_def
      upt_rec)

end
