(* ===== verification/Monitor.thy ===== *)
theory Monitor
  imports MapReport
begin

text \<open>
  The kernel monitor of \<open>src/kern/monitor.c\<close>: the command table, the
  command-line tokenizer and dispatcher \<open>runcmd\<close>, the commands, and the
  stack walk of \<open>mon_backtrace\<close>.  What a command prints is a list of console
  items: literal lines, the blocks of \<open>PrintMemoryMap\<close>, and the numbers of
  the backtrace and of \<open>mon_kerninfo\<close>; the layout of the \<open>cprintf\<close> formats
  is not modelled.
\<close>

section \<open>Definitions\<close>

text \<open>The commands of the table (lines 26--33), by their handler.\<close>

datatype mon_cmd = mon_help | mon_kerninfo | mon_firestarter | mon_backtrace | mon_lpinfo | mon_GMM

record Command =
  cmd_name :: string
  cmd_desc :: string
  cmd_func :: mon_cmd

definition commands :: "Command list" where
  "commands =
     [\<lparr>cmd_name = ''help'', cmd_desc = ''Display this list of commands'', cmd_func = mon_help\<rparr>,
      \<lparr>cmd_name = ''kerninfo'', cmd_desc = ''Display information about the kernel'', cmd_func = mon_kerninfo\<rparr>,
      \<lparr>cmd_name = ''firestarter'', cmd_desc = ''I am a fire starter, Twisted fire starter'', cmd_func = mon_firestarter\<rparr>,
      \<lparr>cmd_name = ''backtrace'', cmd_desc = ''Print backtrace'', cmd_func = mon_backtrace\<rparr>,
      \<lparr>cmd_name = ''lpinfo'', cmd_desc = ''print LOAD_PARAMETR info'', cmd_func = mon_lpinfo\<rparr>,
      \<lparr>cmd_name = ''PrintMemoryMap'', cmd_desc = ''print uefi memory map'', cmd_func = mon_GMM\<rparr>]"

text \<open>
  One stack frame as \<open>mon_backtrace\<close> prints it (lines 96--103): \<open>ebp\<close>, the
  return address \<open>eip = ebp[1]\<close>, the five argument words \<open>ebp[2..6]\<close>, and
  the debug information for \<open>eip\<close> (file, line, function name and start),
  which \<open>debuginfo_eip\<close> (kern/kdebug.c) supplies.
\<close>

record Eipdebuginfo =
  eip_file :: string
  eip_line :: int
  eip_fn_name :: string
  eip_fn_addr :: u32

record frame =
  fr_ebp :: u32
  fr_eip :: u32
  fr_args :: "u32 list"
  fr_info :: Eipdebuginfo
  fr_offset :: u32

datatype console =
    Line string
  | MapBlocks "map_line list"
  | Frame frame
  | KernSyms u32 u32 u32 u32 u32 u32
  | LpAddresses u32

text \<open>
  What the monitor reads: the kernel state (for \<open>PrintMemoryMap\<close>), the stack
  as 32-bit words at byte addresses with the register \<open>ebp\<close>, the debug
  information, the linker symbols of \<open>mon_kerninfo\<close>, and the
  \<open>LOADER_PARAMS\<close> structure found at each physical address (for \<open>LP_info\<close>).
  A command may change the kernel state, and the loop carries it on.
\<close>

record mon_env =
  kst :: kstate
  stack :: "u32 \<Rightarrow> u32"
  ebp :: u32
  debuginfo :: "u32 \<Rightarrow> Eipdebuginfo"
  sym_start :: u32
  sym_entry :: u32
  sym_etext :: u32
  sym_edata :: u32
  sym_end :: u32
  lp_mem :: "u32 \<Rightarrow> LOADER_PARAMS"

text \<open>The frame-pointer walk (lines 95--105); a cyclic chain never ends.\<close>

partial_function (option) backtrace_loop ::
  "(u32 \<Rightarrow> u32) \<Rightarrow> (u32 \<Rightarrow> Eipdebuginfo) \<Rightarrow> u32 \<Rightarrow> frame list option" where
  "backtrace_loop stk dbg bp =
     (if bp \<noteq> 0 then
        (let eip = stk (bp + 4);
             info = dbg eip;
             fr = \<lparr>fr_ebp = bp, fr_eip = eip, fr_args = map (\<lambda>k. stk (bp + 4 * k)) [2, 3, 4, 5, 6],
                   fr_info = info, fr_offset = eip - eip_fn_addr info\<rparr>
         in Option.bind (backtrace_loop stk dbg (stk bp)) (\<lambda>fs. Some (fr # fs)))
      else Some [])"

text \<open>
  \<open>mon_kerninfo\<close> (lines 69--87): \<open>ROUNDUP(end - entry, 1024) / 1024\<close>, computed
  in 32 bits.
\<close>

definition kern_footprint :: "u32 \<Rightarrow> u32 \<Rightarrow> u32" where
  "kern_footprint entry_sym end_sym =
     (let n = end_sym - entry_sym in (n + 1023) div 1024 * 1024 div 1024)"

text \<open>\<open>LP_pointer\<close> (src/kern/uefi.c, line 34): the address of the loader block when QEMU runs with 512 MB.\<close>

definition LP_pointer :: u32 where
  "LP_pointer = 0x1EB9EC90"

text \<open>
  \<open>LP_info\<close> (src/kern/uefi.c, lines 195--212): \<open>UEFI_LP = (void *)LP_pointer\<close>,
  then print the addresses of its fields.
\<close>

definition LP_info :: "(u32 \<Rightarrow> LOADER_PARAMS) \<Rightarrow> kstate \<Rightarrow> kstate \<times> console list" where
  "LP_info lpm st = (st\<lparr>UEFI_LP := lpm LP_pointer\<rparr>, [LpAddresses LP_pointer])"

text \<open>The six handlers (lines 38--108); each returns 0, \<open>mon_lpinfo\<close> with the kernel state changed.\<close>

fun run_command :: "mon_cmd \<Rightarrow> mon_env \<Rightarrow> (console list \<times> int \<times> mon_env) option" where
  "run_command mon_help env =
     Some (map (\<lambda>c. Line (cmd_name c @ '' - '' @ cmd_desc c)) commands, 0, env)"
| "run_command mon_GMM env = map_option (\<lambda>ls. ([MapBlocks ls], 0, env)) (PrintMemoryMap (kst env))"
| "run_command mon_lpinfo env =
     (case LP_info (lp_mem env) (kst env) of (st', out) \<Rightarrow> Some (out, 0, env\<lparr>kst := st'\<rparr>))"
| "run_command mon_firestarter env = Some ([Line ''I am a fire starter, Twisted fire starter''], 0, env)"
| "run_command mon_kerninfo env =
     Some ([Line ''Special kernel symbols:'',
            KernSyms (sym_start env) (sym_entry env) (sym_etext env) (sym_edata env) (sym_end env)
                     (kern_footprint (sym_entry env) (sym_end env))], 0, env)"
| "run_command mon_backtrace env =
     map_option (\<lambda>fs. (Line ''Stack backtrace:'' # map Frame fs, 0, env))
       (backtrace_loop (stack env) (debuginfo env) (ebp env))"

text \<open>\<open>WHITESPACE\<close> and \<open>MAXARGS\<close> (lines 114--115); \<open>strchr(WHITESPACE, c)\<close> for \<open>c \<noteq> 0\<close>.\<close>

definition WHITESPACE :: string where
  "WHITESPACE = [CHR 0x09, CHR 0x0D, CHR 0x0A, CHR 0x20]"

definition MAXARGS :: nat where
  "MAXARGS = 16"

definition is_ws :: "char \<Rightarrow> bool" where
  "is_ws c \<longleftrightarrow> c \<in> set WHITESPACE"

text \<open>
  The tokenizer loop of \<open>runcmd\<close> (lines 125--143) on the rest \<open>buf\<close> of the
  C string, with the arguments \<open>argv\<close> saved so far; \<open>None\<close> is the
  ``Too many arguments'' exit, taken when a 16th argument starts.
\<close>

function parse_args :: "string \<Rightarrow> string list \<Rightarrow> string list option" where
  "parse_args buf argv =
     (let buf1 = dropWhile is_ws buf
      in if buf1 = [] then Some argv
         else if length argv = MAXARGS - 1 then None
         else parse_args (dropWhile (\<lambda>c. \<not> is_ws c) buf1) (argv @ [takeWhile (\<lambda>c. \<not> is_ws c) buf1]))"
  by pat_completeness auto

termination parse_args
proof (relation "measure (\<lambda>(buf, argv). length buf)")
  fix buf :: string and argv :: "string list" and buf1
  assume b1: "buf1 = dropWhile is_ws buf" and ne: "buf1 \<noteq> []"
  obtain c cs where c: "buf1 = c # cs" using ne by (cases buf1) auto
  have "\<not> is_ws c" using b1 c by (metis hd_dropWhile list.sel(1) ne)
  then have "length (dropWhile (\<lambda>c. \<not> is_ws c) buf1) < length buf1"
    using c by (simp add: le_imp_less_Suc length_dropWhile_le)
  moreover have "length buf1 \<le> length buf" using b1 by (simp add: length_dropWhile_le)
  ultimately show "((dropWhile (\<lambda>c. \<not> is_ws c) buf1, argv @ [takeWhile (\<lambda>c. \<not> is_ws c) buf1]), buf, argv)
      \<in> measure (\<lambda>(buf, argv). length buf)" by simp
qed simp

text \<open>
  \<open>runcmd\<close> (lines 117--154): the C string ends at its first NUL; an empty line
  does nothing, a known name runs its handler, anything else prints
  ``Unknown command''.
\<close>

definition runcmd :: "mon_env \<Rightarrow> string \<Rightarrow> (console list \<times> int \<times> mon_env) option" where
  "runcmd env buf =
     (case parse_args (takeWhile (\<lambda>c. c \<noteq> CHR 0x00) buf) [] of
        None \<Rightarrow> Some ([Line ''Too many arguments (max 16)''], 0, env)
      | Some [] \<Rightarrow> Some ([], 0, env)
      | Some (a # args) \<Rightarrow>
          (case find (\<lambda>c. cmd_name c = a) commands of
             Some c \<Rightarrow> run_command (cmd_func c) env
           | None \<Rightarrow> Some ([Line (''Unknown command '' @ [CHR 0x27] @ a @ [CHR 0x27])], 0, env)))"

text \<open>
  \<open>monitor\<close> (lines 156--171) over a finite sequence of \<open>readline\<close> results
  (\<open>None\<close> for a \<open>NULL\<close> line): the output so far, and whether the loop
  has left through a negative return value.
\<close>

fun monitor_loop :: "mon_env \<Rightarrow> string option list \<Rightarrow> (console list \<times> bool) option" where
  "monitor_loop env [] = Some ([], False)"
| "monitor_loop env (None # ls) = monitor_loop env ls"
| "monitor_loop env (Some buf # ls) =
     (case runcmd env buf of
        None \<Rightarrow> None
      | Some (out, r, env') \<Rightarrow>
          if r < 0 then Some (out, True)
          else map_option (\<lambda>(out', ex). (out @ out', ex)) (monitor_loop env' ls))"

definition monitor :: "mon_env \<Rightarrow> string option list \<Rightarrow> (console list \<times> bool) option" where
  "monitor env ls =
     map_option (\<lambda>(out, ex). ([Line ''Welcome to the JOS kernel monitor!'',
                                Line ''Type 'help' for a list of commands.''] @ out, ex))
       (monitor_loop env ls)"

text \<open>A stack of two frames at \<open>0x1000\<close> and \<open>0x2000\<close>.\<close>

definition example_stack :: "u32 \<Rightarrow> u32" where
  "example_stack a = (if a = 0x1000 then 0x2000 else if a = 0x2000 then 0 else a)"

definition example_env :: mon_env where
  "example_env =
     \<lparr>kst = report_state, stack = example_stack, ebp = 0x1000,
      debuginfo = (\<lambda>_. \<lparr>eip_file = ''kern/init.c'', eip_line = 0, eip_fn_name = ''test_backtrace'', eip_fn_addr = 0\<rparr>),
      sym_start = 0x100000, sym_entry = 0xF0100000, sym_etext = 0xF0102000, sym_edata = 0xF0110000,
      sym_end = 0xF0110650, lp_mem = (\<lambda>_. UEFI_LP report_state)\<rparr>"

declare parse_args.simps [simp del] backtrace_loop.simps [simp del]

section \<open>Lemmas\<close>

lemma parse_args_words:
  assumes "\<forall>a\<in>set args. a \<noteq> [] \<and> (\<forall>c\<in>set a. \<not> is_ws c)" and "length argv < MAXARGS"
  shows "parse_args (concat (map (\<lambda>a. CHR 0x20 # a) args)) argv =
           (if length argv + length args < MAXARGS then Some (argv @ args) else None)"
  using assms
proof (induction args arbitrary: argv)
  case Nil
  then show ?case by (simp add: parse_args.simps MAXARGS_def)
next
  case (Cons a args)
  have sp: "is_ws (CHR 0x20)" by (simp add: is_ws_def WHITESPACE_def)
  have a: "a \<noteq> []" "\<forall>c\<in>set a. \<not> is_ws c" using Cons.prems by auto
  let ?rest = "concat (map (\<lambda>a. CHR 0x20 # a) args)"
  have d1: "dropWhile is_ws (CHR 0x20 # a @ ?rest) = a @ ?rest"
    using sp a by (cases a) auto
  have rest_ws: "?rest = [] \<or> is_ws (hd ?rest)" using sp by (cases args) auto
  have tw: "takeWhile (\<lambda>c. \<not> is_ws c) (a @ ?rest) = a"
    using a rest_ws by (auto simp: takeWhile_append2 takeWhile_eq_Nil_iff)
  have dw: "dropWhile (\<lambda>c. \<not> is_ws c) (a @ ?rest) = ?rest"
    using a rest_ws by (auto simp: dropWhile_append3 dropWhile_eq_self_iff)
  show ?case
    using Cons.IH [of "argv @ [a]"] Cons.prems d1 tw dw a(1)
    by (subst parse_args.simps) (auto simp: Let_def MAXARGS_def)
qed

lemma runcmd_ret:
  assumes "runcmd env buf = Some (out, r, env')"
  shows "r = 0"
proof -
  have "run_command c env = Some (out, r, env') \<Longrightarrow> r = 0" for c
    by (cases c) (auto simp: LP_info_def)
  with assms show ?thesis
    by (auto simp: runcmd_def split: option.splits list.splits)
qed

lemma backtrace_loop_chain:
  assumes "(stk ^^ n) bp = 0" and "\<forall>i<n. (stk ^^ i) bp \<noteq> 0"
  shows "\<exists>fs. backtrace_loop stk dbg bp = Some fs \<and> map fr_ebp fs = map (\<lambda>i. (stk ^^ i) bp) [0..<n]"
  using assms
proof (induction n arbitrary: bp)
  case 0
  then show ?case by (simp add: backtrace_loop.simps)
next
  case (Suc n)
  have bp: "bp \<noteq> 0" using Suc.prems(2) by (metis funpow_0 zero_less_Suc)
  have "(stk ^^ n) (stk bp) = 0" using Suc.prems(1) by (simp add: funpow_Suc_right del: funpow.simps)
  moreover have "\<forall>i<n. (stk ^^ i) (stk bp) \<noteq> 0"
    using Suc.prems(2) by (metis Suc_mono comp_apply funpow_Suc_right)
  ultimately obtain fs where fs: "backtrace_loop stk dbg (stk bp) = Some fs"
    and ebps: "map fr_ebp fs = map (\<lambda>i. (stk ^^ i) (stk bp)) [0..<n]"
    using Suc.IH by blast
  have "map (\<lambda>i. (stk ^^ i) bp) [0..<Suc n] = bp # map (\<lambda>i. (stk ^^ i) (stk bp)) [0..<n]"
    by (simp add: map_upt_Suc funpow_Suc_right del: upt_Suc funpow.simps)
  with fs ebps bp show ?case
    by (subst backtrace_loop.simps) (simp add: Let_def)
qed

section \<open>Properties of the monitor\<close>

text \<open>
  C10.  The tokenizer of \<open>runcmd\<close> splits a line of blank-separated words
  back into the words, as long as there are fewer than \<open>MAXARGS = 16\<close> of
  them, and takes the ``Too many arguments'' exit otherwise.
\<close>

theorem parse_args_roundtrip:
  assumes "\<forall>a\<in>set args. a \<noteq> [] \<and> (\<forall>c\<in>set a. \<not> is_ws c)"
  shows "parse_args (concat (map (\<lambda>a. CHR 0x20 # a) args)) [] =
           (if length args < MAXARGS then Some args else None)"
  using parse_args_words [OF assms, of "[]"] by (simp add: MAXARGS_def)

theorem parse_args_roundtrip_witness:
  "parse_args (concat (map (\<lambda>a. CHR 0x20 # a) [''help'', ''me''])) [] = Some [''help'', ''me'']"
proof -
  have w: "\<forall>a\<in>set [''help'', ''me'']. a \<noteq> [] \<and> (\<forall>c\<in>set a. \<not> is_ws c)"
    by (simp add: is_ws_def WHITESPACE_def)
  show ?thesis using parse_args_roundtrip [OF w] by (simp add: MAXARGS_def)
qed

text \<open>
  C11.  No command returns a negative value, so the monitor loop never exits:
  whatever lines are typed, a run of \<open>monitor\<close> that returns has not left the
  loop.
\<close>

theorem monitor_never_exits:
  assumes "monitor env ls = Some (out, ex)"
  shows "\<not> ex"
proof -
  have "monitor_loop env ls = Some (out', ex') \<Longrightarrow> \<not> ex'" for env out' ex'
  proof (induction ls arbitrary: env out' ex')
    case (Cons l ls)
    show ?case
    proof (cases l)
      case None
      with Cons show ?thesis by simp
    next
      case (Some buf)
      obtain ob r env' where rc: "runcmd env buf = Some (ob, r, env')"
        using Cons.prems Some by (auto split: option.splits)
      have "r = 0" using rc by (rule runcmd_ret)
      with Cons.prems Some rc obtain ob' where "monitor_loop env' ls = Some (ob', ex')" by auto
      then show ?thesis by (rule Cons.IH)
    qed
  qed simp
  with assms show ?thesis by (auto simp: monitor_def)
qed

theorem monitor_never_exits_witness:
  "monitor example_env [Some ''help'', None, Some ''firestarter''] =
     Some ([Line ''Welcome to the JOS kernel monitor!'', Line ''Type 'help' for a list of commands.''] @
           map (\<lambda>c. Line (cmd_name c @ '' - '' @ cmd_desc c)) commands @
           [Line ''I am a fire starter, Twisted fire starter''], False) \<and> \<not> False"
  using monitor_never_exits [of example_env "[Some ''help'', None, Some ''firestarter'']"]
  by (simp add: monitor_def runcmd_def parse_args.simps is_ws_def WHITESPACE_def MAXARGS_def commands_def)

text \<open>
  C12.  \<open>mon_backtrace\<close> terminates on a frame chain that reaches \<open>ebp = 0\<close>
  after \<open>n\<close> frames, and prints exactly those \<open>n\<close> frames, innermost first.
\<close>

theorem backtrace_terminates:
  assumes "(stk ^^ n) bp = 0" and "\<forall>i<n. (stk ^^ i) bp \<noteq> 0"
  shows "\<exists>fs. backtrace_loop stk dbg bp = Some fs \<and> map fr_ebp fs = map (\<lambda>i. (stk ^^ i) bp) [0..<n]"
  by (rule backtrace_loop_chain [OF assms])

theorem backtrace_terminates_witness:
  "(example_stack ^^ 2) 0x1000 = 0 \<and>
   (\<exists>fs. backtrace_loop example_stack (debuginfo example_env) 0x1000 = Some fs \<and> map fr_ebp fs = [0x1000, 0x2000])"
proof -
  have s1: "example_stack 0x1000 = 0x2000" and s2: "example_stack 0x2000 = 0"
    by (simp_all add: example_stack_def)
  have f2: "(example_stack ^^ 2) 0x1000 = 0"
    by (simp only: numeral_2_eq_2 funpow.simps comp_apply id_apply s1 s2)
  have f1: "(example_stack ^^ 1) 0x1000 = 0x2000"
    by (simp only: One_nat_def funpow.simps comp_apply id_apply s1)
  have a: "(example_stack ^^ 2) 0x1000 = 0" "\<forall>i<2. (example_stack ^^ i) 0x1000 \<noteq> 0"
  proof -
    show "(example_stack ^^ 2) 0x1000 = 0" by (rule f2)
    show "\<forall>i<2. (example_stack ^^ i) 0x1000 \<noteq> 0"
    proof (intro allI impI)
      fix i :: nat assume "i < 2"
      then have "i = 0 \<or> i = 1" by auto
      then show "(example_stack ^^ i) 0x1000 \<noteq> 0" using f1 by auto
    qed
  qed
  have "map (\<lambda>i. (example_stack ^^ i) 0x1000) [0..<2] = [0x1000, 0x2000]"
    using f1 by (simp add: upt_rec)
  then show ?thesis using backtrace_terminates [OF a, of "debuginfo example_env"] a by simp
qed



end
