(* ===== verification/NumberFormat.thy ===== *)
theory NumberFormat
  imports Prelude
begin

unbundle bit_operations_syntax

text \<open>
  The number formatters of the loader's print library
  (\<open>src/JosPkg/Application/Loader/print.c\<close>): \<open>ValueToHex\<close> (lines 585--613) and
  \<open>ValueToString\<close> (lines 615--659), which \<open>_Print\<close> uses for \<open>%x\<close>, \<open>%X\<close>,
  \<open>%d\<close> and \<open>%u\<close>.  Output strings are \<open>CHAR16\<close> lists without the terminating
  0; the digit buffer \<open>str\<close> holds \<open>CHAR8\<close> digits, lowest first.  The
  claims read a printed number back (\<open>hex_val\<close>, \<open>dec_val\<close>) and compare the
  comma grouping with a reference grouping from the right (\<open>commafy\<close>).
\<close>

section \<open>Definitions\<close>

type_synonym u8 = "8 word"
type_synonym u16 = "16 word"

text \<open>A \<open>CHAR16\<close> literal \<open>L"..."\<close> of ASCII characters.\<close>

definition L :: "string \<Rightarrow> u16 list" where
  "L s = map (\<lambda>c. of_nat (of_char c)) s"

definition Hex :: "u8 list" where
  "Hex = map (\<lambda>c. of_nat (of_char c)) ''0123456789ABCDEF''"

text \<open>
  The digit loop of \<open>ValueToHex\<close> (lines 603--607): the digits, lowest
  first, as they are stored in \<open>str\<close>.
\<close>

function hex_digits :: "u64 \<Rightarrow> u8 list" where
  "hex_digits v = (if v = 0 then [] else Hex ! unat (v AND 0xF) # hex_digits (drop_bit 4 v))"
  by auto

termination hex_digits
proof (relation "measure unat")
  fix v :: u64
  assume "v \<noteq> 0"
  then have "unat v div 16 < unat v" by (simp add: unat_gt_0)
  then show "(drop_bit 4 v, v) \<in> measure unat" by (simp add: unat_drop_bit_eq drop_bit_eq_div unat_div)
qed simp

definition ValueToHex :: "u64 \<Rightarrow> u16 list" where
  "ValueToHex v = (if v = 0 then L ''0'' else map ucast (rev (hex_digits v)))"

function dec_digits :: "u64 \<Rightarrow> u8 list" where
  "dec_digits v = (if v = 0 then [] else (ucast (v mod 10) + 0x30) # dec_digits (v div 10))"
  by auto

termination dec_digits
proof (relation "measure unat")
  fix v :: u64
  assume "v \<noteq> 0"
  then have "unat v div 10 < unat v" by (simp add: unat_gt_0)
  then show "(v div 10, v) \<in> measure unat" by (simp add: unat_div)
qed simp

definition ca :: "nat list" where
  "ca = [3, 1, 2]"

primrec put_digits :: "u16 list \<Rightarrow> nat \<Rightarrow> u16 list" where
  "put_digits [] c = []"
| "put_digits (d # ds) c =
     (if c - 1 = 0 then 0x2C # d # put_digits ds 3 else d # put_digits ds (c - 1))"

definition ValueToString :: "bool \<Rightarrow> u64 \<Rightarrow> u16 list" where
  "ValueToString comma v =
     (if v = 0 then L ''0''
      else
        (let neg = v <s 0;
             u = (if neg then - v else v);
             ds = dec_digits u;
             c = (if comma then ca ! (length ds mod 3) else 999) + 1
         in (if neg then L ''-'' else []) @ put_digits (map ucast (rev ds)) c))"

text \<open>Reading a printed number back.\<close>

definition digit_val :: "u16 \<Rightarrow> nat" where
  "digit_val c = (if unat c \<le> 57 then unat c - 48 else unat c - 55)"

definition hex_val :: "u16 list \<Rightarrow> nat" where
  "hex_val cs = foldl (\<lambda>n c. 16 * n + digit_val c) 0 cs"

definition dec_val_nat :: "u16 list \<Rightarrow> nat" where
  "dec_val_nat cs = foldl (\<lambda>n c. 10 * n + digit_val c) 0 cs"

definition dec_val :: "u16 list \<Rightarrow> int" where
  "dec_val cs = (case cs of c # cs' \<Rightarrow> if c = 0x2D then - int (dec_val_nat cs') else int (dec_val_nat cs) | [] \<Rightarrow> 0)"

text \<open>
  Reference grouping of a digit string in threes from the right, and the value
  the comma counter \<open>c\<close> of \<open>ValueToString\<close> has after a run of digits.
\<close>

function commafy :: "u16 list \<Rightarrow> u16 list" where
  "commafy ds = (if length ds \<le> 3 then ds else commafy (take (length ds - 3) ds) @ 0x2C # drop (length ds - 3) ds)"
  by auto

termination commafy
  by (relation "measure length") auto

primrec put_count :: "u16 list \<Rightarrow> nat \<Rightarrow> nat" where
  "put_count [] c = c"
| "put_count (d # ds) c = (if c - 1 = 0 then put_count ds 3 else put_count ds (c - 1))"

declare commafy.simps [simp del]

declare hex_digits.simps [simp del] dec_digits.simps [simp del]

section \<open>Lemmas\<close>

lemma unat_and_0xF: "unat ((v::u64) AND 0xF) = unat v mod 16"
proof -
  have "v AND 0xF = take_bit 4 v" by (simp add: mask_numeral take_bit_eq_mask)
  then show ?thesis by (simp add: unsigned_take_bit_eq take_bit_eq_mod unat_mod)
qed

lemma unat_drop_bit_4: "unat (drop_bit 4 (v::u64)) = unat v div 16"
  by (simp add: unat_drop_bit_eq drop_bit_eq_div unat_div)

lemma sint_u64: "sint (v::u64) = (if uint v < 2^63 then uint v else uint v - 2^64)"
proof -
  have u: "0 \<le> uint v" "uint v < 2^64" using uint_lt2p [of v] by simp_all
  have si: "sint v = (uint v + 2^63) mod 2^64 - 2^63"
    by (simp add: sint_uint signed_take_bit_eq_take_bit_shift take_bit_eq_mod)
  show ?thesis
  proof (cases "uint v < 2^63")
    case True
    have "(uint v + 2^63) mod 2^64 = uint v + 2^63" by (rule mod_pos_pos_trivial) (use True u in simp_all)
    with si True show ?thesis by simp
  next
    case False
    have "(uint v + 2^63) mod 2^64 = (uint v + 2^63 - 2^64) mod 2^64" by (metis diff_add_cancel mod_add_self2)
    also have "\<dots> = uint v + 2^63 - 2^64" by (rule mod_pos_pos_trivial) (use False u in simp_all)
    finally show ?thesis using si False by simp
  qed
qed

lemma unat_neg_sint:
  assumes "(v::u64) <s 0"
  shows "int (unat (- v)) = - sint v"
proof -
  have s: "sint v < 0" using assms by (simp add: word_sless_alt)
  have u: "0 \<le> uint v" "uint v < 2^64" using uint_lt2p [of v] by simp_all
  have big: "\<not> uint v < 2^63" using s u sint_u64 [of v] by auto
  have m2: "(- uint v) mod 2^64 = 2^64 - uint v"
  proof -
    have "(2^64 + - uint v) mod 2^64 = (- uint v) mod 2^64" by (rule mod_add_self1)
    then have "(- uint v) mod 2^64 = (2^64 - uint v) mod 2^64" by simp
    also have "\<dots> = 2^64 - uint v" by (rule mod_pos_pos_trivial) (use big u in simp_all)
    finally show ?thesis .
  qed
  have "uint (- v) = 2^64 - uint v" using m2 by (simp add: uint_word_ariths(4))
  then show ?thesis using big sint_u64 [of v] by (simp add: uint_nat [symmetric])
qed

lemma sint_nonneg_unat:
  assumes "\<not> (v::u64) <s 0"
  shows "sint v = int (unat v)"
proof -
  have s: "0 \<le> sint v" using assms by (simp add: word_sless_alt)
  have u: "uint v < 2^64" using uint_lt2p [of v] by simp
  have "uint v < 2^63" using s u sint_u64 [of v] by (auto split: if_splits)
  then have "sint v = uint v" using sint_u64 [of v] by simp
  then show ?thesis by simp
qed

lemma Hex_digit: "k < 16 \<Longrightarrow> digit_val (ucast (Hex ! k)) = k"
proof -
  assume "k < 16"
  then have "k \<in> set [0..<16]" by simp
  then show ?thesis by (simp add: upt_rec Hex_def digit_val_def) (elim disjE; simp)
qed

lemma dec_digit: "k < 10 \<Longrightarrow> digit_val (ucast ((of_nat k :: u8) + 0x30)) = k"
proof -
  assume "k < 10"
  then have "k \<in> set [0..<10]" by simp
  then show ?thesis by (simp add: upt_rec digit_val_def) (elim disjE; simp)
qed

lemma hex_val_snoc: "hex_val (xs @ [c]) = 16 * hex_val xs + digit_val c"
  by (simp add: hex_val_def)

lemma dec_val_nat_snoc: "dec_val_nat (xs @ [c]) = 10 * dec_val_nat xs + digit_val c"
  by (simp add: dec_val_nat_def)

lemma hex_digits_val: "hex_val (map ucast (rev (hex_digits v))) = unat v"
proof (induction v rule: hex_digits.induct)
  case (1 v)
  show ?case
  proof (cases "v = 0")
    case True
    then show ?thesis by (simp add: hex_val_def hex_digits.simps)
  next
    case False
    have lt: "unat (v AND 0xF) < 16" by (simp add: unat_and_0xF)
    have "hex_digits v = Hex ! unat (v AND 0xF) # hex_digits (drop_bit 4 v)"
      using False by (subst hex_digits.simps) simp
    then have "hex_val (map ucast (rev (hex_digits v))) = 16 * unat (drop_bit 4 v) + unat (v AND 0xF)"
      using False 1 Hex_digit [OF lt] by (simp add: hex_val_snoc)
    also have "\<dots> = unat v" by (simp add: unat_drop_bit_4 unat_and_0xF)
    finally show ?thesis .
  qed
qed

lemma dec_digits_val: "dec_val_nat (map ucast (rev (dec_digits v))) = unat v"
proof (induction v rule: dec_digits.induct)
  case (1 v)
  show ?case
  proof (cases "v = 0")
    case True
    then show ?thesis by (simp add: dec_val_nat_def dec_digits.simps)
  next
    case False
    have lt: "unat (v mod 10) < 10" by (simp add: unat_mod)
    have u: "(ucast (v mod 10) :: u8) = of_nat (unat (v mod 10))"
      by (rule word_unat_eq_iff [THEN iffD2]) (simp add: unsigned_ucast_eq unat_of_nat take_bit_eq_mod unat_mod)
    have "dec_digits v = (ucast (v mod 10) + 0x30) # dec_digits (v div 10)"
      using False by (subst dec_digits.simps) simp
    then have "dec_val_nat (map ucast (rev (dec_digits v))) =
        10 * dec_val_nat (map ucast (rev (dec_digits (v div 10)))) + digit_val (ucast ((ucast (v mod 10) :: u8) + 0x30))"
      by (simp add: dec_val_nat_snoc)
    also have "\<dots> = 10 * unat (v div 10) + unat (v mod 10)"
      using 1 False dec_digit [OF lt] by (simp only: u) simp
    also have "\<dots> = unat v" by (simp add: unat_div unat_mod)
    finally show ?thesis .
  qed
qed

lemma dec_digits_chars: "c \<in> set (dec_digits v) \<Longrightarrow> c \<noteq> 0x2D"
proof (induction v rule: dec_digits.induct)
  case (1 v)
  have lt: "unat (v mod 10) < 10" by (simp add: unat_mod)
  have u: "(ucast (v mod 10) :: u8) = of_nat (unat (v mod 10))"
    by (rule word_unat_eq_iff [THEN iffD2]) (simp add: unsigned_ucast_eq unat_of_nat take_bit_eq_mod unat_mod)
  have k: "(of_nat k :: u8) + 0x30 \<noteq> 0x2D" if "k < 10" for k
  proof -
    have "k \<in> set [0..<10]" using that by simp
    then show ?thesis by (simp add: upt_rec) (elim disjE; simp)
  qed
  show ?case
  proof (cases "v = 0")
    case True
    with 1 show ?thesis by (simp add: dec_digits.simps)
  next
    case False
    then have d: "dec_digits v = (ucast (v mod 10) + 0x30) # dec_digits (v div 10)"
      by (subst dec_digits.simps) simp
    have "c = ucast (v mod 10) + 0x30 \<or> c \<in> set (dec_digits (v div 10))"
      using 1(2) unfolding d by simp
    then show ?thesis
    proof
      assume "c = ucast (v mod 10) + 0x30"
      then show ?thesis using k [OF lt] by (simp only: u) simp
    next
      assume "c \<in> set (dec_digits (v div 10))"
      then show ?thesis using 1(1) False by blast
    qed
  qed
qed

lemma dec_digits_range: "c \<in> set (dec_digits v) \<Longrightarrow> 48 \<le> unat c \<and> unat c \<le> 57"
proof (induction v rule: dec_digits.induct)
  case (1 v)
  have lt: "unat (v mod 10) < 10" by (simp add: unat_mod)
  have u: "(ucast (v mod 10) :: u8) = of_nat (unat (v mod 10))"
    by (rule word_unat_eq_iff [THEN iffD2]) (simp add: unsigned_ucast_eq unat_of_nat take_bit_eq_mod unat_mod)
  have k: "48 \<le> unat ((of_nat k :: u8) + 0x30) \<and> unat ((of_nat k :: u8) + 0x30) \<le> 57" if "k < 10" for k
  proof -
    have "k \<in> set [0..<10]" using that by simp
    then show ?thesis by (simp add: upt_rec) (elim disjE; simp)
  qed
  show ?case
  proof (cases "v = 0")
    case True
    with 1 show ?thesis by (simp add: dec_digits.simps)
  next
    case False
    then have d: "dec_digits v = (ucast (v mod 10) + 0x30) # dec_digits (v div 10)"
      by (subst dec_digits.simps) simp
    have "c = ucast (v mod 10) + 0x30 \<or> c \<in> set (dec_digits (v div 10))"
      using 1(2) unfolding d by simp
    then show ?thesis
    proof
      assume "c = ucast (v mod 10) + 0x30"
      then show ?thesis using k [OF lt] by (simp only: u)
    next
      assume "c \<in> set (dec_digits (v div 10))"
      then show ?thesis using 1(1) False by blast
    qed
  qed
qed

lemma set_put_digits: "set (put_digits ds c) \<subseteq> insert 0x2C (set ds)"
  by (induction ds arbitrary: c) auto

lemma length_put_digits: "length (put_digits ds c) \<le> 2 * length ds"
  by (induction ds arbitrary: c) (auto intro: le_SucI)

lemma put_digits_short: "length ds < c \<Longrightarrow> put_digits ds c = ds"
  by (induction ds arbitrary: c) auto

lemma dec_digits_length:
  assumes "v \<noteq> 0"
  shows "10 ^ (length (dec_digits v) - 1) \<le> unat v"
  using assms
proof (induction v rule: dec_digits.induct)
  case (1 v)
  have d: "dec_digits v = (ucast (v mod 10) + 0x30) # dec_digits (v div 10)"
    using 1(2) by (subst dec_digits.simps) simp
  show ?case
  proof (cases "v div 10 = 0")
    case True
    then show ?thesis using d 1(2) by (simp add: dec_digits.simps unat_gt_0 Suc_leI)
  next
    case False
    then have "10 ^ (length (dec_digits (v div 10)) - 1) \<le> unat (v div 10)" using 1 by simp
    moreover have "dec_digits (v div 10) \<noteq> []" using False by (subst dec_digits.simps) simp
    ultimately have "10 ^ length (dec_digits (v div 10)) \<le> 10 * unat (v div 10)"
      by (cases "dec_digits (v div 10)") simp_all
    also have "\<dots> \<le> unat v" by (simp add: unat_div)
    finally show ?thesis using d by simp
  qed
qed

lemma dec_digits_short: "length (dec_digits v) < 999"
proof (cases "v = 0")
  case True
  then show ?thesis by (simp add: dec_digits.simps)
next
  case False
  have uv: "unat v < 2 ^ LENGTH(64)" by (rule unsigned_less)
  have "10 ^ (length (dec_digits v) - 1) < (2::nat) ^ 64"
    using dec_digits_length [OF False] uv by simp
  moreover have "(2::nat) ^ 64 < 10 ^ 20" by simp
  ultimately have p: "10 ^ (length (dec_digits v) - 1) < (10::nat) ^ 20" by linarith
  have "length (dec_digits v) - 1 < 20"
    by (rule power_less_imp_less_exp [of "10::nat"]) (simp, rule p)
  then show ?thesis by simp
qed

lemma ValueToString_plain:
  "ValueToString False v =
     (if v = 0 then L ''0''
      else (if v <s 0 then L ''-'' else []) @ map ucast (rev (dec_digits (if v <s 0 then - v else v))))"
  using dec_digits_short [of v] dec_digits_short [of "- v"]
  by (simp add: ValueToString_def Let_def put_digits_short)

lemma put_digits_append:
  "put_digits (xs @ ys) c = put_digits xs c @ put_digits ys (put_count xs c)"
  by (induction xs arbitrary: c) auto

lemma put_count_cycle:
  "1 \<le> c \<Longrightarrow> c \<le> 3 \<Longrightarrow> put_count xs c = 3 - (3 - c + length xs) mod 3"
proof (induction xs arbitrary: c)
  case Nil
  then show ?case by simp
next
  case (Cons x xs)
  show ?case
  proof (cases "c = 1")
    case True
    have "3 - c + length (x # xs) = length xs + 3" using True by simp
    then show ?thesis using Cons.IH [of 3] True by simp
  next
    case False
    have e: "3 - c + length (x # xs) = 3 - (c - 1) + length xs" using False Cons.prems by simp
    have "put_count (x # xs) c = put_count xs (c - 1)" using False Cons.prems by simp
    also have "\<dots> = 3 - (3 - (c - 1) + length xs) mod 3" using Cons.IH [of "c - 1"] False Cons.prems by simp
    also have "\<dots> = 3 - (3 - c + length (x # xs)) mod 3" by (simp only: e)
    finally show ?thesis .
  qed
qed

lemma put_count_start:
  assumes "xs \<noteq> []"
  shows "put_count xs (ca ! (length xs mod 3) + 1) = 1"
proof -
  consider "length xs mod 3 = 0" | "length xs mod 3 = 1" | "length xs mod 3 = 2" by arith
  then show ?thesis
  proof cases
    case 1
    obtain x xs' where xs: "xs = x # xs'" using assms by (cases xs) auto
    then have "length xs' mod 3 = 2" using 1 by (simp add: mod_Suc split: if_split_asm)
    then show ?thesis using 1 xs put_count_cycle [of 3 xs'] by (simp add: ca_def)
  next
    case 2
    then have "(1 + length xs) mod 3 = 2" by (simp add: mod_Suc)
    then show ?thesis using 2 put_count_cycle [of 2 xs] by (simp add: ca_def numeral_2_eq_2)
  next
    case 3
    then show ?thesis using put_count_cycle [of 3 xs] by (simp add: ca_def)
  qed
qed

lemma put_digits_commafy:
  "ds \<noteq> [] \<Longrightarrow> put_digits ds (ca ! (length ds mod 3) + 1) = commafy ds"
proof (induction "length ds" arbitrary: ds rule: less_induct)
  case less
  show ?case
  proof (cases "length ds \<le> 3")
    case True
    moreover have "0 < length ds" using less.prems by simp
    ultimately have "length ds = 1 \<or> length ds = 2 \<or> length ds = 3" by arith
    then have "length ds \<in> {1, 2, 3}" by auto
    then have "length ds < ca ! (length ds mod 3) + 1" by (auto simp: ca_def)
    then show ?thesis using True by (simp add: put_digits_short commafy.simps)
  next
    case False
    define xs where "xs = take (length ds - 3) ds"
    define ys where "ys = drop (length ds - 3) ds"
    have ds: "ds = xs @ ys" by (simp add: xs_def ys_def)
    have ne: "xs \<noteq> []" using False by (cases ds) (auto simp: xs_def)
    have lx: "length xs < length ds" and ly: "length ys = 3" using False by (simp_all add: xs_def ys_def)
    have m: "length ds mod 3 = length xs mod 3" using ds ly by simp
    obtain a b c where abc: "ys = [a, b, c]" using ly
      by (metis (no_types) length_0_conv length_Suc_conv numeral_3_eq_3)
    have "put_digits ds (ca ! (length ds mod 3) + 1) =
        put_digits xs (ca ! (length xs mod 3) + 1) @ put_digits ys 1"
      unfolding m by (subst ds) (simp only: put_digits_append put_count_start [OF ne])
    also have "\<dots> = commafy xs @ 0x2C # ys"
      using less.hyps [OF lx ne] abc by simp
    also have "\<dots> = commafy ds"
      using False by (subst (2) commafy.simps) (simp add: xs_def ys_def)
    finally show ?thesis .
  qed
qed

lemma dec_digits_nonempty: "v \<noteq> 0 \<Longrightarrow> dec_digits v \<noteq> []"
  by (subst dec_digits.simps) simp

lemma ucast_u16_45: "(ucast (c::u8) :: u16) = 0x2D \<longleftrightarrow> c = 0x2D"
proof -
  have lt: "unat c < 2 ^ LENGTH(8)" by (rule unsigned_less)
  have eq: "unat (ucast c :: u16) = unat c"
    using lt by (simp add: unsigned_ucast_eq take_bit_nat_eq_self)
  have "(ucast c :: u16) = 0x2D \<longleftrightarrow> unat (ucast c :: u16) = unat (0x2D :: u16)"
    by (rule word_unat_eq_iff)
  also have "\<dots> \<longleftrightarrow> unat c = unat (0x2D :: u8)" by (simp only: eq) simp
  also have "\<dots> \<longleftrightarrow> c = 0x2D" by (rule word_unat_eq_iff [symmetric])
  finally show ?thesis .
qed

lemma dec_val_digits: "dec_val (map ucast (rev (dec_digits v))) = int (unat v)"
proof (cases "v = 0")
  case True
  then show ?thesis by (simp add: dec_val_def dec_digits.simps)
next
  case False
  have "map ucast (rev (dec_digits v)) \<noteq> ([] :: u16 list)" using dec_digits_nonempty [OF False] by simp
  then obtain c cs where cs: "map ucast (rev (dec_digits v)) = (c :: u16) # cs"
    by (cases "map ucast (rev (dec_digits v)) :: u16 list") simp_all
  have "c \<in> set (map ucast (rev (dec_digits v)))" unfolding cs by simp
  then obtain d where d: "d \<in> set (dec_digits v)" "c = ucast d" by auto
  then have "c \<noteq> 0x2D" using dec_digits_chars [of d v] ucast_u16_45 [of d] by simp
  then show ?thesis using cs dec_digits_val [of v] by (simp add: dec_val_def)
qed

lemma unat_ucast_u8_u16: "unat (ucast (c::u8) :: u16) = unat c"
proof -
  have "unat c < 2 ^ LENGTH(8)" by (rule unsigned_less)
  then show ?thesis by (simp add: unsigned_ucast_eq take_bit_nat_eq_self)
qed

text \<open>The characters \<open>ValueToString\<close> prints are digits, \<open>-\<close> and \<open>,\<close>: no
  terminator and no newline; the string is short.\<close>

lemma ValueToString_chars:
  assumes "c \<in> set (ValueToString b v)"
  shows "c \<noteq> 0 \<and> c \<noteq> 0x0A"
proof -
  let ?u = "if v <s 0 then - v else v"
  have digit: "c \<noteq> 0 \<and> c \<noteq> 0x0A" if cin: "c \<in> set (map ucast (rev (dec_digits ?u)) :: u16 list)" for c
  proof -
    obtain d where d: "d \<in> set (dec_digits ?u)" "c = ucast d" using cin by auto
    have "48 \<le> unat c \<and> unat c \<le> 57" using dec_digits_range [OF d(1)] d(2) by (simp add: unat_ucast_u8_u16)
    then show ?thesis by auto
  qed
  have "c \<in> set (L ''0'') \<or> c \<in> set (L ''-'') \<or> c = 0x2C \<or> c \<in> set (map ucast (rev (dec_digits ?u)) :: u16 list)"
    using assms set_put_digits [of "map ucast (rev (dec_digits ?u))"]
    by (auto simp: ValueToString_def Let_def split: if_splits)
  then show ?thesis using digit by (auto simp: L_def)
qed

lemma ValueToString_length: "length (ValueToString b v) < 2000"
proof -
  have all: "length (put_digits (map ucast (rev (dec_digits w)) :: u16 list) c) < 1998" for w c
    using length_put_digits [of "map ucast (rev (dec_digits w)) :: u16 list" c] dec_digits_short [of w] by simp
  show ?thesis by (auto simp: ValueToString_def Let_def L_def intro: less_trans [OF all])
qed

section \<open>Properties of the number formatters\<close>

text \<open>
  C13.  \<open>ValueToHex\<close> prints a 64-bit value in upper-case hexadecimal without
  leading zeros, and the digits read back as the value.
\<close>

theorem ValueToHex_roundtrip: "hex_val (ValueToHex v) = unat v"
  using hex_digits_val [of v] by (simp add: ValueToHex_def L_def hex_val_def digit_val_def)

text \<open>
  C14.  Without commas, \<open>ValueToString\<close> prints the signed value of its
  \<open>INT64\<close> argument: the text reads back as \<open>sint v\<close>, also for
  \<open>INT64_MIN\<close>, whose negation \<open>v = -v\<close> wraps to itself and is then divided
  as an unsigned number.
\<close>

theorem ValueToString_roundtrip: "dec_val (ValueToString False v) = sint v"
proof (cases "v = 0")
  case True
  then show ?thesis by (simp add: ValueToString_def L_def dec_val_def dec_val_nat_def digit_val_def)
next
  case False
  show ?thesis
  proof (cases "v <s 0")
    case True
    have "dec_val (ValueToString False v) = - int (dec_val_nat (map ucast (rev (dec_digits (- v)))))"
      using False True by (simp add: ValueToString_plain L_def dec_val_def)
    then show ?thesis using dec_digits_val [of "- v"] unat_neg_sint [OF True] by simp
  next
    case nn: False
    then show ?thesis
      using False dec_val_digits [of v] sint_nonneg_unat [OF nn] by (simp add: ValueToString_plain)
  qed
qed

text \<open>
  C15.  With commas, \<open>ValueToString\<close>'s counter (started at
  \<open>ca[n mod 3] + 1\<close> for \<open>n\<close> digits) puts a comma exactly between the groups
  of three digits counted from the right: the output is the plain output with
  its digits grouped by the reference \<open>commafy\<close>.
\<close>

theorem ValueToString_comma:
  "ValueToString True v =
     (if v <s 0 then L ''-'' @ commafy (tl (ValueToString False v))
      else commafy (ValueToString False v))"
proof (cases "v = 0")
  case True
  then show ?thesis by (simp add: ValueToString_def L_def commafy.simps)
next
  case False
  let ?u = "if v <s 0 then - v else v"
  have u: "?u \<noteq> 0" using False by simp
  have ne: "map ucast (rev (dec_digits ?u)) \<noteq> ([] :: u16 list)"
    using dec_digits_nonempty [OF u] by simp
  have "ValueToString True v =
      (if v <s 0 then L ''-'' else []) @ commafy (map ucast (rev (dec_digits ?u)))"
    using False put_digits_commafy [OF ne] by (simp add: ValueToString_def Let_def)
  then show ?thesis using False by (simp add: ValueToString_plain L_def)
qed

end
