(* ===== verification/PrintEngine.thy ===== *)
theory PrintEngine
  imports NumberFormat
begin

text \<open>
  The formatted-print engine of the loader's print library
  (\<open>src/JosPkg/Application/Loader/print.c\<close>): the output buffer of
  \<open>PRINT_STATE\<close> with \<open>PPUTC\<close>, \<open>PFLUSH\<close> and \<open>PSETATTR\<close>, the item writer
  \<open>PITEM\<close>, the format interpreter \<open>_Print\<close>, the string back end \<open>_SPrint\<close>
  behind \<open>SPrint\<close>/\<open>VSPrint\<close>, and \<open>TimeToString\<close>, which formats through
  \<open>SPrint\<close> itself.  The format string is a \<open>CHAR16\<close> list that includes its
  terminating 0, so that a read past the terminator is visible
  (\<open>FormatOverrun\<close>); the \<open>va_list\<close> is a list of argument slots, and a
  \<open>va_arg\<close> of the wrong kind or past the last argument is an error value.
\<close>

section \<open>Definitions\<close>

text \<open>\<open>EFI_TIME\<close> (UEFI specification; the fields \<open>TimeToString\<close> reads).\<close>

record EFI_TIME =
  Year :: u16
  Month :: "8 word"
  Day :: "8 word"
  Hour :: "8 word"
  Minute :: "8 word"

text \<open>One argument slot of the \<open>va_list\<close>: an integer of any width (a 64-bit
  slot on x86-64), a \<open>CHAR16*\<close> or \<open>CHAR8*\<close> string (\<open>None\<close> for \<open>NULL\<close>), an
  \<open>EFI_TIME*\<close>, or a \<open>double\<close>.\<close>

datatype va_item = VInt u64 | VStr "u16 list option" | VAStr "u8 list option" | VTime EFI_TIME | VDouble

datatype print_error = VaArgMissing | VaArgMismatch | FormatOverrun | FloatNotModelled

text \<open>What the output callbacks receive: \<open>Output(Context, Buffer)\<close> with the
  buffer contents, and \<open>SetAttr(Context, Attr)\<close>.\<close>

datatype print_event = Output "u16 list" | SetAttrCall u64

text \<open>\<open>PRINT_STATE\<close> (lines 83--107): the remaining format, the remaining
  arguments, the buffer contents \<open>Buffer[0..Pos)\<close>, the callbacks' record, the
  count \<open>Len\<close>, and the attributes.\<close>

record PRINT_STATE =
  ps_fmt :: "u16 list"
  ps_args :: "va_item list"
  ps_buf :: "u16 list"
  ps_out :: "print_event list"
  ps_len :: u64
  ps_attr :: u64
  ps_restore :: u64
  ps_attr_norm :: u64
  ps_attr_high :: u64
  ps_attr_err :: u64
  ps_has_setattr :: bool

text \<open>\<open>PRINT_ITEM\<close> (lines 69--80): \<open>it_str = None\<close> is \<open>Item.Item.pw == NULL\<close>;
  \<open>it_wparse\<close> says whether \<open>WidthParse\<close> points at \<open>FieldWidth\<close>.\<close>

record PRINT_ITEM =
  it_str :: "u16 list option"
  it_width :: u64
  it_fw :: u64
  it_wparse :: bool
  it_pad :: u16
  it_padbefore :: bool
  it_comma :: bool
  it_long :: bool

definition PRINT_STRING_LEN :: nat where
  "PRINT_STRING_LEN = 200"

text \<open>\<open>PFLUSH\<close> (lines 457--466).\<close>

definition PFLUSH :: "PRINT_STATE \<Rightarrow> PRINT_STATE" where
  "PFLUSH ps = ps\<lparr>ps_out := ps_out ps @ [Output (ps_buf ps)], ps_buf := []\<rparr>"

text \<open>\<open>PPUTC\<close> (lines 485--505): a newline is preceded by a carriage return; the
  buffer is flushed when \<open>Pos\<close> reaches \<open>End = Buffer + PRINT_STRING_LEN - 1\<close>.\<close>

definition put1 :: "u16 \<Rightarrow> PRINT_STATE \<Rightarrow> PRINT_STATE" where
  "put1 c ps =
     (let ps1 = ps\<lparr>ps_buf := ps_buf ps @ [c], ps_len := ps_len ps + 1\<rparr>
      in if PRINT_STRING_LEN - 1 \<le> length (ps_buf ps1) then PFLUSH ps1 else ps1)"

definition PPUTC :: "u16 \<Rightarrow> PRINT_STATE \<Rightarrow> PRINT_STATE" where
  "PPUTC c ps = (if c = 0x0A then put1 c (put1 0x0D ps) else put1 c ps)"

definition pputs :: "u16 list \<Rightarrow> PRINT_STATE \<Rightarrow> PRINT_STATE" where
  "pputs cs ps = fold PPUTC cs ps"

text \<open>\<open>PSETATTR\<close> (lines 468--483).\<close>

definition PSETATTR :: "u64 \<Rightarrow> PRINT_STATE \<Rightarrow> PRINT_STATE" where
  "PSETATTR a ps =
     (let ps1 = PFLUSH ps;
          ps2 = ps1\<lparr>ps_restore := ps_attr ps1\<rparr>;
          ps3 = (if ps_has_setattr ps2 then ps2\<lparr>ps_out := ps_out ps2 @ [SetAttrCall a]\<rparr> else ps2)
      in ps3\<lparr>ps_attr := a\<rparr>)"

text \<open>The length loop of \<open>PITEM\<close> (lines 533--541): characters up to the first
  0, at most \<open>FieldWidth\<close> of them.\<close>

primrec item_len :: "u16 list \<Rightarrow> nat \<Rightarrow> nat" where
  "item_len [] n = 0"
| "item_len (c # cs) n = (if n = 0 then 0 else if c = 0 then 0 else Suc (item_len cs (n - 1)))"

text \<open>\<open>PITEM\<close> (lines 523--580).\<close>

definition PITEM :: "PRINT_ITEM \<Rightarrow> u16 list \<Rightarrow> PRINT_STATE \<Rightarrow> PRINT_STATE" where
  "PITEM it s ps =
     (let len = item_len s (unat (it_fw it));
          fw = (if it_fw it = - 1 then of_nat len else it_fw it);
          w = (if it_width it < of_nat len then of_nat len else it_width it);
          ps1 = (if it_padbefore it then pputs (replicate (unat fw - unat w) 0x20) ps else ps);
          ps2 = pputs (replicate (unat w - len) (it_pad it)) ps1;
          ps3 = pputs (take len s) ps2
      in if it_padbefore it then ps3 else pputs (replicate (unat fw - unat w) 0x20) ps3)"

text \<open>\<open>PGETC\<close> on the format (lines 508--520); reading past the terminator is an
  overrun.\<close>

definition fmt_getc :: "PRINT_STATE \<Rightarrow> print_error + u16 \<times> PRINT_STATE" where
  "fmt_getc ps = (case ps_fmt ps of [] \<Rightarrow> Inl FormatOverrun | c # cs \<Rightarrow> Inr (c, ps\<lparr>ps_fmt := cs\<rparr>))"

text \<open>\<open>va_arg\<close> for the argument types \<open>_Print\<close> reads.\<close>

definition va_int :: "PRINT_STATE \<Rightarrow> print_error + u64 \<times> PRINT_STATE" where
  "va_int ps =
     (case ps_args ps of [] \<Rightarrow> Inl VaArgMissing
      | VInt w # r \<Rightarrow> Inr (w, ps\<lparr>ps_args := r\<rparr>)
      | _ # r \<Rightarrow> Inl VaArgMismatch)"

text \<open>\<open>va_arg(args, UINT32)\<close>, \<open>va_arg(args, INT32)\<close> as passed on to a 64-bit
  parameter: zero- and sign-extension of the low half.\<close>

definition u32_ext :: "u64 \<Rightarrow> u64" where
  "u32_ext w = ucast (ucast w :: u32)"

definition i32_ext :: "u64 \<Rightarrow> u64" where
  "i32_ext w = scast (ucast w :: u32)"

definition digit_char :: "u16 \<Rightarrow> bool" where
  "digit_char c \<longleftrightarrow> 0x30 \<le> c \<and> c \<le> 0x39"

text \<open>The width digits (lines 929--944): \<open>w\<close> is the \<open>UINTN\<close> being built; the
  first non-digit is pushed back (\<open>Index -= 1\<close>).\<close>

fun parse_width :: "u64 \<Rightarrow> u16 list \<Rightarrow> print_error + u64 \<times> u16 list" where
  "parse_width w [] = Inl FormatOverrun"
| "parse_width w (c # cs) =
     (if digit_char c then parse_width (w * 10 + ucast c - 0x30) cs else Inr (w, c # cs))"

definition new_item :: PRINT_ITEM where
  "new_item =
     \<lparr>it_str = None, it_width = 0, it_fw = - 1, it_wparse = False, it_pad = 0x20,
      it_padbefore = True, it_comma = False, it_long = False\<rparr>"

definition set_wparse :: "u64 \<Rightarrow> PRINT_ITEM \<Rightarrow> PRINT_ITEM" where
  "set_wparse v it = (if it_wparse it then it\<lparr>it_fw := v\<rparr> else it\<lparr>it_width := v\<rparr>)"

text \<open>\<open>L"(null)"\<close> and the two-character scratch strings.\<close>

definition null_str :: "u16 list" where
  "null_str = L ''(null)''"

text \<open>
  One character of a conversion specification (the \<open>switch\<close> of lines
  898--1070).  \<open>tts\<close> is \<open>TimeToString\<close>, passed in because it formats through
  \<open>SPrint\<close> itself; \<open>attr\<close> is the local \<open>Attr\<close>.  The cases \<open>g\<close>, \<open>D\<close> and
  \<open>r\<close> have their bodies commented out in the source and do nothing.
\<close>

definition spec_char ::
  "(EFI_TIME \<Rightarrow> print_error + u16 list) \<Rightarrow> u16 \<Rightarrow> PRINT_ITEM \<Rightarrow> u64 \<Rightarrow> PRINT_STATE
   \<Rightarrow> print_error + PRINT_ITEM \<times> u64 \<times> PRINT_STATE" where
  "spec_char tts c it attr ps =
     (if c = 0x25 then Inr (it\<lparr>it_str := Some [0x25, 0]\<rparr>, attr, ps)
      else if c = 0x30 then Inr (it\<lparr>it_pad := 0x30\<rparr>, attr, ps)
      else if c = 0x2D then Inr (it\<lparr>it_padbefore := False\<rparr>, attr, ps)
      else if c = 0x2C then Inr (it\<lparr>it_comma := True\<rparr>, attr, ps)
      else if c = 0x2E then Inr (it\<lparr>it_wparse := True\<rparr>, attr, ps)
      else if c = 0x2A then
        (case va_int ps of Inl e \<Rightarrow> Inl e | Inr (v, ps') \<Rightarrow> Inr (set_wparse v it, attr, ps'))
      else if 0x31 \<le> c \<and> c \<le> 0x39 then
        (case parse_width (ucast c - 0x30) (ps_fmt ps) of Inl e \<Rightarrow> Inl e
         | Inr (v, rest) \<Rightarrow> Inr (set_wparse v it, attr, ps\<lparr>ps_fmt := rest\<rparr>))
      else if c = 0x61 then
        (case ps_args ps of [] \<Rightarrow> Inl VaArgMissing
         | VAStr s # r \<Rightarrow>
             Inr (it\<lparr>it_str := Some (case s of None \<Rightarrow> null_str | Some a \<Rightarrow> map ucast a)\<rparr>, attr, ps\<lparr>ps_args := r\<rparr>)
         | _ # r \<Rightarrow> Inl VaArgMismatch)
      else if c = 0x73 then
        (case ps_args ps of [] \<Rightarrow> Inl VaArgMissing
         | VStr s # r \<Rightarrow>
             Inr (it\<lparr>it_str := Some (case s of None \<Rightarrow> null_str | Some a \<Rightarrow> a)\<rparr>, attr, ps\<lparr>ps_args := r\<rparr>)
         | _ # r \<Rightarrow> Inl VaArgMismatch)
      else if c = 0x63 then
        (case va_int ps of Inl e \<Rightarrow> Inl e
         | Inr (v, ps') \<Rightarrow> Inr (it\<lparr>it_str := Some [ucast v, 0]\<rparr>, attr, ps'))
      else if c = 0x6C then Inr (it\<lparr>it_long := True\<rparr>, attr, ps)
      else if c = 0x58 \<or> c = 0x78 then
        (let it1 = (if c = 0x58 then it\<lparr>it_width := (if it_long it then 16 else 8), it_pad := 0x30\<rparr> else it)
         in case va_int ps of Inl e \<Rightarrow> Inl e
            | Inr (v, ps') \<Rightarrow>
                Inr (it1\<lparr>it_str := Some (ValueToHex (if it_long it1 then v else u32_ext v))\<rparr>, attr, ps'))
      else if c = 0x67 \<or> c = 0x44 \<or> c = 0x72 then Inr (it, attr, ps)
      else if c = 0x75 then
        (case va_int ps of Inl e \<Rightarrow> Inl e
         | Inr (v, ps') \<Rightarrow>
             Inr (it\<lparr>it_str := Some (ValueToString (it_comma it) (if it_long it then v else u32_ext v))\<rparr>, attr, ps'))
      else if c = 0x64 then
        (case va_int ps of Inl e \<Rightarrow> Inl e
         | Inr (v, ps') \<Rightarrow>
             Inr (it\<lparr>it_str := Some (ValueToString (it_comma it) (if it_long it then v else i32_ext v))\<rparr>, attr, ps'))
      else if c = 0x66 then Inl FloatNotModelled
      else if c = 0x74 then
        (case ps_args ps of [] \<Rightarrow> Inl VaArgMissing
         | VTime t # r \<Rightarrow>
             (case tts t of Inl e \<Rightarrow> Inl e
              | Inr s \<Rightarrow> Inr (it\<lparr>it_str := Some s\<rparr>, attr, ps\<lparr>ps_args := r\<rparr>))
         | _ # r \<Rightarrow> Inl VaArgMismatch)
      else if c = 0x6E then Inr (it, attr, PSETATTR (ps_attr_norm ps) ps)
      else if c = 0x68 then Inr (it, attr, PSETATTR (ps_attr_high ps) ps)
      else if c = 0x65 then Inr (it, attr, PSETATTR (ps_attr_err ps) ps)
      else if c = 0x4E then Inr (it, ps_attr_norm ps, ps)
      else if c = 0x48 then Inr (it, ps_attr_high ps, ps)
      else if c = 0x45 then Inr (it, ps_attr_err ps, ps)
      else Inr (it\<lparr>it_str := Some [0x3F, 0]\<rparr>, attr, ps))"

text \<open>The attribute restore after an item (lines 1086--1088).\<close>

definition end_item :: "PRINT_STATE \<Rightarrow> PRINT_STATE" where
  "end_item ps = (if ps_restore ps \<noteq> 0 then PSETATTR (ps_restore ps) ps else ps)"

text \<open>
  The two loops of \<open>_Print\<close> (lines 876--1089) as one loop over the format:
  \<open>spec = None\<close> is the outer loop, \<open>spec = Some (it, attr)\<close> the inner loop
  over a conversion specification.  Every round reads at least one character.
\<close>

function print_run ::
  "(EFI_TIME \<Rightarrow> print_error + u16 list) \<Rightarrow> (PRINT_ITEM \<times> u64) option \<Rightarrow> PRINT_STATE \<Rightarrow> print_error + PRINT_STATE" where
  "print_run tts spec ps =
     (case fmt_getc ps of
        Inl e \<Rightarrow> Inl e
      | Inr (c, ps1) \<Rightarrow>
          (case spec of
             None \<Rightarrow>
               (if c = 0 then Inr ps1
                else if c \<noteq> 0x25 then print_run tts None (PPUTC c ps1)
                else print_run tts (Some (new_item, 0)) (ps1\<lparr>ps_restore := 0\<rparr>))
           | Some (it, attr) \<Rightarrow>
               (if c = 0 then print_run tts None (end_item ps1)
                else
                  (case spec_char tts c it attr ps1 of
                     Inl e \<Rightarrow> Inl e
                   | Inr (it', attr', ps2) \<Rightarrow>
                       (case it_str it' of
                          Some s \<Rightarrow> print_run tts None (end_item (PITEM it' s ps2))
                        | None \<Rightarrow>
                            if attr' \<noteq> 0
                            then print_run tts None (end_item ((PSETATTR attr' ps2)\<lparr>ps_restore := 0\<rparr>))
                            else print_run tts (Some (it', attr')) ps2)))))"
  by pat_completeness auto

termination print_run
proof -
  have put: "ps_fmt (PPUTC c ps) = ps_fmt ps" for c ps
    by (simp add: PPUTC_def put1_def PFLUSH_def Let_def)
  have puts: "ps_fmt (pputs cs ps) = ps_fmt ps" for cs ps
    unfolding pputs_def by (induction cs arbitrary: ps) (simp_all add: put)
  have attr: "ps_fmt (PSETATTR a ps) = ps_fmt ps" for a ps
    by (simp add: PSETATTR_def PFLUSH_def Let_def)
  have item: "ps_fmt (PITEM it s ps) = ps_fmt ps" for it s ps
    by (simp add: PITEM_def Let_def puts)
  have endi: "ps_fmt (end_item ps) = ps_fmt ps" for ps
    by (simp add: end_item_def attr)
  have getc: "fmt_getc ps = Inr (c, ps1) \<Longrightarrow> length (ps_fmt ps1) < length (ps_fmt ps)" for ps c ps1
    by (auto simp: fmt_getc_def split: list.splits)
  have pw: "parse_width w xs = Inr (v, rest) \<Longrightarrow> length rest \<le> length xs" for w xs v rest
    by (induction w xs rule: parse_width.induct) (auto split: if_splits)
  have vi: "va_int ps = Inr (v, ps') \<Longrightarrow> ps_fmt ps' = ps_fmt ps" for ps v ps'
    by (auto simp: va_int_def split: list.splits va_item.splits)
  have sc: "spec_char tts c it attr ps = Inr (it', attr', ps') \<Longrightarrow> length (ps_fmt ps') \<le> length (ps_fmt ps)"
    for tts c it attr ps it' attr' ps'
    unfolding spec_char_def
    by (auto simp: Let_def attr split: if_splits sum.splits prod.splits list.splits va_item.splits
             dest: vi pw)
  show ?thesis
    by (relation "measure (\<lambda>(tts, spec, ps). length (ps_fmt ps))")
       (auto simp: put item endi attr dest!: getc sc)
qed

text \<open>\<open>_Print\<close> (lines 813--1094): reset the buffer and the count, run the
  format, flush, and return \<open>Len\<close>.\<close>

definition uPrint :: "(EFI_TIME \<Rightarrow> print_error + u16 list) \<Rightarrow> PRINT_STATE \<Rightarrow> print_error + u64 \<times> PRINT_STATE" where
  "uPrint tts ps =
     (case print_run tts None (ps\<lparr>ps_len := 0, ps_buf := []\<rparr>) of
        Inl e \<Rightarrow> Inl e
      | Inr ps' \<Rightarrow> Inr (ps_len (PFLUSH ps'), PFLUSH ps'))"

text \<open>\<open>POOL_PRINT\<close> as \<open>_SPrint\<close> uses it: the characters written so far
  (\<open>str[0..len)\<close>), \<open>maxlen\<close> and \<open>len\<close>.\<close>

record POOL_PRINT =
  spc_str :: "u16 list"
  spc_maxlen :: u64
  spc_len :: u64

text \<open>\<open>_SPrint\<close> (lines 167--207): append the flushed buffer up to its first
  0, truncated at \<open>maxlen\<close>.\<close>

definition SPrint_out :: "POOL_PRINT \<Rightarrow> u16 list \<Rightarrow> POOL_PRINT" where
  "SPrint_out spc buf =
     (let len = of_nat (length (takeWhile (\<lambda>c. c \<noteq> 0) buf)) :: u64;
          len' = (if spc_maxlen spc < spc_len spc + len then spc_maxlen spc - spc_len spc else len)
      in spc\<lparr>spc_str := spc_str spc @ take (unat len') buf, spc_len := spc_len spc + len'\<rparr>)"

primrec spc_event :: "POOL_PRINT \<Rightarrow> print_event \<Rightarrow> POOL_PRINT" where
  "spc_event spc (Output b) = SPrint_out spc b"
| "spc_event spc (SetAttrCall a) = spc"

text \<open>\<open>_PoolCatPrint\<close> with the \<open>_SPrint\<close> callback and \<open>VSPrint\<close>
  (lines 255--318): a zeroed \<open>PRINT_STATE\<close> (no \<open>SetAttr\<close> callback, all
  attributes 0); \<open>maxlen = StrSize / sizeof(CHAR16) - 1\<close> in \<open>UINTN\<close>, so
  \<open>StrSize = 0\<close> means no limit.  The result is \<open>spc.len\<close> and the string.\<close>

definition zero_state :: "u16 list \<Rightarrow> va_item list \<Rightarrow> PRINT_STATE" where
  "zero_state fmt args =
     \<lparr>ps_fmt = fmt, ps_args = args, ps_buf = [], ps_out = [], ps_len = 0, ps_attr = 0, ps_restore = 0,
      ps_attr_norm = 0, ps_attr_high = 0, ps_attr_err = 0, ps_has_setattr = False\<rparr>"

definition VSPrint ::
  "(EFI_TIME \<Rightarrow> print_error + u16 list) \<Rightarrow> u64 \<Rightarrow> u16 list \<Rightarrow> va_item list \<Rightarrow> print_error + u64 \<times> u16 list" where
  "VSPrint tts strsize fmt args =
     (case uPrint tts (zero_state fmt args) of
        Inl e \<Rightarrow> Inl e
      | Inr (_, ps) \<Rightarrow>
          (let spc = foldl spc_event \<lparr>spc_str = [], spc_maxlen = strsize div 2 - 1, spc_len = 0\<rparr> (ps_out ps)
           in Inr (spc_len spc, spc_str spc)))"

text \<open>
  \<open>TimeToString\<close> (lines 716--748): the 12-hour clock and the two-digit year,
  printed through \<open>SPrint\<close> with no size limit.  The nested \<open>_Print\<close> never
  meets a \<open>%t\<close>, so its \<open>TimeToString\<close> argument is never called.
\<close>

definition time_fields :: "EFI_TIME \<Rightarrow> u64 \<times> u16" where
  "time_fields t =
     (if Hour t = 0 then (12, 0x61)
      else if 12 \<le> Hour t then (if 13 \<le> Hour t then ucast (Hour t) - 12 else ucast (Hour t), 0x70)
      else (ucast (Hour t), 0x61))"

definition time_fmt :: "u16 list" where
  "time_fmt = L ''%02d/%02d/%02d  %02d:%02d%c'' @ [0]"

definition TimeToString :: "EFI_TIME \<Rightarrow> print_error + u16 list" where
  "TimeToString t =
     (case time_fields t of (hr, ampm) \<Rightarrow>
        map_sum id snd
          (VSPrint (\<lambda>_. Inr []) 0 time_fmt
             [VInt (ucast (Month t)), VInt (ucast (Day t)), VInt (ucast (Year t mod 100)), VInt hr,
              VInt (ucast (Minute t)), VInt (ucast ampm)]))"

text \<open>\<open>SPrint\<close> (lines 320--356).\<close>

definition SPrint :: "u64 \<Rightarrow> u16 list \<Rightarrow> va_item list \<Rightarrow> print_error + u64 \<times> u16 list" where
  "SPrint strsize fmt args = VSPrint TimeToString strsize fmt args"

text \<open>
  The text a \<open>PRINT_STATE\<close> has produced: the flushed chunks followed by the
  buffer; \<open>PPUTC\<close> sends \<open>crlf c\<close> for \<open>c\<close>.  A well-formed state has a
  buffer below \<open>End\<close> and chunks no longer than the buffer.
\<close>

primrec out_text :: "print_event \<Rightarrow> u16 list" where
  "out_text (Output b) = b"
| "out_text (SetAttrCall a) = []"

definition text_of :: "PRINT_STATE \<Rightarrow> u16 list" where
  "text_of ps = concat (map out_text (ps_out ps)) @ ps_buf ps"

definition crlf :: "u16 \<Rightarrow> u16 list" where
  "crlf c = (if c = 0x0A then [0x0D, 0x0A] else [c])"

definition buf_ok :: "PRINT_STATE \<Rightarrow> bool" where
  "buf_ok ps \<longleftrightarrow> length (ps_buf ps) < PRINT_STRING_LEN - 1 \<and>
     (\<forall>e\<in>set (ps_out ps). length (out_text e) \<le> PRINT_STRING_LEN - 1)"

text \<open>What \<open>%02d\<close> prints for an \<open>INT32\<close> argument: the decimal text,
  left-padded with \<open>0\<close> to two characters.\<close>

definition two_digits :: "u64 \<Rightarrow> u16 list" where
  "two_digits v = (let s = ValueToString False (i32_ext v) in replicate (2 - length s) 0x30 @ s)"

declare print_run.simps [simp del]

section \<open>Lemmas\<close>

subsection \<open>The output buffer\<close>

lemma text_of_upd [simp]:
  "text_of (ps\<lparr>ps_fmt := f\<rparr>) = text_of ps" "text_of (ps\<lparr>ps_args := a\<rparr>) = text_of ps"
  "text_of (ps\<lparr>ps_restore := r\<rparr>) = text_of ps"
  by (simp_all add: text_of_def)

lemma text_of_empty: "ps_buf ps = [] \<Longrightarrow> ps_out ps = [] \<Longrightarrow> text_of ps = []"
  by (simp add: text_of_def)

lemma text_of_PFLUSH [simp]: "text_of (PFLUSH ps) = text_of ps"
  by (simp add: text_of_def PFLUSH_def)

lemma text_of_put1 [simp]: "text_of (put1 c ps) = text_of ps @ [c]"
  by (simp add: put1_def text_of_def PFLUSH_def Let_def)

lemma text_of_PPUTC [simp]: "text_of (PPUTC c ps) = text_of ps @ crlf c"
  by (simp add: PPUTC_def crlf_def)

lemma text_of_pputs [simp]: "text_of (pputs cs ps) = text_of ps @ concat (map crlf cs)"
  unfolding pputs_def by (induction cs arbitrary: ps) simp_all

lemma text_of_PSETATTR [simp]: "text_of (PSETATTR a ps) = text_of ps"
  by (simp add: PSETATTR_def Let_def text_of_def PFLUSH_def)

lemma buf_ok_put1: "buf_ok ps \<Longrightarrow> buf_ok (put1 c ps)"
  by (auto simp: buf_ok_def put1_def PFLUSH_def Let_def PRINT_STRING_LEN_def)

lemma buf_ok_PPUTC: "buf_ok ps \<Longrightarrow> buf_ok (PPUTC c ps)"
  by (simp add: PPUTC_def buf_ok_put1)

lemma buf_ok_pputs: "buf_ok ps \<Longrightarrow> buf_ok (pputs cs ps)"
  unfolding pputs_def by (induction cs arbitrary: ps) (simp_all add: buf_ok_PPUTC)

lemma fields_PPUTC [simp]:
  "ps_fmt (PPUTC c ps) = ps_fmt ps" "ps_args (PPUTC c ps) = ps_args ps"
  "ps_restore (PPUTC c ps) = ps_restore ps"
  by (simp_all add: PPUTC_def put1_def PFLUSH_def Let_def)

lemma fields_pputs [simp]:
  "ps_fmt (pputs cs ps) = ps_fmt ps" "ps_args (pputs cs ps) = ps_args ps"
  "ps_restore (pputs cs ps) = ps_restore ps"
  unfolding pputs_def
  by (induction cs arbitrary: ps) (simp_all add: PPUTC_def put1_def PFLUSH_def Let_def)

subsection \<open>Steps of the format interpreter\<close>

lemma print_run_lit:
  assumes "ps_fmt ps = c # r" "c \<noteq> 0" "c \<noteq> 0x25"
  shows "print_run tts None ps = print_run tts None (PPUTC c (ps\<lparr>ps_fmt := r\<rparr>))"
  using assms by (subst print_run.simps) (simp add: fmt_getc_def)

lemma print_run_nul:
  assumes "ps_fmt ps = 0 # r"
  shows "print_run tts None ps = Inr (ps\<lparr>ps_fmt := r\<rparr>)"
  using assms by (subst print_run.simps) (simp add: fmt_getc_def)

lemma print_run_pct:
  assumes "ps_fmt ps = 0x25 # r"
  shows "print_run tts None ps = print_run tts (Some (new_item, 0)) (ps\<lparr>ps_fmt := r, ps_restore := 0\<rparr>)"
  using assms by (subst print_run.simps) (simp add: fmt_getc_def)

lemma end_item_0 [simp]: "ps_restore ps = 0 \<Longrightarrow> end_item ps = ps"
  by (simp add: end_item_def)

lemma PITEM_fields [simp]:
  "ps_fmt (PITEM it s ps) = ps_fmt ps" "ps_args (PITEM it s ps) = ps_args ps"
  "ps_restore (PITEM it s ps) = ps_restore ps"
  by (simp_all add: PITEM_def Let_def)

lemma print_run_02d:
  assumes "ps_fmt ps = 0x30 # 0x32 # 0x64 # r" "ps_args ps = VInt v # a"
  shows "print_run tts (Some (new_item, 0)) ps =
    print_run tts None (end_item (PITEM
      \<lparr>it_str = Some (ValueToString False (i32_ext v)), it_width = 2, it_fw = - 1, it_wparse = False,
       it_pad = 0x30, it_padbefore = True, it_comma = False, it_long = False\<rparr>
      (ValueToString False (i32_ext v)) (ps\<lparr>ps_fmt := r, ps_args := a\<rparr>)))"
  using assms
  apply (subst print_run.simps, simp add: fmt_getc_def spec_char_def new_item_def)
  apply (subst print_run.simps, simp add: fmt_getc_def spec_char_def set_wparse_def digit_char_def)
  apply (subst print_run.simps, simp add: fmt_getc_def spec_char_def va_int_def)
  done

lemma print_run_c:
  assumes "ps_fmt ps = 0x63 # r" "ps_args ps = VInt v # a"
  shows "print_run tts (Some (new_item, 0)) ps =
    print_run tts None (end_item (PITEM (new_item\<lparr>it_str := Some [ucast v, 0]\<rparr>) [ucast v, 0]
      (ps\<lparr>ps_fmt := r, ps_args := a\<rparr>)))"
  using assms by (subst print_run.simps) (simp add: fmt_getc_def spec_char_def va_int_def new_item_def)

lemma item_len_full: "length s \<le> n \<Longrightarrow> item_len s n = length (takeWhile (\<lambda>c. c \<noteq> 0) s)"
  by (induction s arbitrary: n) (auto simp: Suc_le_eq)

lemma take_takeWhile: "take (length (takeWhile P s)) s = takeWhile P s"
  by (induction s) auto

lemma unat_minus_one_u64: "unat (- 1 :: u64) = 18446744073709551615"
  by (simp add: unsigned_minus_1_eq_mask mask_eq_exp_minus_1)

lemma text_of_PITEM:
  assumes "it_fw it = - 1" "it_padbefore it" "length s < 2 ^ 64 - 1"
  shows "text_of (PITEM it s ps) =
    text_of ps @ concat (map crlf (replicate (unat (it_width it) - length (takeWhile (\<lambda>c. c \<noteq> 0) s)) (it_pad it)
                                   @ takeWhile (\<lambda>c. c \<noteq> 0) s))"
proof -
  let ?l = "length (takeWhile (\<lambda>c. c \<noteq> 0) s)"
  have len: "item_len s (unat (- 1 :: u64)) = ?l"
    using assms by (simp add: item_len_full unat_minus_one_u64)
  have lls: "?l \<le> length s" by (rule length_takeWhile_le)
  have ls: "unat (of_nat ?l :: u64) = ?l"
    using assms(3) lls by (simp add: unat_of_nat take_bit_nat_eq_self)
  have lt: "it_width it < of_nat ?l \<longleftrightarrow> unat (it_width it) < ?l"
    using ls by (simp add: word_less_nat_alt)
  show ?thesis
    using assms ls lt by (simp add: PITEM_def Let_def len take_takeWhile)
qed

lemma crlf_id: "0x0A \<notin> set s \<Longrightarrow> concat (map crlf s) = s"
  by (induction s) (auto simp: crlf_def)

lemma text_of_PITEM_number:
  assumes "it_fw it = - 1" "it_padbefore it" "it_pad it \<noteq> 0x0A"
  shows "text_of (PITEM it (ValueToString b v) ps) =
    text_of ps @ replicate (unat (it_width it) - length (ValueToString b v)) (it_pad it) @ ValueToString b v"
proof -
  have nz: "0 \<notin> set (ValueToString b v)" and nl: "0x0A \<notin> set (ValueToString b v)"
    using ValueToString_chars by blast+
  have tw: "takeWhile (\<lambda>c. c \<noteq> 0) (ValueToString b v) = ValueToString b v"
    using nz by (simp add: takeWhile_eq_all_conv) blast
  have l: "length (ValueToString b v) < 2 ^ 64 - 1"
    using ValueToString_length [of b v] by simp
  have "concat (map crlf (replicate n (it_pad it))) = replicate n (it_pad it)" for n
    using assms(3) by (induction n) (simp_all add: crlf_def)
  then show ?thesis using text_of_PITEM [OF assms(1,2) l, of ps] tw nl by (simp add: crlf_id)
qed

subsection \<open>The string back end\<close>

lemma not_max_less: "\<not> (- 1 :: u64) < x"
  by (simp add: not_less)

lemma SPrint_out_plain:
  assumes "0 \<notin> set b" "spc_maxlen spc = - 1" "length b < 2 ^ 64"
  shows "SPrint_out spc b = spc\<lparr>spc_str := spc_str spc @ b, spc_len := spc_len spc + of_nat (length b)\<rparr>"
proof -
  have tw: "takeWhile (\<lambda>c. c \<noteq> 0) b = b" using assms(1) by (induction b) auto
  have u: "unat (of_nat (length b) :: u64) = length b"
    using assms(3) by (simp add: unat_of_nat take_bit_nat_eq_self)
  show ?thesis using assms(2) by (simp add: SPrint_out_def Let_def tw u not_max_less)
qed

lemma foldl_spc_event:
  assumes "0 \<notin> set (concat (map out_text es))" "spc_maxlen spc = - 1"
    "length (concat (map out_text es)) < 2 ^ 64"
  shows "spc_str (foldl spc_event spc es) = spc_str spc @ concat (map out_text es) \<and>
         spc_len (foldl spc_event spc es) = spc_len spc + of_nat (length (concat (map out_text es)))"
  using assms
proof (induction es arbitrary: spc)
  case Nil
  then show ?case by simp
next
  case (Cons e es)
  show ?case
  proof (cases e)
    case (Output b)
    have "spc_event spc e = spc\<lparr>spc_str := spc_str spc @ b, spc_len := spc_len spc + of_nat (length b)\<rparr>"
      using Cons.prems Output by (simp add: SPrint_out_plain)
    then show ?thesis using Cons.IH [of "spc_event spc e"] Cons.prems Output by (simp add: algebra_simps)
  next
    case (SetAttrCall a)
    then show ?thesis using Cons.IH [of spc] Cons.prems by simp
  qed
qed

lemma VSPrint_nolimit:
  assumes "print_run tts None (zero_state fmt args) = Inr ps"
    and "0 \<notin> set (text_of ps)" and "length (text_of ps) < 2 ^ 64"
  shows "VSPrint tts 0 fmt args = Inr (of_nat (length (text_of ps)), text_of ps)"
proof -
  have z: "(zero_state fmt args)\<lparr>ps_len := 0, ps_buf := []\<rparr> = zero_state fmt args"
    by (simp add: zero_state_def)
  have t: "concat (map out_text (ps_out (PFLUSH ps))) = text_of ps"
    by (simp add: PFLUSH_def text_of_def)
  have m: "(0::u64) div 2 - 1 = - 1" by simp
  show ?thesis
    using assms foldl_spc_event [of "ps_out (PFLUSH ps)" "\<lparr>spc_str = [], spc_maxlen = - 1, spc_len = 0\<rparr>"]
    by (simp add: VSPrint_def uPrint_def z t)
qed

subsection \<open>TimeToString\<close>

lemma ucast_u16_u64_u16: "(ucast (ucast (a :: u16) :: u64) :: u16) = a"
  by (rule bit_word_eqI) (auto simp: bit_simps)

lemma new_item_fields [simp]:
  "it_fw new_item = - 1" "it_padbefore new_item" "it_width new_item = 0" "it_pad new_item = 0x20"
  by (simp_all add: new_item_def)

lemma time_fields_ampm: "time_fields t = (hr, ampm) \<Longrightarrow> ampm = 0x61 \<or> ampm = 0x70"
  by (auto simp: time_fields_def split: if_splits)

lemma two_digits_chars: "0 \<notin> set (two_digits v)"
  using ValueToString_chars by (auto simp: two_digits_def Let_def)

lemma two_digits_length: "length (two_digits v) < 2002"
  using ValueToString_length [of False "i32_ext v"] by (simp add: two_digits_def Let_def)

lemma time_run:
  assumes "ampm = 0x61 \<or> ampm = 0x70"
  shows "\<exists>ps. print_run tts None (zero_state time_fmt [VInt a, VInt b, VInt c, VInt d, VInt e, VInt (ucast ampm)]) = Inr ps \<and>
    text_of ps = two_digits a @ [0x2F] @ two_digits b @ [0x2F] @ two_digits c @ [0x20, 0x20] @
                 two_digits d @ [0x3A] @ two_digits e @ [ampm]"
proof -
  have am: "ucast (ucast ampm :: u64) \<noteq> (0 :: u16) \<and> ucast (ucast ampm :: u64) \<noteq> (0x0A :: u16)"
    using assms by (auto simp: ucast_u16_u64_u16)
  show ?thesis
    using am
    by (simp add: time_fmt_def L_def zero_state_def print_run_lit print_run_nul print_run_pct print_run_02d
        print_run_c text_of_PITEM_number text_of_PITEM crlf_def two_digits_def Let_def
        ucast_u16_u64_u16 text_of_empty)
qed

lemmas print_eval = SPrint_def VSPrint_def uPrint_def zero_state_def fmt_getc_def spec_char_def new_item_def
  L_def va_int_def PITEM_def end_item_def PFLUSH_def SPrint_out_def PPUTC_def put1_def pputs_def PSETATTR_def
  PRINT_STRING_LEN_def Let_def u32_ext_def i32_ext_def set_wparse_def digit_char_def null_str_def
  ValueToString_def ValueToHex_def dec_digits.simps hex_digits.simps ca_def unat_minus_one_u64 word_sless_alt
  print_run.simps

section \<open>Properties of the print engine\<close>

text \<open>
  The output buffer is transparent and bounded: \<open>PPUTC\<close> over a string
  appends the string to the produced text, with \<open>CR\<close> before every \<open>LF\<close>,
  the buffer stays below \<open>End\<close>, and no flushed chunk is longer than
  \<open>PRINT_STRING_LEN - 1\<close>.
\<close>

theorem pputs_text:
  assumes "buf_ok ps"
  shows "buf_ok (pputs cs ps) \<and> text_of (pputs cs ps) = text_of ps @ concat (map crlf cs)"
  using buf_ok_pputs [OF assms] by simp

theorem pputs_text_witness:
  "buf_ok (pputs (L ''a'' @ [0x0A]) (zero_state [0] [])) \<and>
   text_of (pputs (L ''a'' @ [0x0A]) (zero_state [0] [])) = L ''a'' @ [0x0D, 0x0A]"
proof -
  have b: "buf_ok (zero_state [0] [])" by (simp add: buf_ok_def zero_state_def PRINT_STRING_LEN_def)
  show ?thesis using pputs_text [OF b, of "L ''a'' @ [0x0A]"]
    by (simp add: text_of_empty zero_state_def crlf_def L_def)
qed



text \<open>
  The conversions \<open>%g\<close>, \<open>%D\<close> and \<open>%r\<close>, whose bodies are commented
  out, leave the specification open, so the next format character is read as
  part of it: \<open>%gd\<close> prints its argument as a decimal number.
\<close>

theorem SPrint_g_consumes: "SPrint 0 (L ''%gd'' @ [0]) [VInt 5] = Inr (1, L ''5'')"
  by (simp add: print_eval)

text \<open>
  C20.  \<open>TimeToString\<close> prints \<open>MM/DD/YY  HH:MMx\<close>: every field through
  \<open>%02d\<close> (the decimal text padded with \<open>0\<close> to two characters), the year
  modulo 100, the 12-hour clock of \<open>time_fields\<close> and \<open>a\<close> or \<open>p\<close>.
\<close>

theorem TimeToString_spec:
  "TimeToString t =
     (case time_fields t of (hr, ampm) \<Rightarrow>
        Inr (two_digits (ucast (Month t)) @ [0x2F] @ two_digits (ucast (Day t)) @ [0x2F] @
             two_digits (ucast (Year t mod 100)) @ [0x20, 0x20] @ two_digits hr @ [0x3A] @
             two_digits (ucast (Minute t)) @ [ampm]))"
proof -
  obtain hr ampm where tf: "time_fields t = (hr, ampm)" by (cases "time_fields t")
  have am: "ampm = 0x61 \<or> ampm = 0x70" using tf by (rule time_fields_ampm)
  let ?T = "two_digits (ucast (Month t)) @ [0x2F] @ two_digits (ucast (Day t)) @ [0x2F] @
             two_digits (ucast (Year t mod 100)) @ [0x20, 0x20] @ two_digits hr @ [0x3A] @
             two_digits (ucast (Minute t)) @ [ampm]"
  obtain ps where run: "print_run (\<lambda>_. Inr []) None (zero_state time_fmt
        [VInt (ucast (Month t)), VInt (ucast (Day t)), VInt (ucast (Year t mod 100)), VInt hr,
         VInt (ucast (Minute t)), VInt (ucast ampm)]) = Inr ps" and tx: "text_of ps = ?T"
    using time_run [OF am] by blast
  have nz: "0 \<notin> set ?T" using two_digits_chars am by auto
  have ln: "length ?T < 2 ^ 64"
    using two_digits_length [of "ucast (Month t)"] two_digits_length [of "ucast (Day t)"]
      two_digits_length [of "ucast (Year t mod 100)"] two_digits_length [of hr]
      two_digits_length [of "ucast (Minute t)"] by simp
  show ?thesis
    using VSPrint_nolimit [OF run] nz ln tx tf by (simp add: TimeToString_def)
qed

text \<open>
  For a valid hour (below 24) the printed hour is between 1 and 12,
  and the suffix is \<open>p\<close> exactly from 12 o'clock on.
\<close>

theorem time_fields_hour:
  assumes "Hour t < 24" "time_fields t = (hr, ampm)"
  shows "1 \<le> unat hr \<and> unat hr \<le> 12 \<and> (ampm = 0x70 \<longleftrightarrow> 12 \<le> unat (Hour t))"
proof -
  have h8: "unat (Hour t) < 2 ^ LENGTH(8)" by (rule unsigned_less)
  then have h: "unat (ucast (Hour t) :: u64) = unat (Hour t)"
    by (simp add: unsigned_ucast_eq take_bit_nat_eq_self)
  have lt: "unat (Hour t) < 24" using assms(1) by (simp add: word_less_nat_alt)
  show ?thesis
  proof (cases "Hour t = 0")
    case True
    then show ?thesis using assms(2) by (simp add: time_fields_def)
  next
    case False
    then have pos: "0 < unat (Hour t)" by (simp add: unat_gt_0)
    show ?thesis
    proof (cases "12 \<le> unat (Hour t)")
      case ge: True
      show ?thesis
      proof (cases "13 \<le> unat (Hour t)")
        case True
        have "unat (ucast (Hour t) - 12 :: u64) = unat (Hour t) - 12"
          using True h by (simp add: unat_sub word_le_nat_alt)
        then show ?thesis using assms(2) True ge False lt
          by (auto simp: time_fields_def word_le_nat_alt)
      next
        case False
        then show ?thesis using assms(2) ge h \<open>Hour t \<noteq> 0\<close>
          by (auto simp: time_fields_def word_le_nat_alt)
      qed
    next
      case False
      then show ?thesis using assms(2) h pos \<open>Hour t \<noteq> 0\<close>
        by (auto simp: time_fields_def word_le_nat_alt)
    qed
  qed
qed

theorem time_fields_hour_witness:
  "time_fields \<lparr>Year = 2024, Month = 3, Day = 7, Hour = 13, Minute = 5\<rparr> = (1, 0x70) \<and>
   1 \<le> unat (1 :: u64) \<and> unat (1 :: u64) \<le> 12"
proof -
  have tf: "time_fields \<lparr>Year = 2024, Month = 3, Day = 7, Hour = 13, Minute = 5\<rparr> = (1, 0x70)"
    by (simp add: time_fields_def)
  have "Hour \<lparr>Year = 2024, Month = 3, Day = 7, Hour = 13, Minute = 5\<rparr> < 24" by simp
  then show ?thesis using time_fields_hour [OF _ tf] tf by simp
qed

end
