(* ===== verification/Firmware.thy ===== *)
theory Firmware
  imports NumberFormat
begin

unbundle bit_operations_syntax

text \<open>
  The firmware interface of the loader (\<open>src/JosPkg/Application/Loader/Loader.c\<close>):
  the status codes its boot-service calls return, \<open>EFI_ERROR\<close>, the page
  arithmetic of the UEFI headers, and pool buffers whose cells are uninitialised
  until written.  \<open>GoTime\<close> either returns a status or makes a write outside a
  buffer it allocated; \<open>loader_stop\<close> names both ways of leaving a stage.
\<close>

section \<open>Definitions\<close>

text \<open>The statuses the loader tests for (\<open>EFI_STATUS\<close> values).\<close>

datatype fw_status = FwSuccess | FwInvalidParameter | FwBufferTooSmall | FwNotFound
  | FwOutOfResources | FwDeviceError | FwUnsupported | FwAlreadyStarted

text \<open>\<open>EFI_ERROR(s)\<close>: the high bit of the status is set, i.e. it is not success.\<close>

definition EFI_ERROR :: "fw_status \<Rightarrow> bool" where
  "EFI_ERROR s = (s \<noteq> FwSuccess)"

text \<open>The first failing status of a sequence of calls each followed by \<open>if(EFI_ERROR) return\<close>.\<close>

definition first_error :: "fw_status list \<Rightarrow> fw_status option" where
  "first_error sts = find EFI_ERROR sts"

text \<open>
  How a stage of \<open>GoTime\<close> ends when it does not continue: a \<open>return\<close> of a
  status, or a write past the end of a pool buffer (heap corruption).
\<close>

datatype loader_stop = Returns fw_status | WildWrite

text \<open>\<open>EFI_PAGE_SHIFT\<close> and \<open>EFI_SIZE_TO_PAGES\<close> (UEFI headers).\<close>

definition EFI_PAGE_SHIFT :: nat where
  "EFI_PAGE_SHIFT = 12"

definition EFI_SIZE_TO_PAGES :: "u64 \<Rightarrow> u64" where
  "EFI_SIZE_TO_PAGES a = drop_bit EFI_PAGE_SHIFT a + (if a AND 0xFFF \<noteq> 0 then 1 else 0)"

text \<open>\<open>StrSize\<close> (EDK library): the bytes of a string up to and including its terminator.\<close>

definition StrSize :: "u16 list \<Rightarrow> nat" where
  "StrSize str = 2 * (length (takeWhile (\<lambda>c. c \<noteq> 0) str) + 1)"

text \<open>
  A buffer from \<open>AllocatePool\<close>: its cells, \<open>None\<close> while uninitialised.
  \<open>pool_write i v b\<close> is \<open>b[i] = v\<close>; an index past the allocation is a wild write.
\<close>

type_synonym 'a pool = "'a option list"

definition alloc_pool :: "nat \<Rightarrow> 'a pool" where
  "alloc_pool n = replicate n None"

definition pool_write :: "nat \<Rightarrow> 'a \<Rightarrow> 'a pool \<Rightarrow> loader_stop + 'a pool" where
  "pool_write i v b = (if i < length b then Inr (b[i := Some v]) else Inl WildWrite)"

text \<open>A sequence of writes, stopping at the first wild one.\<close>

fun pool_writes :: "(nat \<times> 'a) list \<Rightarrow> 'a pool \<Rightarrow> loader_stop + 'a pool" where
  "pool_writes [] b = Inr b"
| "pool_writes ((i, v) # ws) b =
     (case pool_write i v b of Inl e \<Rightarrow> Inl e | Inr b' \<Rightarrow> pool_writes ws b')"

text \<open>Writes of a string to consecutive cells from \<open>k\<close>.\<close>

definition enum_writes :: "nat \<Rightarrow> 'a list \<Rightarrow> (nat \<times> 'a) list" where
  "enum_writes k xs = zip [k..<k + length xs] xs"

section \<open>Lemmas\<close>

lemma length_pool_write:
  "pool_write i v b = Inr b' \<Longrightarrow> length b' = length b"
  by (auto simp: pool_write_def split: if_splits)

lemma pool_writes_wild:
  "(j, v) \<in> set ws \<Longrightarrow> length b \<le> j \<Longrightarrow> pool_writes ws b = Inl WildWrite"
proof (induction ws arbitrary: b)
  case Nil
  then show ?case by simp
next
  case (Cons w ws)
  obtain i x where w: "w = (i, x)" by fastforce
  show ?case
  proof (cases "i < length b")
    case True
    then have "pool_writes ws (b[i := Some x]) = Inl WildWrite"
      using Cons w by (cases "(j, v) = w") auto
    then show ?thesis using True w by (simp add: pool_write_def)
  next
    case False
    then show ?thesis using w by (simp add: pool_write_def)
  qed
qed

lemma enum_writes_Cons [simp]:
  "enum_writes k (x # xs) = (k, x) # enum_writes (Suc k) xs"
  unfolding enum_writes_def by (subst upt_rec) simp

lemma enum_writes_Nil [simp]: "enum_writes k [] = []"
  by (simp add: enum_writes_def)

lemma pool_writes_enum:
  "k + length xs \<le> length b \<Longrightarrow>
   pool_writes (enum_writes k xs) b = Inr (take k b @ map Some xs @ drop (k + length xs) b)"
proof (induction xs arbitrary: k b)
  case Nil
  then show ?case by simp
next
  case (Cons x xs)
  then have k: "k < length b" by simp
  have "pool_writes (enum_writes (Suc k) xs) (b[k := Some x]) =
        Inr (take (Suc k) (b[k := Some x]) @ map Some xs @ drop (Suc k + length xs) (b[k := Some x]))"
    using Cons by simp
  also have "take (Suc k) (b[k := Some x]) = take k b @ [Some x]"
    using k by (simp add: take_Suc_conv_app_nth)
  also have "drop (Suc k + length xs) (b[k := Some x]) = drop (k + length (x # xs)) b"
    by simp
  finally show ?case using k by (simp add: pool_write_def)
qed

lemma pool_writes_alloc:
  "pool_writes (enum_writes 0 xs) (alloc_pool (Suc (length xs))) = Inr (map Some xs @ [None])"
  by (simp add: pool_writes_enum alloc_pool_def del: replicate.simps(2)) (simp add: numeral_2_eq_2)

lemma pool_write_last [simp]:
  "length xs = n \<Longrightarrow> pool_write n v (xs @ [y]) = Inr (xs @ [Some v])"
  by (auto simp: pool_write_def list_update_append)

lemma alloc_pool_snoc: "alloc_pool (Suc n) = replicate n None @ [None]"
  by (simp add: alloc_pool_def replicate_append_same)

end
