(* ===== verification/KernelCmd.thy ===== *)
theory KernelCmd
  imports Firmware
begin

text \<open>
  The first part of \<open>GoTime\<close> (\<open>src/JosPkg/Application/Loader/Loader.c\<close>) that
  computes anything: the path of \<open>Kernel64.txt\<close> next to the boot image
  (lines 132--169) and the parse of that file into the kernel path and the kernel
  command line (lines 268--391).  The file is the list of its \<open>FileSize >> 1\<close>
  UTF-16 units (\<open>KernelcmdArray\<close>); the two output strings are pool buffers whose
  cells stay uninitialised unless the parse writes them.
\<close>

section \<open>Definitions\<close>

abbreviation LF :: u16 where "LF \<equiv> 0x0A"
abbreviation CR :: u16 where "CR \<equiv> 0x0D"
abbreviation SP :: u16 where "SP \<equiv> 0x20"
abbreviation BSLASH :: u16 where "BSLASH \<equiv> 0x5C"

text \<open>\<open>UTF16_BOM_LE\<close> and \<open>UTF16_BOM_BE\<close>: the byte order mark read as a \<open>UINT16\<close>.\<close>

definition UTF16_BOM_LE :: u16 where "UTF16_BOM_LE = 0xFEFF"
definition UTF16_BOM_BE :: u16 where "UTF16_BOM_BE = 0xFFFE"

text \<open>
  The scan of \<open>BootFilePath\<close> (lines 132--142): \<open>n\<close> is \<open>BootFilePathLength\<close>, \<open>p\<close>
  is \<open>TxtFilePathPrefixLength\<close>, the index of the last backslash.  A path without
  terminator is read past its end (\<open>None\<close>).
\<close>

fun prefix_scan :: "u16 list \<Rightarrow> nat \<Rightarrow> nat \<Rightarrow> (nat \<times> nat) option" where
  "prefix_scan [] n p = None"
| "prefix_scan (c # cs) n p =
     (if c = 0 then Some (n, p) else prefix_scan cs (Suc n) (if c = BSLASH then n else p))"

definition TxtFileName :: "u16 list" where
  "TxtFileName = L ''Kernel64.txt'' @ [0]"

text \<open>
  Lines 143--169: the prefix length is one more than the index of the last
  backslash; \<open>TxtFilePath\<close> is that many units of the boot path followed by
  \<open>TxtFileName\<close> with its terminator.
\<close>

definition txt_file_path :: "u16 list \<Rightarrow> u16 list option" where
  "txt_file_path bp = (case prefix_scan bp 0 0 of
      None \<Rightarrow> None
    | Some (len, pre) \<Rightarrow> Some (take (pre + 1) bp @ TxtFileName))"

text \<open>
  The format check (lines 268--292): the first unit must be the little-endian
  byte order mark.  On either failure the code returns \<open>GoTimeStatus\<close>, which
  still holds the successful status of the preceding \<open>Read\<close>.  A file with no
  unit at all is treated as one without a byte order mark.
\<close>

datatype bom_error = BomWrongEndianness | BomMissing

definition bom_check :: "u16 list \<Rightarrow> bom_error option" where
  "bom_check a = (case a of
      [] \<Rightarrow> Some BomMissing
    | c # _ \<Rightarrow> if c = UTF16_BOM_LE then None
              else if c = UTF16_BOM_BE then Some BomWrongEndianness else Some BomMissing)"

text \<open>
  The first loop (lines 301--322): from unit 1, count the non-space units up to
  the first \<open>LF\<close> or \<open>CR\<close>; the result is \<open>(FirstLineLength, KernelPathSize)\<close>
  before the scaling of line 325.  \<open>FirstLineLength\<close> stays 0 when the file has no
  line end.
\<close>

function first_line :: "u16 list \<Rightarrow> nat \<Rightarrow> nat \<Rightarrow> nat \<times> nat" where
  "first_line a i k =
     (if i < length a then
        if a ! i = LF then (i + 1, k)
        else if a ! i = CR then (i + 2, k)
        else first_line a (Suc i) (if a ! i \<noteq> SP then Suc k else k)
      else (0, k))"
  by pat_completeness auto

termination first_line
  by (relation "measure (\<lambda>(a, i, k). length a - i)") auto

text \<open>The second loop (lines 334--342): the length of the command line.\<close>

function cmdline_len :: "u16 list \<Rightarrow> nat \<Rightarrow> nat \<Rightarrow> nat" where
  "cmdline_len a j c =
     (if j < length a then
        if a ! j = LF \<or> a ! j = CR then c else cmdline_len a (Suc j) (Suc c)
      else c)"
  by pat_completeness auto

termination cmdline_len
  by (relation "measure (\<lambda>(a, j, c). length a - j)") auto

text \<open>
  The copy of the kernel path (lines 367--378): unit \<open>i\<close> goes to
  \<open>KernelPath[i-1]\<close>, spaces are skipped without closing the gap.
\<close>

function path_copy :: "u16 list \<Rightarrow> nat \<Rightarrow> nat \<Rightarrow> u16 pool \<Rightarrow> loader_stop + u16 pool" where
  "path_copy a fl i b =
     (if i < fl then
        if a ! i = LF \<or> a ! i = CR then Inr b
        else if a ! i \<noteq> SP then
          (case pool_write (i - 1) (a ! i) b of
             Inl e \<Rightarrow> Inl e
           | Inr b' \<Rightarrow> path_copy a fl (Suc i) b')
        else path_copy a fl (Suc i) b
      else Inr b)"
  by pat_completeness auto

termination path_copy
  by (relation "measure (\<lambda>(a, fl, i, b). fl - i)") auto

text \<open>The copy of the command line (lines 382--390): unit \<open>j\<close> goes to \<open>Cmdline[j-FirstLineLength]\<close>.\<close>

function cmdline_copy :: "u16 list \<Rightarrow> nat \<Rightarrow> nat \<Rightarrow> u16 pool \<Rightarrow> loader_stop + u16 pool" where
  "cmdline_copy a fl j b =
     (if j < length a then
        if a ! j = LF \<or> a ! j = CR then Inr b
        else
          (case pool_write (j - fl) (a ! j) b of
             Inl e \<Rightarrow> Inl e
           | Inr b' \<Rightarrow> cmdline_copy a fl (Suc j) b')
      else Inr b)"
  by pat_completeness auto

termination cmdline_copy
  by (relation "measure (\<lambda>(a, fl, j, b). length a - j)") auto

text \<open>
  Lines 298--391 after the format check: the two lengths, the two pool buffers
  of \<open>KernelPathSize\<close> and \<open>CmdlineSize\<close> bytes, the two copies and the two
  terminators.  The result is \<open>(KernelPath, Cmdline, KernelPathSize, CmdlineSize)\<close>.
\<close>

definition KernelcmdParse ::
  "u16 list \<Rightarrow> loader_stop + u16 pool \<times> u16 pool \<times> nat \<times> nat" where
  "KernelcmdParse a =
     (case first_line a 1 0 of (fl, kp) \<Rightarrow>
      let cl = cmdline_len a fl 0 in
      (case path_copy a fl 1 (alloc_pool (kp + 1)) of
         Inl e \<Rightarrow> Inl e
       | Inr p \<Rightarrow>
         (case pool_write kp 0 p of
            Inl e \<Rightarrow> Inl e
          | Inr p' \<Rightarrow>
            (case cmdline_copy a fl fl (alloc_pool (cl + 1)) of
               Inl e \<Rightarrow> Inl e
             | Inr c \<Rightarrow>
               (case pool_write cl 0 c of
                  Inl e \<Rightarrow> Inl e
                | Inr c' \<Rightarrow> Inr (p', c', (kp + 1) * 2, (cl + 1) * 2))))))"

text \<open>
  Lines 255--391 as a stage of \<open>GoTime\<close>: \<open>rd\<close> is the status of the \<open>Read\<close> of
  the file, \<open>ap\<close> and \<open>ac\<close> those of the \<open>AllocatePool\<close> calls for the two
  strings; a failing call returns its status.
\<close>

definition kernelcmd_stage ::
  "fw_status \<Rightarrow> fw_status \<Rightarrow> fw_status \<Rightarrow> u16 list \<Rightarrow>
   loader_stop + u16 pool \<times> u16 pool \<times> nat \<times> nat" where
  "kernelcmd_stage rd ap ac a =
     (if EFI_ERROR rd then Inl (Returns rd)
      else case bom_check a of
        Some _ \<Rightarrow> Inl (Returns rd)
      | None \<Rightarrow>
          if EFI_ERROR ap then Inl (Returns ap)
          else if EFI_ERROR ac then Inl (Returns ac)
          else KernelcmdParse a)"

text \<open>The writes the path copy makes for the units \<open>p\<close> starting at index \<open>i\<close>.\<close>

fun path_writes :: "nat \<Rightarrow> u16 list \<Rightarrow> (nat \<times> u16) list" where
  "path_writes i [] = []"
| "path_writes i (x # xs) = (if x \<noteq> SP then [(i - 1, x)] else []) @ path_writes (Suc i) xs"

section \<open>Lemmas\<close>

declare first_line.simps [simp del] cmdline_len.simps [simp del]
  path_copy.simps [simp del] cmdline_copy.simps [simp del]

lemma prefix_scan_skip:
  "0 \<notin> set d \<Longrightarrow> \<exists>p'. prefix_scan (d @ r) n p = prefix_scan r (n + length d) p'"
proof (induction d arbitrary: n p)
  case Nil
  then show ?case by auto
next
  case (Cons c d)
  then obtain p' where "prefix_scan (d @ r) (Suc n) (if c = BSLASH then n else p) =
                        prefix_scan r (Suc n + length d) p'"
    by fastforce
  then show ?case using Cons.prems by auto
qed

lemma prefix_scan_last:
  "0 \<notin> set f \<Longrightarrow> BSLASH \<notin> set f \<Longrightarrow> prefix_scan (f @ 0 # r) n p = Some (n + length f, p)"
  by (induction f arbitrary: n) auto

lemma prefix_scan_path:
  assumes "0 \<notin> set d" "0 \<notin> set f" "BSLASH \<notin> set f"
  shows "prefix_scan (d @ BSLASH # f @ 0 # r) 0 0 = Some (length d + 1 + length f, length d)"
proof -
  obtain p' where "prefix_scan (d @ BSLASH # f @ 0 # r) 0 0 = prefix_scan (BSLASH # f @ 0 # r) (length d) p'"
    using prefix_scan_skip [OF assms(1), of "BSLASH # f @ 0 # r" 0 0] by auto
  then show ?thesis using assms(2,3) by (simp add: prefix_scan_last)
qed

text \<open>The path copy over a first line \<open>p\<close> that ends at a line end.\<close>

lemma path_copy_line:
  assumes "LF \<notin> set p" "CR \<notin> set p" "c = LF \<or> c = CR" "length pre + length p < fl"
  shows "path_copy (pre @ p @ c # r) fl (length pre) b = pool_writes (path_writes (length pre) p) b"
  using assms
proof (induction p arbitrary: pre b)
  case Nil
  then show ?case by (subst path_copy.simps) auto
next
  case (Cons x p)
  have IH: "path_copy ((pre @ [x]) @ p @ c # r) fl (length (pre @ [x])) b' =
            pool_writes (path_writes (length (pre @ [x])) p) b'" for b'
    using Cons.IH [of "pre @ [x]"] Cons.prems by simp
  have x: "x \<noteq> LF" "x \<noteq> CR" "(pre @ x # p @ c # r) ! length pre = x"
    using Cons.prems by (auto simp: nth_append)
  show ?case
  proof (cases "x = SP")
    case True
    then show ?thesis using IH x Cons.prems(4)
      by (subst path_copy.simps) simp
  next
    case False
    then show ?thesis using IH x Cons.prems(4)
      by (subst path_copy.simps) (simp split: sum.split)
  qed
qed

lemma path_writes_nospace:
  "SP \<notin> set p \<Longrightarrow> path_writes (Suc k) p = enum_writes k p"
  by (induction p arbitrary: k) auto

lemma path_writes_snoc:
  "x \<noteq> SP \<Longrightarrow> (i + length p - 1, x) \<in> set (path_writes i (p @ [x]))"
proof (induction p arbitrary: i)
  case Nil
  then show ?case by simp
next
  case (Cons y p)
  then have "(Suc i + length p - 1, x) \<in> set (path_writes (Suc i) (p @ [x]))" by blast
  then show ?case by simp
qed

lemma first_line_line:
  assumes "LF \<notin> set p" "CR \<notin> set p" "c = LF \<or> c = CR"
  shows "first_line (pre @ p @ c # r) (length pre) k =
           ((if c = LF then 1 else 2) + length pre + length p, k + length (filter (\<lambda>x. x \<noteq> SP) p))"
  using assms
proof (induction p arbitrary: pre k)
  case Nil
  then show ?case by (subst first_line.simps) auto
next
  case (Cons x p)
  have IH: "first_line ((pre @ [x]) @ p @ c # r) (length (pre @ [x])) k' =
            ((if c = LF then 1 else 2) + length (pre @ [x]) + length p,
             k' + length (filter (\<lambda>x. x \<noteq> SP) p))" for k'
    using Cons.IH [of "pre @ [x]"] Cons.prems by simp
  have x: "x \<noteq> LF" "x \<noteq> CR" "(pre @ x # p @ c # r) ! length pre = x"
    using Cons.prems by (auto simp: nth_append)
  show ?case using IH x by (subst first_line.simps) simp
qed

lemma first_line_none:
  "LF \<notin> set (drop i a) \<Longrightarrow> CR \<notin> set (drop i a) \<Longrightarrow>
   first_line a i k = (0, k + length (filter (\<lambda>x. x \<noteq> SP) (drop i a)))"
proof (induction a i k rule: first_line.induct)
  case (1 a i k)
  show ?case
  proof (cases "i < length a")
    case True
    then have d: "drop i a = a ! i # drop (Suc i) a" by (simp add: Cons_nth_drop_Suc)
    then show ?thesis using 1 True by (subst first_line.simps) auto
  next
    case False
    then show ?thesis by (subst first_line.simps) simp
  qed
qed

lemma cmdline_len_line:
  assumes "LF \<notin> set q" "CR \<notin> set q" "r = [] \<or> hd r = LF \<or> hd r = CR"
  shows "cmdline_len (pre @ q @ r) (length pre) c = c + length q"
  using assms
proof (induction q arbitrary: pre c)
  case Nil
  then show ?case by (subst cmdline_len.simps) (auto simp: neq_Nil_conv)
next
  case (Cons x q)
  have IH: "cmdline_len ((pre @ [x]) @ q @ r) (length (pre @ [x])) c' = c' + length q" for c'
    using Cons.IH [of "pre @ [x]"] Cons.prems by simp
  have x: "x \<noteq> LF" "x \<noteq> CR" "(pre @ x # q @ r) ! length pre = x"
    using Cons.prems by (auto simp: nth_append)
  show ?case using IH x by (subst cmdline_len.simps) simp
qed

lemma cmdline_copy_line:
  assumes "LF \<notin> set q" "CR \<notin> set q" "r = [] \<or> hd r = LF \<or> hd r = CR" "fl \<le> length pre"
  shows "cmdline_copy (pre @ q @ r) fl (length pre) b = pool_writes (enum_writes (length pre - fl) q) b"
  using assms
proof (induction q arbitrary: pre b)
  case Nil
  then show ?case by (subst cmdline_copy.simps) (auto simp: neq_Nil_conv)
next
  case (Cons x q)
  have IH: "cmdline_copy ((pre @ [x]) @ q @ r) fl (length (pre @ [x])) b' =
            pool_writes (enum_writes (length (pre @ [x]) - fl) q) b'" for b'
    using Cons.IH [of "pre @ [x]"] Cons.prems by simp
  have x: "x \<noteq> LF" "x \<noteq> CR" "(pre @ x # q @ r) ! length pre = x"
    using Cons.prems by (auto simp: nth_append)
  have s: "Suc (length pre - fl) = length pre + 1 - fl" using Cons.prems(4) by simp
  show ?case using IH x s by (subst cmdline_copy.simps) (simp split: sum.split)
qed

lemma filter_nonspace_id: "SP \<notin> set p \<Longrightarrow> filter (\<lambda>x. x \<noteq> SP) p = p"
  by (induction p) auto

lemma KernelcmdParse_lines:
  assumes "SP \<notin> set p" "LF \<notin> set p" "CR \<notin> set p" "LF \<notin> set q" "CR \<notin> set q"
    and "eol = [LF] \<or> eol = [CR, LF]" and "r = [] \<or> hd r = LF \<or> hd r = CR"
  shows "KernelcmdParse (bom # p @ eol @ q @ r) =
           Inr (map Some p @ [Some 0], map Some q @ [Some 0], 2 * (length p + 1), 2 * (length q + 1))"
proof -
  obtain c rest where e: "eol = c # rest" "c = LF \<or> c = CR"
    and len: "(if c = LF then 1 else 2) = length eol"
    using assms(6) by auto
  have a: "bom # p @ eol @ q @ r = [bom] @ p @ c # (rest @ q @ r)" using e by simp
  have fl: "first_line (bom # p @ eol @ q @ r) 1 0 = (1 + length p + length eol, length p)"
    using first_line_line [of p c "[bom]" "rest @ q @ r" 0] assms(1-3) e(2) len
    unfolding a by (simp add: filter_nonspace_id)
  have a2: "bom # p @ eol @ q @ r = (bom # p @ eol) @ q @ r" by simp
  have cl: "cmdline_len (bom # p @ eol @ q @ r) (1 + length p + length eol) 0 = length q"
    using cmdline_len_line [of q r "bom # p @ eol" 0] assms(4,5,7) unfolding a2 by simp
  have pc: "path_copy (bom # p @ eol @ q @ r) (1 + length p + length eol) 1 (alloc_pool (length p + 1)) =
            Inr (map Some p @ [None])"
    using path_copy_line [of p c "[bom]" "1 + length p + length eol" "rest @ q @ r"] assms(1-3) e len
    unfolding a by (simp add: path_writes_nospace pool_writes_alloc)
  have cc: "cmdline_copy (bom # p @ eol @ q @ r) (1 + length p + length eol) (1 + length p + length eol)
              (alloc_pool (length q + 1)) = Inr (map Some q @ [None])"
    using cmdline_copy_line [of q r "1 + length p + length eol" "bom # p @ eol"] assms(4,5,7)
    unfolding a2 by (simp add: pool_writes_alloc)
  show ?thesis using fl cl pc cc by (simp add: KernelcmdParse_def)
qed

section \<open>Properties\<close>

text \<open>
  C22.  Round trip of \<open>Kernel64.txt\<close>: for a file made of the byte order mark,
  a kernel path without spaces, a line end (\<open>LF\<close> or \<open>CR LF\<close>) and a command
  line, the parse returns exactly the path and the command line, each
  terminated, with their sizes in bytes.
\<close>

theorem KernelcmdParse_roundtrip:
  assumes "SP \<notin> set p" "LF \<notin> set p" "CR \<notin> set p" "LF \<notin> set q" "CR \<notin> set q"
    and "eol = [LF] \<or> eol = [CR, LF]" and "r = [] \<or> hd r = LF \<or> hd r = CR"
  shows "KernelcmdParse (bom # p @ eol @ q @ r) =
           Inr (map Some p @ [Some 0], map Some q @ [Some 0], 2 * (length p + 1), 2 * (length q + 1))"
  using assms by (rule KernelcmdParse_lines)

theorem KernelcmdParse_roundtrip_witness:
  "KernelcmdParse (UTF16_BOM_LE # L ''k'' @ [CR, LF] @ L ''c'' @ [LF]) =
     Inr ([Some 0x6B, Some 0], [Some 0x63, Some 0], 4, 4)"
  using KernelcmdParse_roundtrip [of "L ''k''" "L ''c''" "[CR, LF]" "[LF]" UTF16_BOM_LE]
  by (simp add: L_def)

text \<open>
  C23.  Spaces in the first line are skipped when counting but not when
  copying (\<open>KernelPath[i-1]\<close>): with two or more spaces before the last
  character of the path, the copy writes past the end of the \<open>KernelPath\<close>
  pool buffer.
\<close>

theorem KernelcmdParse_space_overflow:
  assumes "LF \<notin> set p" "CR \<notin> set p" "x \<noteq> SP" "x \<noteq> LF" "x \<noteq> CR"
    and "2 \<le> length (filter (\<lambda>y. y = SP) p)" and "c = LF \<or> c = CR"
  shows "KernelcmdParse (h # p @ x # c # r) = Inl WildWrite"
proof -
  define k where "k = length (filter (\<lambda>y. y \<noteq> SP) (p @ [x]))"
  define fl where "fl = (if c = LF then 1 else 2) + length [h] + length (p @ [x])"
  have a: "h # p @ x # c # r = [h] @ (p @ [x]) @ c # r" by simp
  have lx: "LF \<notin> set (p @ [x])" "CR \<notin> set (p @ [x])" using assms(1,2,4,5) by auto
  have fl1: "first_line ([h] @ (p @ [x]) @ c # r) (length [h]) 0 = (fl, 0 + k)"
    unfolding fl_def k_def by (rule first_line_line [OF lx assms(7)])
  have split: "length (filter (\<lambda>y. y \<noteq> SP) p) + length (filter (\<lambda>y. y = SP) p) = length p"
    using sum_length_filter_compl [of "\<lambda>y. y = SP" p] by simp
  have kx: "k = Suc (length (filter (\<lambda>y. y \<noteq> SP) p))" using assms(3) by (simp add: k_def)
  have big: "length (alloc_pool (k + 1) :: u16 pool) \<le> length [h] + length p - 1"
    using assms(6) split kx by (simp add: alloc_pool_def)
  have "(length [h] + length p - 1, x) \<in> set (path_writes (length [h]) (p @ [x]))"
    by (rule path_writes_snoc [OF assms(3)])
  then have w: "pool_writes (path_writes (length [h]) (p @ [x])) (alloc_pool (k + 1)) = Inl WildWrite"
    using big by (rule pool_writes_wild)
  have lt: "length [h] + length (p @ [x]) < fl" by (simp add: fl_def)
  have "path_copy ([h] @ (p @ [x]) @ c # r) fl (length [h]) (alloc_pool (k + 1)) = Inl WildWrite"
    using path_copy_line [OF lx assms(7) lt] w by simp
  then show ?thesis using fl1 unfolding a by (simp add: KernelcmdParse_def)
qed

theorem KernelcmdParse_space_overflow_witness:
  "KernelcmdParse (UTF16_BOM_LE # L ''  k'' @ [LF]) = Inl WildWrite"
  using KernelcmdParse_space_overflow [of "L ''  ''" "0x6B" LF UTF16_BOM_LE "[]"]
  by (simp add: L_def)

text \<open>
  C24.  A file without any line end leaves \<open>FirstLineLength\<close> at 0: every cell
  of the kernel path but its terminator stays uninitialised, and the command
  line is the whole file, byte order mark included.
\<close>

theorem KernelcmdParse_no_newline:
  assumes "LF \<notin> set a" "CR \<notin> set a"
  shows "KernelcmdParse a =
           Inr (replicate (length (filter (\<lambda>x. x \<noteq> SP) (drop 1 a))) None @ [Some 0],
                map Some a @ [Some 0],
                2 * (length (filter (\<lambda>x. x \<noteq> SP) (drop 1 a)) + 1), 2 * (length a + 1))"
proof -
  let ?k = "length (filter (\<lambda>x. x \<noteq> SP) (drop 1 a))"
  have d: "LF \<notin> set (drop 1 a)" "CR \<notin> set (drop 1 a)"
    using assms by (auto dest: in_set_dropD)
  have fl: "first_line a 1 0 = (0, ?k)" using first_line_none [OF d] by simp
  have cl: "cmdline_len a 0 0 = length a"
    using cmdline_len_line [of a "[]" "[]" 0] assms by simp
  have pc: "path_copy a 0 1 (alloc_pool (?k + 1)) = Inr (alloc_pool (?k + 1))"
    by (subst path_copy.simps) simp
  have cc: "cmdline_copy a 0 0 (alloc_pool (length a + 1)) = Inr (map Some a @ [None])"
    using cmdline_copy_line [of a "[]" 0 "[]"] assms by (simp add: pool_writes_alloc)
  show ?thesis using fl cl pc cc by (simp add: KernelcmdParse_def alloc_pool_snoc)
qed

theorem KernelcmdParse_no_newline_witness:
  "KernelcmdParse (UTF16_BOM_LE # L ''k'') =
     Inr ([None, Some 0], [Some UTF16_BOM_LE, Some 0x6B, Some 0], 4, 6)"
  using KernelcmdParse_no_newline [of "UTF16_BOM_LE # L ''k''"]
  by (simp add: L_def UTF16_BOM_LE_def)

text \<open>
  C25.  A \<open>Kernel64.txt\<close> without the little-endian byte order mark stops
  \<open>GoTime\<close> with the status of the last successful call: the loader returns
  \<open>EFI_SUCCESS\<close> without having loaded anything.
\<close>

theorem kernelcmd_stage_bad_bom:
  assumes "\<not> EFI_ERROR rd" "a = [] \<or> hd a \<noteq> UTF16_BOM_LE"
  shows "kernelcmd_stage rd ap ac a = Inl (Returns FwSuccess)"
  using assms by (cases a) (auto simp: kernelcmd_stage_def bom_check_def EFI_ERROR_def)

theorem kernelcmd_stage_bad_bom_witness:
  "kernelcmd_stage FwSuccess FwSuccess FwSuccess (L ''kernel'') = Inl (Returns FwSuccess)"
  using kernelcmd_stage_bad_bom [of FwSuccess "L ''kernel''" FwSuccess FwSuccess]
  by (simp add: EFI_ERROR_def L_def UTF16_BOM_LE_def)

text \<open>
  \<open>TxtFilePath\<close> is the directory of the boot image, up to and including
  its last backslash, followed by \<open>Kernel64.txt\<close>.
\<close>

theorem txt_file_path_spec:
  assumes "0 \<notin> set d" "0 \<notin> set f" "BSLASH \<notin> set f"
  shows "txt_file_path (d @ BSLASH # f @ 0 # r) = Some (d @ BSLASH # TxtFileName)"
  using prefix_scan_path [OF assms] by (simp add: txt_file_path_def)

theorem txt_file_path_spec_witness:
  "txt_file_path (BSLASH # L ''EFI'' @ BSLASH # L ''BOOTX64.EFI'' @ [0]) =
     Some (BSLASH # L ''EFI'' @ BSLASH # TxtFileName)"
  using txt_file_path_spec [of "BSLASH # L ''EFI''" "L ''BOOTX64.EFI''" "[]"]
  by (simp add: L_def)

text \<open>
  A boot path without a backslash keeps its first character before
  \<open>Kernel64.txt\<close> (the prefix length is the last backslash index plus one,
  with the index defaulting to 0).
\<close>

theorem txt_file_path_no_backslash:
  assumes "0 \<notin> set (c # f)" "BSLASH \<notin> set (c # f)"
  shows "txt_file_path (c # f @ 0 # r) = Some (c # TxtFileName)"
  using prefix_scan_last [of "c # f" r 0 0] assms by (simp add: txt_file_path_def)

theorem txt_file_path_no_backslash_witness:
  "txt_file_path (L ''BOOTX64.EFI'' @ [0]) = Some (L ''B'' @ TxtFileName)"
  using txt_file_path_no_backslash [of "0x42" "L ''OOTX64.EFI''" "[]"]
  by (simp add: L_def)

end
