(* ===== verification/MemCheck.thy ===== *)
theory MemCheck
  imports Firmware
begin

text \<open>
  The workaround for firmware that hands out memory which is not free
  (\<open>src/JosPkg/Application/Loader/Loader.c\<close>, lines 649--927 of \<open>GoTime\<close>): after
  the kernel's pages are allocated at \<open>0x100000\<close> and zeroed, the loader checks
  that they read as zero and, if not and they do not hold an old kernel image,
  frees them and searches for another address, first with
  \<open>ActuallyFreeAddress\<close> and then page by page with
  \<open>ActuallyFreeAddressByPage\<close>.  The search helpers, \<open>VerifyZeroMem\<close> and the
  firmware's \<open>AllocatePages\<close>/\<open>FreePages\<close> at a fixed page count are not part of
  the sources: they enter as the functions of a record \<open>mc_fw\<close>.  Every loop is
  a partial function, \<open>None\<close> when it spins.
\<close>

section \<open>Definitions\<close>

text \<open>
  The answers the search depends on, for the fixed \<open>pages\<close>: the status of
  \<open>AllocatePages(AllocateAddress, EfiLoaderData, pages, &a)\<close> and of
  \<open>FreePages(a, pages)\<close>, \<open>ActuallyFreeAddress(pages, a)\<close>,
  \<open>ActuallyFreeAddressByPage(pages, a)\<close>, \<open>VerifyZeroMem(pages << EFI_PAGE_SHIFT, a)\<close>
  (some byte is not zero), and \<open>compare(a, ELFMAG, SELFMAG)\<close> (an ELF image starts
  there).
\<close>

record mc_fw =
  mc_alloc :: "u64 \<Rightarrow> fw_status"
  mc_free :: "u64 \<Rightarrow> fw_status"
  mc_afa :: "u64 \<Rightarrow> u64"
  mc_afp :: "u64 \<Rightarrow> u64"
  mc_dirty :: "u64 \<Rightarrow> bool"
  mc_magic :: "u64 \<Rightarrow> bool"

text \<open>
  The next candidate after \<open>a\<close> (lines 703--709, 771--777, 827--833, 887--893):
  the helper \<open>nxt\<close> once, and again when it returns the known bad address
  \<open>old\<close>.
\<close>

definition next_cand :: "(u64 \<Rightarrow> u64) \<Rightarrow> u64 \<Rightarrow> u64 \<Rightarrow> u64" where
  "next_cand nxt old a = (let b = nxt a in if b = old then nxt b else b)"

text \<open>
  The search loops of lines 696--730 (with \<open>ActuallyFreeAddress\<close>) and 819--850
  (with \<open>ActuallyFreeAddressByPage\<close>): until an allocation succeeds, take the
  next candidate on \<open>EFI_NOT_FOUND\<close>, return on any other error, return when the
  candidate is \<open>~0ULL\<close>, and try to allocate it.  \<open>Inl s\<close> is \<open>return s\<close> from
  \<open>GoTime\<close>; \<open>Inr a\<close> the allocated address.
\<close>

partial_function (option) addr_search ::
  "(u64 \<Rightarrow> u64) \<Rightarrow> mc_fw \<Rightarrow> u64 \<Rightarrow> fw_status \<Rightarrow> u64 \<Rightarrow> (fw_status + u64) option" where
  "addr_search nxt fw old st a =
     (if st = FwSuccess then Some (Inr a)
      else
        (let a' = (if st = FwNotFound then next_cand nxt old a else a) in
         if st \<noteq> FwNotFound \<and> EFI_ERROR st then Some (Inl st)
         else if a' = - 1 then Some (Inl st)
         else addr_search nxt fw old (mc_alloc fw a') a'))"

text \<open>
  The inner loop of the zero check (lines 765--791): it also stops when the
  candidate is \<open>~0ULL\<close>, and then leaves that value as the address.
\<close>

partial_function (option) retry_search ::
  "mc_fw \<Rightarrow> u64 \<Rightarrow> fw_status \<Rightarrow> u64 \<Rightarrow> (fw_status + u64) option" where
  "retry_search fw old st a =
     (if st \<noteq> FwSuccess \<and> a \<noteq> - 1 then
        (let a' = (if st = FwNotFound then next_cand (mc_afa fw) old a else a) in
         if st \<noteq> FwNotFound \<and> EFI_ERROR st then Some (Inl st)
         else retry_search fw old (mc_alloc fw a') a')
      else Some (Inr a))"

text \<open>
  The inner loop of the page-by-page zero check (lines 881--909): like the
  search loops, except that the test for \<open>~0ULL\<close> (line 902) reads
  \<open>AllocatedMemory\<close>, which the loop does not change, instead of \<open>NewAddress\<close>.
\<close>

partial_function (option) retry_bypage ::
  "mc_fw \<Rightarrow> u64 \<Rightarrow> u64 \<Rightarrow> fw_status \<Rightarrow> u64 \<Rightarrow> (fw_status + u64) option" where
  "retry_bypage fw old am st a =
     (if st = FwSuccess then Some (Inr a)
      else
        (let a' = (if st = FwNotFound then next_cand (mc_afp fw) old a else a) in
         if st \<noteq> FwNotFound \<and> EFI_ERROR st then Some (Inl st)
         else if am = - 1 then Some (Inl st)
         else retry_bypage fw old am (mc_alloc fw a') a'))"

text \<open>
  The zero-check loop of lines 736--798 over \<open>AllocatedMemory\<close> \<open>am\<close> and
  \<open>NewAddress\<close> \<open>a\<close>: while \<open>a\<close> is not \<open>~0ULL\<close> and the pages at \<open>am\<close> are
  not zero, keep them if they hold an ELF image, otherwise free them and search
  again.  The result is the final \<open>(AllocatedMemory, NewAddress)\<close>.
\<close>

partial_function (option) verify_loop ::
  "mc_fw \<Rightarrow> u64 \<Rightarrow> u64 \<Rightarrow> u64 \<Rightarrow> (fw_status + u64 \<times> u64) option" where
  "verify_loop fw old am a =
     (if a \<noteq> - 1 \<and> mc_dirty fw am then
        (if mc_magic fw am then Some (Inr (am, a))
         else if EFI_ERROR (mc_free fw am) then Some (Inl (mc_free fw am))
         else
           (case retry_search fw old FwNotFound a of
              None \<Rightarrow> None
            | Some (Inl s) \<Rightarrow> Some (Inl s)
            | Some (Inr a') \<Rightarrow> verify_loop fw old a' a'))
      else Some (Inr (am, a)))"

text \<open>The page-by-page zero-check loop of lines 854--914.\<close>

partial_function (option) verify_bypage ::
  "mc_fw \<Rightarrow> u64 \<Rightarrow> u64 \<Rightarrow> u64 \<Rightarrow> (fw_status + u64) option" where
  "verify_bypage fw old am a =
     (if mc_dirty fw am then
        (if mc_magic fw am then Some (Inr am)
         else if EFI_ERROR (mc_free fw am) then Some (Inl (mc_free fw am))
         else
           (case retry_bypage fw old am FwNotFound a of
              None \<Rightarrow> None
            | Some (Inl s) \<Rightarrow> Some (Inl s)
            | Some (Inr a') \<Rightarrow> verify_bypage fw old a' a'))
      else Some (Inr am))"

text \<open>
  Lines 653--927: the whole check for the zeroed allocation at \<open>am\<close>.  The result
  is \<open>Inr\<close> of the final \<open>AllocatedMemory\<close>, or \<open>Inl\<close> of the status \<open>GoTime\<close>
  returns.
\<close>

definition mem_check :: "mc_fw \<Rightarrow> u64 \<Rightarrow> (fw_status + u64) option" where
  "mem_check fw am =
     (if \<not> mc_dirty fw am \<or> mc_magic fw am then Some (Inr am)
      else if EFI_ERROR (mc_free fw am) then Some (Inl (mc_free fw am))
      else
        (case addr_search (mc_afa fw) fw am (mc_alloc fw 0) 0 of
           None \<Rightarrow> None
         | Some (Inl s) \<Rightarrow> Some (Inl s)
         | Some (Inr a) \<Rightarrow>
           (case verify_loop fw am a a of
              None \<Rightarrow> None
            | Some (Inl s) \<Rightarrow> Some (Inl s)
            | Some (Inr (am', a')) \<Rightarrow>
              if am' \<noteq> - 1 then Some (Inr am')
              else
                (case addr_search (mc_afp fw) fw am FwNotFound (mc_afa fw 0) of
                   None \<Rightarrow> None
                 | Some (Inl s) \<Rightarrow> Some (Inl s)
                 | Some (Inr a1) \<Rightarrow> verify_bypage fw am a1 a1))))"

text \<open>
  Firmware for the examples: only \<open>0x200000\<close> and \<open>0x300000\<close> can be allocated,
  the fast helper finds \<open>0x200000\<close> from 0 and nothing after it, the page-wise
  helper finds \<open>0x300000\<close> after \<open>0x200000\<close> and nothing after that, and every
  region reads as non-zero without an ELF header.
\<close>

definition spin_fw :: mc_fw where
  "spin_fw =
     \<lparr>mc_alloc = (\<lambda>a. if a = 0x200000 \<or> a = 0x300000 then FwSuccess else FwNotFound),
      mc_free = (\<lambda>_. FwSuccess),
      mc_afa = (\<lambda>a. if a = 0 then 0x200000 else - 1),
      mc_afp = (\<lambda>a. if a = 0x200000 then 0x300000 else - 1),
      mc_dirty = (\<lambda>_. True),
      mc_magic = (\<lambda>_. False)\<rparr>"

text \<open>
  What a returned address satisfies: its allocation succeeded, and its pages
  read as zero or start with an ELF header.
\<close>

definition mc_ok :: "mc_fw \<Rightarrow> u64 \<Rightarrow> bool" where
  "mc_ok fw r = (mc_alloc fw r = FwSuccess \<and> (\<not> mc_dirty fw r \<or> mc_magic fw r))"

text \<open>Firmware under which the search relocates: \<open>spin_fw\<close>, but \<open>0x200000\<close> reads as zero.\<close>

definition reloc_fw :: mc_fw where
  "reloc_fw = spin_fw\<lparr>mc_dirty := (\<lambda>a. a \<noteq> 0x200000)\<rparr>"

text \<open>Firmware whose allocations read as zero, the case the workaround is not for.\<close>

definition zero_fw :: mc_fw where
  "zero_fw = spin_fw\<lparr>mc_dirty := (\<lambda>_. False)\<rparr>"

section \<open>Lemmas\<close>

declare addr_search.simps [simp del] retry_search.simps [simp del] retry_bypage.simps [simp del]
  verify_loop.simps [simp del] verify_bypage.simps [simp del]

text \<open>
  The loops' results, by fixpoint induction: a search returns an allocated
  address, the zero checks return an allocated address that passed the check
  (or \<open>~0ULL\<close>, for the first one).
\<close>

lemma addr_search_alloc:
  "addr_search nxt fw old st a = Some y \<Longrightarrow> y = Inr r \<longrightarrow> st = FwSuccess \<and> r = a \<or> mc_alloc fw r = FwSuccess"
  by (erule addr_search.raw_induct
        [where P = "\<lambda>nxt fw old st a y. y = Inr r \<longrightarrow> st = FwSuccess \<and> r = a \<or> mc_alloc fw r = FwSuccess", rotated])
     (simp add: Let_def split: if_splits; blast)

lemma retry_search_alloc:
  "retry_search fw old st a = Some y \<Longrightarrow> y = Inr r \<longrightarrow> r = - 1 \<or> st = FwSuccess \<and> r = a \<or> mc_alloc fw r = FwSuccess"
  by (erule retry_search.raw_induct
        [where P = "\<lambda>fw old st a y. y = Inr r \<longrightarrow> r = - 1 \<or> st = FwSuccess \<and> r = a \<or> mc_alloc fw r = FwSuccess", rotated])
     (simp add: Let_def split: if_splits; blast)

lemma retry_bypage_alloc:
  "retry_bypage fw old am st a = Some y \<Longrightarrow> y = Inr r \<longrightarrow> st = FwSuccess \<and> r = a \<or> mc_alloc fw r = FwSuccess"
  by (erule retry_bypage.raw_induct
        [where P = "\<lambda>fw old am st a y. y = Inr r \<longrightarrow> st = FwSuccess \<and> r = a \<or> mc_alloc fw r = FwSuccess", rotated])
     (simp add: Let_def split: if_splits; blast)

lemma verify_loop_ok:
  "verify_loop fw old am a = Some y \<Longrightarrow>
   y = Inr (r, b) \<longrightarrow> am = a \<longrightarrow> (a = - 1 \<or> mc_alloc fw a = FwSuccess) \<longrightarrow> r = - 1 \<or> mc_ok fw r"
  by (erule verify_loop.raw_induct
        [where P = "\<lambda>fw old am a y. y = Inr (r, b) \<longrightarrow> am = a \<longrightarrow> (a = - 1 \<or> mc_alloc fw a = FwSuccess) \<longrightarrow>
                      r = - 1 \<or> mc_ok fw r", rotated])
     (auto simp: mc_ok_def split: if_splits option.splits sum.splits dest!: retry_search_alloc [rule_format]; blast)

lemma verify_bypage_ok:
  "verify_bypage fw old am a = Some y \<Longrightarrow> y = Inr r \<longrightarrow> am = a \<longrightarrow> mc_alloc fw a = FwSuccess \<longrightarrow> mc_ok fw r"
  by (erule verify_bypage.raw_induct
        [where P = "\<lambda>fw old am a y. y = Inr r \<longrightarrow> am = a \<longrightarrow> mc_alloc fw a = FwSuccess \<longrightarrow> mc_ok fw r", rotated])
     (auto simp: mc_ok_def split: if_splits option.splits sum.splits dest!: retry_bypage_alloc [rule_format]; blast)

text \<open>
  The page-by-page retry loop spins once \<open>NewAddress\<close> is \<open>~0ULL\<close>, the helper
  returns \<open>~0ULL\<close> from there and the firmware refuses that address, while
  \<open>AllocatedMemory\<close> is a real address.
\<close>

lemma retry_bypage_spins:
  assumes "mc_afp fw (- 1) = - 1" "mc_alloc fw (- 1) = FwNotFound" "am \<noteq> - 1" "old \<noteq> - 1"
  shows "retry_bypage fw old am FwNotFound (- 1) = None"
proof -
  have "retry_bypage fw' old' am' st a = Some y \<Longrightarrow>
        fw' = fw \<and> old' = old \<and> am' = am \<and> a = - 1 \<and> st = FwNotFound \<longrightarrow> False"
    for fw' old' am' st a y
  proof (erule retry_bypage.raw_induct
          [where P = "\<lambda>fw' old' am' st a y. fw' = fw \<and> old' = old \<and> am' = am \<and> a = - 1 \<and>
                        st = FwNotFound \<longrightarrow> False", rotated])
    fix f fw' old' am' st a y
    assume ih: "\<And>fw' old' am' st a y. f fw' old' am' st a = Some y \<Longrightarrow>
                  fw' = fw \<and> old' = old \<and> am' = am \<and> a = - 1 \<and> st = FwNotFound \<longrightarrow> False"
      and body: "(if st = FwSuccess then Some (Inr a)
                  else let a' = if st = FwNotFound then next_cand (mc_afp fw') old' a else a
                       in if st \<noteq> FwNotFound \<and> EFI_ERROR st then Some (Inl st)
                          else if am' = - 1 then Some (Inl st)
                          else f fw' old' am' (mc_alloc fw' a') a') = Some y"
    show "fw' = fw \<and> old' = old \<and> am' = am \<and> a = - 1 \<and> st = FwNotFound \<longrightarrow> False"
    proof
      assume e: "fw' = fw \<and> old' = old \<and> am' = am \<and> a = - 1 \<and> st = FwNotFound"
      then have "f fw old am FwNotFound (- 1) = Some y"
        using body assms by (simp add: next_cand_def Let_def)
      then show False using ih by blast
    qed
  qed
  note never = this
  show ?thesis
  proof (cases "retry_bypage fw old am FwNotFound (- 1)")
    case (Some y)
    from never [OF Some] show ?thesis by simp
  qed
qed

lemmas mc_eval = spin_fw_def next_cand_def EFI_ERROR_def Let_def

lemma mem_check_zero_fw: "mem_check zero_fw am = Some (Inr am)"
  by (simp add: mem_check_def zero_fw_def)

lemma mem_check_reloc_fw: "mem_check reloc_fw 0x100000 = Some (Inr 0x200000)"
proof -
  have s: "addr_search (mc_afa reloc_fw) reloc_fw 0x100000 (mc_alloc reloc_fw 0) 0 = Some (Inr 0x200000)"
    by (simp add: reloc_fw_def mc_eval addr_search.simps)
  have v: "verify_loop reloc_fw 0x100000 0x200000 0x200000 = Some (Inr (0x200000, 0x200000))"
    by (simp add: reloc_fw_def mc_eval verify_loop.simps)
  show ?thesis using s v by (simp add: mem_check_def reloc_fw_def mc_eval)
qed

section \<open>Properties\<close>

text \<open>
  C21.  When the memory check hands back an address, it is the original
  allocation, which read as zero or held an ELF image, or an address whose
  allocation succeeded and whose pages read as zero or start with an ELF header.
  The relocated pages are not zeroed again: an old image found there is kept
  as it is.
\<close>

theorem mem_check_allocated:
  assumes "mem_check fw am = Some (Inr r)"
  shows "r = am \<and> (\<not> mc_dirty fw am \<or> mc_magic fw am) \<or>
         mc_alloc fw r = FwSuccess \<and> (\<not> mc_dirty fw r \<or> mc_magic fw r)"
proof (cases "\<not> mc_dirty fw am \<or> mc_magic fw am")
  case True
  then show ?thesis using assms by (simp add: mem_check_def)
next
  case False
  then have free: "\<not> EFI_ERROR (mc_free fw am)" using assms by (auto simp: mem_check_def)
  obtain a where s: "addr_search (mc_afa fw) fw am (mc_alloc fw 0) 0 = Some (Inr a)"
    using assms False free by (auto simp: mem_check_def split: option.splits sum.splits)
  have a: "mc_alloc fw a = FwSuccess" using addr_search_alloc [OF s] by auto
  obtain am' a' where v: "verify_loop fw am a a = Some (Inr (am', a'))"
    using assms False free s by (auto simp: mem_check_def split: option.splits sum.splits)
  have am': "am' = - 1 \<or> mc_ok fw am'" using verify_loop_ok [OF v] a by simp
  show ?thesis
  proof (cases "am' = - 1")
    case False
    then show ?thesis using assms \<open>\<not> (\<not> mc_dirty fw am \<or> mc_magic fw am)\<close> free s v am'
      by (simp add: mem_check_def mc_ok_def)
  next
    case True
    obtain a1 where s1: "addr_search (mc_afp fw) fw am FwNotFound (mc_afa fw 0) = Some (Inr a1)"
      and b: "verify_bypage fw am a1 a1 = Some (Inr r)"
      using assms \<open>\<not> (\<not> mc_dirty fw am \<or> mc_magic fw am)\<close> free s v True
      by (auto simp: mem_check_def split: option.splits sum.splits)
    have "mc_alloc fw a1 = FwSuccess" using addr_search_alloc [OF s1] by simp
    then show ?thesis using verify_bypage_ok [OF b] by (simp add: mc_ok_def)
  qed
qed

theorem mem_check_allocated_witness:
  "mem_check reloc_fw 0x100000 = Some (Inr 0x200000) \<and>
   mc_alloc reloc_fw 0x200000 = FwSuccess \<and> \<not> mc_dirty reloc_fw 0x200000"
  using mem_check_allocated [OF mem_check_reloc_fw] mem_check_reloc_fw by (simp add: reloc_fw_def mc_eval)

text \<open>
  C26.  The page-by-page retry loop tests \<open>AllocatedMemory\<close> for \<open>~0ULL\<close> where
  the other loops test \<open>NewAddress\<close>: on firmware whose page-wise helper runs
  out of addresses, the check never returns, while the page-wise search loop
  of lines 822--850 returns \<open>EFI_NOT_FOUND\<close> from the same point.
\<close>

theorem mem_check_bypage_spins:
  "mem_check spin_fw 0x100000 = None \<and>
   addr_search (mc_afp spin_fw) spin_fw 0x100000 FwNotFound 0x300000 = Some (Inl FwNotFound)"
proof
  have s: "addr_search (mc_afa spin_fw) spin_fw 0x100000 (mc_alloc spin_fw 0) 0 = Some (Inr 0x200000)"
    by (simp add: mc_eval addr_search.simps)
  have r: "retry_search spin_fw 0x100000 FwNotFound 0x200000 = Some (Inr (- 1))"
    by (simp add: mc_eval retry_search.simps)
  have v: "verify_loop spin_fw 0x100000 0x200000 0x200000 = Some (Inr (- 1, - 1))"
    using r by (simp add: mc_eval verify_loop.simps)
  have s1: "addr_search (mc_afp spin_fw) spin_fw 0x100000 FwNotFound (mc_afa spin_fw 0) = Some (Inr 0x300000)"
    by (simp add: mc_eval addr_search.simps)
  have spin: "retry_bypage spin_fw 0x100000 0x300000 FwNotFound (- 1) = None"
    by (rule retry_bypage_spins) (simp_all add: spin_fw_def)
  have step: "retry_bypage spin_fw 0x100000 0x300000 FwNotFound 0x300000 = None"
    by (subst retry_bypage.simps) (simp add: mc_eval spin [unfolded spin_fw_def])
  have b: "verify_bypage spin_fw 0x100000 0x300000 0x300000 = None"
    using step by (subst verify_bypage.simps) (simp add: mc_eval)
  show "mem_check spin_fw 0x100000 = None"
    using s v s1 b by (simp add: mem_check_def mc_eval)
  show "addr_search (mc_afp spin_fw) spin_fw 0x100000 FwNotFound 0x300000 = Some (Inl FwNotFound)"
    by (simp add: mc_eval addr_search.simps)
qed

end
