(* ===== verification/ElfLoad.thy ===== *)
theory ElfLoad
  imports MemCheck
begin

unbundle bit_operations_syntax

text \<open>
  The ELF part of \<open>GoTime\<close> (\<open>src/JosPkg/Application/Loader/Loader.c\<close>, lines
  506--1039): the header check, the extent of the program headers, the page
  count, the allocation at \<open>0x100000\<close> and its zeroing, and the loop that reads
  every segment's file image to its physical address.  Physical memory is a
  byte map over 64-bit addresses; the kernel file is its list of bytes.  The
  check that the allocated memory really is free (lines 649--934) searches for
  another address through \<open>ActuallyFreeAddress\<close>, which is not part of the
  sources; its outcome enters the model as \<open>reloc\<close>.
\<close>

section \<open>Definitions\<close>

text \<open>The fields of \<open>struct Elf\<close> and \<open>struct Proghdr\<close> (JOS \<open>inc/elf.h\<close>) that the loader reads.\<close>

record Elf =
  e_magic :: u32
  e_entry :: u64
  e_phoff :: u64
  e_phentsize :: u16
  e_phnum :: u16

record Proghdr =
  p_type :: u32
  p_offset :: u64
  p_va :: u64
  p_pa :: u64
  p_filesz :: u64
  p_memsz :: u64

definition ELF_MAGIC :: u32 where
  "ELF_MAGIC = 0x464C457F"

definition ELF_PROG_LOAD :: u32 where
  "ELF_PROG_LOAD = 1"

text \<open>
  The extent loop (lines 562--606): \<open>virt_size\<close> is the largest end address
  \<open>p_va + p_memsz\<close> over \<^emph>\<open>all\<close> headers, \<open>virt_min\<close> the smallest \<open>p_va\<close> of a
  \<open>PT_LOAD\<close> header, starting from \<open>~0ULL\<close>; the sums wrap.
\<close>

fun elf_extent :: "Proghdr list \<Rightarrow> u64 \<times> u64 \<Rightarrow> u64 \<times> u64" where
  "elf_extent [] acc = acc"
| "elf_extent (ph # phs) (vs, vm) =
     elf_extent phs (max vs (p_va ph + p_memsz ph),
                     if p_type ph = ELF_PROG_LOAD then min vm (p_va ph) else vm)"

text \<open>Lines 613--615: \<open>pages = EFI_SIZE_TO_PAGES(virt_size - virt_min)\<close>.\<close>

definition elf_pages :: "Proghdr list \<Rightarrow> u64" where
  "elf_pages phs = (case elf_extent phs (0, - 1) of (vs, vm) \<Rightarrow> EFI_SIZE_TO_PAGES (vs - vm))"

type_synonym phys_mem = "u64 \<Rightarrow> u8"

text \<open>\<open>ZeroMem(a, n)\<close> (line 643): the \<open>n\<close> bytes from \<open>a\<close>, wrapping at \<open>2^64\<close>.\<close>

definition ZeroMem :: "u64 \<Rightarrow> u64 \<Rightarrow> phys_mem \<Rightarrow> phys_mem" where
  "ZeroMem a n m = (\<lambda>x. if unat (x - a) < unat n then 0 else m x)"

text \<open>The bytes a \<open>Read\<close> stores to a buffer at \<open>a\<close>.\<close>

fun write_bytes :: "u64 \<Rightarrow> u8 list \<Rightarrow> phys_mem \<Rightarrow> phys_mem" where
  "write_bytes a [] m = m"
| "write_bytes a (b # bs) m = write_bytes (a + 1) bs (m(a := b))"

text \<open>
  \<open>EFI_FILE.Read\<close> of \<open>n\<close> bytes at position \<open>pos\<close> of a file: it stops at the
  end of the file, and fails when the position lies past the end (UEFI
  specification).  \<open>SetPosition\<close> on a file does not fail.
\<close>

definition file_read :: "u8 list \<Rightarrow> u64 \<Rightarrow> u64 \<Rightarrow> fw_status \<times> u8 list" where
  "file_read f pos n =
     (if length f < unat pos then (FwDeviceError, [])
      else (FwSuccess, take (unat n) (drop (unat pos) f)))"

text \<open>
  The segment loop (lines 943--994).  The test for \<open>PT_LOAD\<close> is \<open>if(1)\<close>, so
  every header is loaded, to its physical address \<open>p_pa\<close>.
\<close>

fun load_segments :: "u8 list \<Rightarrow> Proghdr list \<Rightarrow> phys_mem \<Rightarrow> loader_stop + phys_mem" where
  "load_segments f [] m = Inr m"
| "load_segments f (ph # phs) m =
     (if p_filesz ph \<noteq> 0 then
        (case file_read f (p_offset ph) (p_filesz ph) of
           (st, bs) \<Rightarrow> if EFI_ERROR st then Inl (Returns st)
                       else load_segments f phs (write_bytes (p_pa ph) bs m))
      else load_segments f phs m)"

text \<open>The statuses of the firmware calls of the ELF stage, in program order.\<close>

record elf_calls =
  st_hdr_read :: fw_status
  st_tbl_alloc :: fw_status
  st_tbl_read :: fw_status
  st_pages :: fw_status

text \<open>
  Lines 506--1039 as one stage: the header read and magic check, the table of
  program headers \<open>phs\<close> as read from \<open>e_phoff\<close>, the allocation of \<open>pages\<close> at
  \<open>0x100000\<close>, its zeroing, the memory check, the segment loop, and
  \<open>KernelBaseAddress = AllocatedMemory\<close> (line 1003).  The result is
  \<open>(KernelBaseAddress, KernelPages, Header_memory)\<close> with the memory after
  loading; \<open>None\<close> is a memory check that does not return.
\<close>

definition elf_stage ::
  "elf_calls \<Rightarrow> mc_fw \<Rightarrow> Elf \<Rightarrow> Proghdr list \<Rightarrow> u8 list \<Rightarrow> phys_mem \<Rightarrow>
   (loader_stop + u64 \<times> u64 \<times> u64 \<times> phys_mem) option" where
  "elf_stage c mc hdr phs f m =
     (if EFI_ERROR (st_hdr_read c) then Some (Inl (Returns (st_hdr_read c)))
      else if e_magic hdr \<noteq> ELF_MAGIC then Some (Inl (Returns FwInvalidParameter))
      else if EFI_ERROR (st_tbl_alloc c) then Some (Inl (Returns (st_tbl_alloc c)))
      else if EFI_ERROR (st_tbl_read c) then Some (Inl (Returns (st_tbl_read c)))
      else if EFI_ERROR (st_pages c) then Some (Inl (Returns (st_pages c)))
      else
        (let pages = elf_pages phs;
             m1 = ZeroMem 0x100000 (push_bit EFI_PAGE_SHIFT pages) m
         in case mem_check mc 0x100000 of
              None \<Rightarrow> None
            | Some (Inl s) \<Rightarrow> Some (Inl (Returns s))
            | Some (Inr base) \<Rightarrow>
                (case load_segments f phs m1 of
                   Inl e \<Rightarrow> Some (Inl e)
                 | Inr m2 \<Rightarrow> Some (Inr (base, pages, e_entry hdr, m2)))))"

text \<open>
  A kernel image for the examples: one \<open>PT_LOAD\<close> segment of two bytes at
  \<open>0x100000\<close>, and a \<open>PT_NOTE\<close> header (type 4) whose two bytes carry a
  physical address of \<open>0x5000\<close>.
\<close>

definition ok_calls :: elf_calls where
  "ok_calls = \<lparr>st_hdr_read = FwSuccess, st_tbl_alloc = FwSuccess, st_tbl_read = FwSuccess,
               st_pages = FwSuccess\<rparr>"

definition ex_hdr :: Elf where
  "ex_hdr = \<lparr>e_magic = ELF_MAGIC, e_entry = 0x100000, e_phoff = 64, e_phentsize = 56, e_phnum = 1\<rparr>"

definition ex_load :: Proghdr where
  "ex_load = \<lparr>p_type = ELF_PROG_LOAD, p_offset = 0, p_va = 0x100000, p_pa = 0x100000,
              p_filesz = 2, p_memsz = 2\<rparr>"

definition ex_note :: Proghdr where
  "ex_note = \<lparr>p_type = 4, p_offset = 0, p_va = 0, p_pa = 0x5000, p_filesz = 2, p_memsz = 0\<rparr>"

section \<open>Lemmas\<close>

lemma write_bytes_outside:
  "(\<forall>k < length bs. a + of_nat k \<noteq> x) \<Longrightarrow> write_bytes a bs m x = m x"
proof (induction bs arbitrary: a m)
  case Nil
  then show ?case by simp
next
  case (Cons b bs)
  have "\<forall>k < length bs. (a + 1) + of_nat k \<noteq> x"
  proof (intro allI impI)
    fix k assume k: "k < length bs"
    have "Suc k < length (b # bs)" using k by simp
    then have "a + of_nat (Suc k) \<noteq> x" using Cons.prems by blast
    then show "(a + 1) + of_nat k \<noteq> x" by (simp add: ac_simps)
  qed
  moreover have "a + of_nat 0 \<noteq> x" using Cons.prems [rule_format, of 0] by simp
  then have "a \<noteq> x" by simp
  ultimately show ?case using Cons.IH by simp
qed

lemma unat_EFI_SIZE_TO_PAGES:
  "unat (EFI_SIZE_TO_PAGES x) = unat x div 4096 + (if unat x mod 4096 = 0 then 0 else 1)"
proof -
  have m: "(0xFFF :: u64) = mask 12" by (simp add: mask_eq_exp_minus_1)
  have d: "unat (drop_bit 12 x) = unat x div 4096"
    by (simp add: drop_bit_eq_div unat_div)
  have a: "(x AND 0xFFF = 0) = (unat x mod 4096 = 0)"
  proof -
    have "x AND 0xFFF = take_bit 12 x" by (simp add: m take_bit_eq_mask)
    moreover have "unat (take_bit 12 x) = unat x mod 4096" by (simp add: take_bit_eq_mod unat_mod)
    ultimately show ?thesis by (metis unsigned_eq_0_iff)
  qed
  have u: "unat x < 2 ^ LENGTH(64)" by (rule unsigned_less)
  have lt: "unat x div 4096 < 2 ^ 52"
    using u by (simp add: div_less_iff_less_mult)
  have "unat (drop_bit 12 x + 1) = (unat (drop_bit 12 x) + 1) mod 2 ^ 64"
    by (simp add: unat_word_ariths)
  also have "\<dots> = unat (drop_bit 12 x) + 1"
    using lt d by simp
  finally have "unat (drop_bit 12 x + 1) = unat (drop_bit 12 x) + 1" .
  then show ?thesis using d a by (simp add: EFI_SIZE_TO_PAGES_def EFI_PAGE_SHIFT_def)
qed

lemma unat_pages_window:
  assumes "unat x \<le> 2 ^ 64 - 4096"
  shows "unat x \<le> unat (push_bit EFI_PAGE_SHIFT (EFI_SIZE_TO_PAGES x)) \<and>
         unat (push_bit EFI_PAGE_SHIFT (EFI_SIZE_TO_PAGES x)) < unat x + 4096"
proof -
  define n where "n = unat x"
  define p where "p = n div 4096 + (if n mod 4096 = 0 then 0 else 1)"
  have e: "n div 4096 * 4096 + n mod 4096 = n" by (rule div_mult_mod_eq)
  have r: "n mod 4096 < 4096" by simp
  have bounds: "n \<le> p * 4096 \<and> p * 4096 < n + 4096"
  proof (cases "n mod 4096 = 0")
    case True
    then show ?thesis using e by (simp add: p_def)
  next
    case False
    then have "p * 4096 = n div 4096 * 4096 + 4096" by (simp add: p_def)
    then show ?thesis using e r False by linarith
  qed
  have "unat (push_bit EFI_PAGE_SHIFT (EFI_SIZE_TO_PAGES x)) = p * 4096 mod 2 ^ 64"
    by (simp add: EFI_PAGE_SHIFT_def push_bit_eq_mult unat_word_ariths unat_EFI_SIZE_TO_PAGES p_def n_def)
  also have "\<dots> = p * 4096" using bounds assms n_def by simp
  finally show ?thesis using bounds n_def by simp
qed

lemma elf_extent_bounds:
  "elf_extent phs (vs0, vm0) = (vs, vm) \<Longrightarrow>
   vs0 \<le> vs \<and> vm \<le> vm0 \<and>
   (\<forall>ph \<in> set phs. p_va ph + p_memsz ph \<le> vs \<and> (p_type ph = ELF_PROG_LOAD \<longrightarrow> vm \<le> p_va ph))"
proof (induction phs arbitrary: vs0 vm0)
  case Nil
  then show ?case by simp
next
  case (Cons ph phs)
  let ?vm1 = "if p_type ph = ELF_PROG_LOAD then min vm0 (p_va ph) else vm0"
  have "max vs0 (p_va ph + p_memsz ph) \<le> vs \<and> vm \<le> ?vm1 \<and>
        (\<forall>ph \<in> set phs. p_va ph + p_memsz ph \<le> vs \<and> (p_type ph = ELF_PROG_LOAD \<longrightarrow> vm \<le> p_va ph))"
    using Cons.IH [of "max vs0 (p_va ph + p_memsz ph)" ?vm1] Cons.prems by simp
  then show ?case by (auto split: if_splits)
qed

lemma load_segments_frame:
  assumes "load_segments f phs m = Inr m'"
    and "\<forall>ph \<in> set phs. \<forall>k < unat (p_filesz ph). p_pa ph + of_nat k \<noteq> x"
  shows "m' x = m x"
  using assms
proof (induction phs arbitrary: m)
  case Nil
  then show ?case by simp
next
  case (Cons ph phs)
  show ?case
  proof (cases "p_filesz ph = 0")
    case True
    then show ?thesis using Cons by simp
  next
    case False
    obtain st bs where r: "file_read f (p_offset ph) (p_filesz ph) = (st, bs)" by fastforce
    have len: "length bs \<le> unat (p_filesz ph)"
      using r by (auto simp: file_read_def split: if_splits)
    have ok: "\<not> EFI_ERROR st" and m2: "load_segments f phs (write_bytes (p_pa ph) bs m) = Inr m'"
      using Cons.prems(1) False r by (auto split: if_splits)
    have "write_bytes (p_pa ph) bs m x = m x"
      using Cons.prems(2) len by (intro write_bytes_outside) auto
    then show ?thesis using Cons.IH [OF m2] Cons.prems(2) by simp
  qed
qed

lemma unat_u64_less: "unat (x :: u64) < 2 ^ 64"
proof -
  have "unat x < 2 ^ LENGTH(64)" by (rule unsigned_less)
  then show ?thesis by simp
qed

lemma unat_add_nowrap:
  "unat (a :: u64) + unat b < 2 ^ 64 \<Longrightarrow> unat (a + b) = unat a + unat b"
  by (simp add: unat_word_ariths)

lemma seg_in_window:
  assumes ext: "elf_extent phs (0, - 1) = (vs, vm)"
    and ph: "ph \<in> set phs" "p_type ph = ELF_PROG_LOAD" "unat (p_filesz ph) \<le> unat (p_memsz ph)"
      "unat (p_va ph) + unat (p_memsz ph) < 2 ^ 64" "p_pa ph - A = p_va ph - vm"
    and k: "k < unat (p_filesz ph)"
  shows "unat (p_pa ph + of_nat k - A) < unat (vs - vm)"
proof -
  have b: "vm \<le> p_va ph" "p_va ph + p_memsz ph \<le> vs"
    using elf_extent_bounds [OF ext] ph(1,2) by auto
  have end_: "unat (p_va ph) + unat (p_memsz ph) \<le> unat vs"
    using b(2) unat_add_nowrap [OF ph(4)] by (simp add: word_le_nat_alt)
  have vmvs: "vm \<le> vs" using b end_ by (simp add: word_le_nat_alt)
  have k64: "unat (of_nat k :: u64) = k"
    using k unat_u64_less [of "p_filesz ph"] by (simp add: unsigned_of_nat take_bit_nat_eq_self)
  have off: "unat (p_va ph - vm) = unat (p_va ph) - unat vm" using b(1) by (simp add: unat_sub)
  have eq: "p_pa ph + of_nat k - A = (p_va ph - vm) + of_nat k"
    using ph(5) by (simp add: algebra_simps)
  have lt: "unat (p_va ph) - unat vm + k < unat vs - unat vm"
    using end_ k ph(3) b(1) by (simp add: word_le_nat_alt)
  then have "unat ((p_va ph - vm) + of_nat k) = unat (p_va ph) - unat vm + k"
    using off k64 by (subst unat_add_nowrap) (use unat_u64_less [of vs] in simp_all)
  then show ?thesis unfolding eq using lt vmvs by (simp add: unat_sub)
qed

lemma ZeroMem_outside:
  "unat n \<le> unat (x - a) \<Longrightarrow> ZeroMem a n m x = m x"
  by (simp add: ZeroMem_def)

lemmas elf_eval = elf_stage_def mem_check_zero_fw ok_calls_def ex_hdr_def ex_load_def ex_note_def elf_pages_def
  EFI_SIZE_TO_PAGES_def EFI_PAGE_SHIFT_def EFI_ERROR_def Let_def file_read_def ZeroMem_def
  ELF_PROG_LOAD_def

section \<open>Properties\<close>

text \<open>
  C28.  When every program header is a \<open>PT_LOAD\<close> segment whose file image fits
  in its memory image, whose end does not wrap, and whose physical address lies
  at the same offset from \<open>0x100000\<close> as its virtual address from \<open>virt_min\<close>,
  the ELF stage changes no byte outside the \<open>pages\<close> it allocated and zeroed at
  \<open>0x100000\<close>, whatever address the memory check reports.
\<close>

theorem elf_stage_in_window:
  assumes r: "elf_stage c mc hdr phs f m = Some (Inr (base, pages, entry, m'))"
    and ext: "elf_extent phs (0, - 1) = (vs, vm)" and sz: "unat (vs - vm) \<le> 2 ^ 64 - 4096"
    and wf: "\<forall>ph \<in> set phs. p_type ph = ELF_PROG_LOAD \<and> unat (p_filesz ph) \<le> unat (p_memsz ph) \<and>
               unat (p_va ph) + unat (p_memsz ph) < 2 ^ 64 \<and> p_pa ph - 0x100000 = p_va ph - vm"
    and x: "unat (push_bit EFI_PAGE_SHIFT pages) \<le> unat (x - 0x100000)"
  shows "m' x = m x"
proof -
  have pages: "pages = elf_pages phs"
    and ld: "load_segments f phs (ZeroMem 0x100000 (push_bit EFI_PAGE_SHIFT pages) m) = Inr m'"
    using r by (auto simp: elf_stage_def Let_def split: if_splits sum.splits option.splits)
  have win: "unat (vs - vm) \<le> unat (push_bit EFI_PAGE_SHIFT pages)"
    using unat_pages_window [OF sz] ext pages by (simp add: elf_pages_def)
  have "\<forall>ph \<in> set phs. \<forall>k < unat (p_filesz ph). p_pa ph + of_nat k \<noteq> x"
  proof (intro ballI allI impI notI)
    fix ph k assume ph: "ph \<in> set phs" and k: "k < unat (p_filesz ph)" and eqx: "p_pa ph + of_nat k = x"
    have "unat (p_pa ph + of_nat k - 0x100000) < unat (vs - vm)"
      using wf ph k by (intro seg_in_window [OF ext ph]) auto
    then show False using eqx x win by simp
  qed
  then have "m' x = ZeroMem 0x100000 (push_bit EFI_PAGE_SHIFT pages) m x"
    by (rule load_segments_frame [OF ld])
  then show ?thesis using x by (simp add: ZeroMem_outside)
qed

theorem elf_stage_in_window_witness:
  "case elf_stage ok_calls zero_fw ex_hdr [ex_load] [1, 2] (\<lambda>_. 7) of
     Some (Inr (b, p, e, m')) \<Rightarrow> m' 0x200000 = 7 | _ \<Rightarrow> False"
proof -
  have "\<exists>M. elf_stage ok_calls zero_fw ex_hdr [ex_load] [1, 2] (\<lambda>_. 7) = Some (Inr (0x100000, 1, 0x100000, M))"
    by (simp add: elf_eval)
  then obtain M where
    r: "elf_stage ok_calls zero_fw ex_hdr [ex_load] [1, 2] (\<lambda>_. 7) = Some (Inr (0x100000, 1, 0x100000, M))"
    by blast
  have ext: "elf_extent [ex_load] (0, - 1) = (0x100002, 0x100000)" by (simp add: elf_eval)
  have "M 0x200000 = 7"
    by (rule elf_stage_in_window [OF r ext]) (simp_all add: elf_eval)
  then show ?thesis using r by simp
qed

text \<open>
  \<open>EFI_SIZE_TO_PAGES\<close> rounds the extent up to whole pages: the zeroed
  window covers \<open>virt_size - virt_min\<close> and exceeds it by less than a page,
  as long as the extent is at least a page below \<open>2^64\<close>.
\<close>

theorem elf_pages_bounds:
  assumes "elf_extent phs (0, - 1) = (vs, vm)" "unat (vs - vm) \<le> 2 ^ 64 - 4096"
  shows "unat (vs - vm) \<le> unat (push_bit EFI_PAGE_SHIFT (elf_pages phs)) \<and>
         unat (push_bit EFI_PAGE_SHIFT (elf_pages phs)) < unat (vs - vm) + 4096"
  using unat_pages_window [OF assms(2)] assms(1) by (simp add: elf_pages_def)

theorem elf_pages_bounds_witness:
  "2 \<le> unat (push_bit EFI_PAGE_SHIFT (elf_pages [ex_load])) \<and>
   unat (push_bit EFI_PAGE_SHIFT (elf_pages [ex_load])) < 2 + 4096"
proof -
  have ext: "elf_extent [ex_load] (0, - 1) = (0x100002, 0x100000)" by (simp add: elf_eval)
  show ?thesis using elf_pages_bounds [OF ext] by simp
qed

text \<open>
  C30.  The memory check's relocation changes only the reported base: the
  segments are read to their \<open>p_pa\<close> whether or not the check moved the
  allocation, so after a relocation \<open>KernelBaseAddress\<close> names pages the kernel
  was not loaded into.
\<close>

theorem elf_stage_reloc:
  assumes "mem_check mc 0x100000 = Some (Inr a)" "mem_check mc' 0x100000 = Some (Inr 0x100000)"
  shows "elf_stage c mc hdr phs f m =
           map_option (map_sum id (\<lambda>(b, p, e, m'). (a, p, e, m'))) (elf_stage c mc' hdr phs f m)"
  using assms by (simp add: elf_stage_def Let_def split: sum.split)

theorem elf_stage_reloc_witness:
  "elf_stage ok_calls reloc_fw ex_hdr [ex_load] [1, 2] (\<lambda>_. 7) =
     map_option (map_sum id (\<lambda>(b, p, e, m'). (0x200000, p, e, m')))
       (elf_stage ok_calls zero_fw ex_hdr [ex_load] [1, 2] (\<lambda>_. 7))"
  by (rule elf_stage_reloc [OF mem_check_reloc_fw mem_check_zero_fw])


end
