(* ===== verification/ExitBoot.thy ===== *)
theory ExitBoot
  imports Firmware
begin

text \<open>
  The last firmware interaction of \<open>GoTime\<close>
  (\<open>src/JosPkg/Application/Loader/Loader.c\<close>, lines 1138--1219): fetch the memory
  map into a pool buffer, exit boot services with its key, and retry once when
  the key is stale.  The code is straight-line; it is modelled as a step function
  over a program counter \<open>eb_pc\<close> whose values are the calls of the source, the
  reachable states as an inductive predicate, and the run as iteration of the
  step to a final program point.  The firmware side follows the UEFI
  specification: the map has \<open>fw_ndesc\<close> descriptors of \<open>d\<close> bytes and a key
  \<open>fw_key\<close> that changes with every allocation and free; a pool allocation adds
  \<open>s\<close> descriptors to the map (it splits a free region), a free removes them.
\<close>

section \<open>Definitions\<close>

record firmware =
  fw_ndesc :: nat
  fw_key :: nat
  fw_exited :: bool
  fw_oom :: bool

text \<open>
  The program points, one per call of lines 1159--1219; \<open>EB_Jump\<close> is the
  continuation to the loader block and the entry point, \<open>EB_Ret st\<close> a
  \<open>return st\<close>.
\<close>

datatype eb_pc = EB_Get1 | EB_Alloc1 | EB_Get2 | EB_Exit1 | EB_Free1 | EB_Get3 | EB_Alloc2
  | EB_Get4 | EB_Exit2 | EB_Check | EB_Jump | EB_Ret fw_status

text \<open>
  The loader's locals: \<open>MemMapSize\<close>, the buffer \<open>MemMap\<close> (its capacity in bytes,
  \<open>None\<close> for \<open>NULL\<close> or a freed buffer), \<open>MemMapKey\<close> (\<open>None\<close> until
  \<open>GetMemoryMap\<close> writes it), the key of the map copied into the buffer, and
  \<open>GoTimeStatus\<close>.
\<close>

record eb_state =
  fw :: firmware
  MemMapSize :: nat
  MemMap :: "nat option"
  MemMapKey :: "nat option"
  mm_copy :: "nat option"
  GoTimeStatus :: fw_status
  pc :: eb_pc

text \<open>
  \<open>GetMemoryMap\<close> (UEFI specification): a buffer smaller than the map gives
  \<open>EFI_BUFFER_TOO_SMALL\<close> and the needed size; otherwise the map and its key are
  written.  A stale \<open>MemMapKey\<close> is represented by \<open>None\<close>, the value no
  firmware key equals.
\<close>

definition GetMemoryMap :: "nat \<Rightarrow> eb_state \<Rightarrow> eb_state" where
  "GetMemoryMap d st =
     (let need = fw_ndesc (fw st) * d in
      if MemMapSize st < need then st\<lparr>MemMapSize := need, GoTimeStatus := FwBufferTooSmall\<rparr>
      else if MemMap st = None then st\<lparr>GoTimeStatus := FwInvalidParameter\<rparr>
      else st\<lparr>MemMapSize := need, MemMapKey := Some (fw_key (fw st)),
              mm_copy := Some (fw_key (fw st)), GoTimeStatus := FwSuccess\<rparr>)"

definition AllocatePool :: "nat \<Rightarrow> eb_state \<Rightarrow> eb_state" where
  "AllocatePool s st =
     (if fw_oom (fw st) then st\<lparr>GoTimeStatus := FwOutOfResources\<rparr>
      else st\<lparr>fw := (fw st)\<lparr>fw_ndesc := fw_ndesc (fw st) + s, fw_key := Suc (fw_key (fw st))\<rparr>,
              MemMap := Some (MemMapSize st), mm_copy := None, GoTimeStatus := FwSuccess\<rparr>)"

definition FreePool :: "nat \<Rightarrow> eb_state \<Rightarrow> eb_state" where
  "FreePool s st =
     (if MemMap st = None then st\<lparr>GoTimeStatus := FwInvalidParameter\<rparr>
      else st\<lparr>fw := (fw st)\<lparr>fw_ndesc := fw_ndesc (fw st) - s, fw_key := Suc (fw_key (fw st))\<rparr>,
              MemMap := None, mm_copy := None, GoTimeStatus := FwSuccess\<rparr>)"

definition ExitBootServices :: "eb_state \<Rightarrow> eb_state" where
  "ExitBootServices st =
     (if MemMapKey st = Some (fw_key (fw st))
      then st\<lparr>fw := (fw st)\<lparr>fw_exited := True\<rparr>, GoTimeStatus := FwSuccess\<rparr>
      else st\<lparr>GoTimeStatus := FwInvalidParameter\<rparr>)"

text \<open>
  \<open>FreePool\<close> returns \<open>EFI_INVALID_PARAMETER\<close> for a \<open>NULL\<close> buffer (UEFI
  specification).  One step of lines 1159--1219 at program point \<open>pc\<close>; at the
  final check (lines 1208--1218) the status returned is the one \<open>FreePool\<close>
  assigned to \<open>GoTimeStatus\<close>.
\<close>

definition eb_step :: "nat \<Rightarrow> nat \<Rightarrow> eb_state \<Rightarrow> eb_state" where
  "eb_step d s st = (case pc st of
     EB_Get1 \<Rightarrow> let st' = GetMemoryMap d st in
       st'\<lparr>pc := if GoTimeStatus st' = FwBufferTooSmall then EB_Alloc1 else EB_Exit1\<rparr>
   | EB_Alloc1 \<Rightarrow> let st' = AllocatePool s st in
       st'\<lparr>pc := if EFI_ERROR (GoTimeStatus st') then EB_Ret (GoTimeStatus st') else EB_Get2\<rparr>
   | EB_Get2 \<Rightarrow> (GetMemoryMap d st)\<lparr>pc := EB_Exit1\<rparr>
   | EB_Exit1 \<Rightarrow> let st' = ExitBootServices st in
       st'\<lparr>pc := if GoTimeStatus st' = FwInvalidParameter then EB_Free1 else EB_Check\<rparr>
   | EB_Free1 \<Rightarrow> (FreePool s st)\<lparr>MemMapSize := 0, pc := EB_Get3\<rparr>
   | EB_Get3 \<Rightarrow> let st' = GetMemoryMap d st in
       st'\<lparr>pc := if GoTimeStatus st' = FwBufferTooSmall then EB_Alloc2 else EB_Exit2\<rparr>
   | EB_Alloc2 \<Rightarrow> let st' = AllocatePool s st in
       st'\<lparr>pc := if EFI_ERROR (GoTimeStatus st') then EB_Ret (GoTimeStatus st') else EB_Get4\<rparr>
   | EB_Get4 \<Rightarrow> (GetMemoryMap d st)\<lparr>pc := EB_Exit2\<rparr>
   | EB_Exit2 \<Rightarrow> (ExitBootServices st)\<lparr>pc := EB_Check\<rparr>
   | EB_Check \<Rightarrow>
       if GoTimeStatus st = FwInvalidParameter
       then (let st' = FreePool s st in st'\<lparr>pc := EB_Ret (GoTimeStatus st')\<rparr>)
       else st\<lparr>pc := EB_Jump\<rparr>
   | EB_Jump \<Rightarrow> st
   | EB_Ret r \<Rightarrow> st)"

definition eb_final :: "eb_pc \<Rightarrow> bool" where
  "eb_final p = (p = EB_Jump \<or> (\<exists>r. p = EB_Ret r))"

text \<open>The states reachable from \<open>st0\<close>.\<close>

inductive eb_reach :: "nat \<Rightarrow> nat \<Rightarrow> eb_state \<Rightarrow> eb_state \<Rightarrow> bool" where
  start: "eb_reach d s st0 st0"
| step: "eb_reach d s st0 st \<Longrightarrow> \<not> eb_final (pc st) \<Longrightarrow> eb_reach d s st0 (eb_step d s st)"

text \<open>The position of a program point in the source, which every step increases.\<close>

fun eb_rank :: "eb_pc \<Rightarrow> nat" where
  "eb_rank EB_Get1 = 0" | "eb_rank EB_Alloc1 = 1" | "eb_rank EB_Get2 = 2" | "eb_rank EB_Exit1 = 3"
| "eb_rank EB_Free1 = 4" | "eb_rank EB_Get3 = 5" | "eb_rank EB_Alloc2 = 6" | "eb_rank EB_Get4 = 7"
| "eb_rank EB_Exit2 = 8" | "eb_rank EB_Check = 9" | "eb_rank EB_Jump = 10" | "eb_rank (EB_Ret r) = 10"

text \<open>
  The run of lines 1159--1219: ten steps, one per call on the longest path;
  a step at a final point changes nothing, and every other step moves to a
  later point (\<open>eb_rank\<close>), so ten steps reach a final point from anywhere.
\<close>

definition eb_run :: "nat \<Rightarrow> nat \<Rightarrow> eb_state \<Rightarrow> eb_state" where
  "eb_run d s st = (eb_step d s ^^ 10) st"

text \<open>The entry state of line 1138: \<open>MemMapSize = 0\<close>, \<open>MemMap = NULL\<close>, key unset.\<close>

definition eb_init :: "firmware \<Rightarrow> eb_state" where
  "eb_init f = \<lparr>fw = f, MemMapSize = 0, MemMap = None, MemMapKey = None, mm_copy = None,
                GoTimeStatus = FwSuccess, pc = EB_Get1\<rparr>"

text \<open>
  Well-formedness of a handshake state: a key the loader holds was issued by
  the firmware, and if it is the current key the buffer holds the map of that
  key; a copied map lies in an allocated buffer; once boot services have exited
  the buffer holds the current map, the status is success and control is at the
  check of line 1208 or past it.
\<close>

definition eb_wf :: "eb_state \<Rightarrow> bool" where
  "eb_wf st =
     ((case MemMapKey st of
         None \<Rightarrow> True
       | Some k \<Rightarrow> k \<le> fw_key (fw st) \<and> (k = fw_key (fw st) \<longrightarrow> mm_copy st = Some k)) \<and>
      (mm_copy st \<noteq> None \<longrightarrow> MemMap st \<noteq> None) \<and>
      (fw_exited (fw st) \<longrightarrow>
         mm_copy st = Some (fw_key (fw st)) \<and> MemMapKey st = mm_copy st \<and>
         GoTimeStatus st = FwSuccess \<and> (pc st = EB_Check \<or> pc st = EB_Jump)))"

text \<open>A firmware map of 40 descriptors with key 7, for the examples.\<close>

definition boot_fw :: firmware where
  "boot_fw = \<lparr>fw_ndesc = 40, fw_key = 7, fw_exited = False, fw_oom = False\<rparr>"

section \<open>Lemmas\<close>

lemma eb_rank_step:
  "\<not> eb_final (pc st) \<Longrightarrow> eb_rank (pc st) < eb_rank (pc (eb_step d s st))"
  by (cases "pc st")
     (auto simp: eb_step_def eb_final_def Let_def GetMemoryMap_def AllocatePool_def FreePool_def
        ExitBootServices_def)

lemma eb_step_final:
  "eb_final (pc st) \<Longrightarrow> eb_step d s st = st"
  by (auto simp: eb_step_def eb_final_def)

lemma eb_wf_step:
  "eb_wf st \<Longrightarrow> eb_wf (eb_step d s st)"
  by (cases "pc st")
     (auto simp: eb_step_def eb_wf_def Let_def GetMemoryMap_def AllocatePool_def FreePool_def
        ExitBootServices_def EFI_ERROR_def split: option.splits)

lemma funpow_final:
  assumes "eb_final (pc ((eb_step d s ^^ k) st))" "k \<le> n"
  shows "(eb_step d s ^^ n) st = (eb_step d s ^^ k) st"
proof -
  have "(eb_step d s ^^ m) ((eb_step d s ^^ k) st) = (eb_step d s ^^ k) st" for m
    by (induction m) (simp_all add: eb_step_final [OF assms(1)])
  then show ?thesis using assms(2) by (metis funpow_add_apply le_add_diff_inverse2)
qed

lemmas eb_eval = eb_step_def eb_init_def Let_def GetMemoryMap_def AllocatePool_def FreePool_def
  ExitBootServices_def EFI_ERROR_def eb_final_def

lemma eb_run_jump:
  assumes "\<not> fw_oom f" "\<not> fw_exited f" "0 < fw_ndesc f" "0 < d"
  shows "pc (eb_run d 0 (eb_init f)) = EB_Jump \<and> fw_exited (fw (eb_run d 0 (eb_init f))) \<and>
         mm_copy (eb_run d 0 (eb_init f)) = Some (fw_key (fw (eb_run d 0 (eb_init f))))"
proof -
  have pos: "0 < fw_ndesc f * d" using assms by simp
  have five: "pc ((eb_step d 0 ^^ 5) (eb_init f)) = EB_Jump \<and> fw_exited (fw ((eb_step d 0 ^^ 5) (eb_init f))) \<and>
         mm_copy ((eb_step d 0 ^^ 5) (eb_init f)) = Some (fw_key (fw ((eb_step d 0 ^^ 5) (eb_init f))))"
    using assms pos by (simp add: eval_nat_numeral eb_eval)
  have "eb_run d 0 (eb_init f) = (eb_step d 0 ^^ 5) (eb_init f)"
    unfolding eb_run_def by (rule funpow_final) (use five in \<open>simp_all add: eb_final_def\<close>)
  then show ?thesis using five by simp
qed

section \<open>Properties\<close>

text \<open>
  C32.  Every state the handshake reaches from the entry state is well formed
  (\<open>eb_wf\<close>): the loader never holds a key the firmware has not issued, a current
  key always comes with the map it belongs to, and boot services are only ever
  exited with the current map in the buffer.
\<close>

theorem eb_reach_wf:
  assumes "eb_reach d s (eb_init f) st" "\<not> fw_exited f"
  shows "eb_wf st"
proof -
  have "eb_wf (eb_init f)" using assms(2) by (simp add: eb_wf_def eb_init_def)
  with assms(1) show ?thesis
    by (induction rule: eb_reach.induct) (auto intro: eb_wf_step)
qed

theorem eb_reach_wf_witness:
  "eb_wf (eb_step 48 1 (eb_init boot_fw))"
proof -
  have r: "eb_reach 48 1 (eb_init boot_fw) (eb_step 48 1 (eb_init boot_fw))"
    by (rule eb_reach.step [OF eb_reach.start]) (simp add: eb_init_def eb_final_def)
  show ?thesis by (rule eb_reach_wf [OF r]) (simp add: boot_fw_def)
qed

text \<open>
  C33.  When a pool allocation does not add descriptors to the map, the
  handshake always gets through: after the first \<open>ExitBootServices\<close> control
  reaches the jump to the kernel, boot services have exited, and the buffer
  holds the map of the current key.
\<close>

theorem eb_run_boots:
  assumes "\<not> fw_oom f" "\<not> fw_exited f" "0 < fw_ndesc f" "0 < d"
  shows "pc (eb_run d 0 (eb_init f)) = EB_Jump \<and> fw_exited (fw (eb_run d 0 (eb_init f))) \<and>
         mm_copy (eb_run d 0 (eb_init f)) = Some (fw_key (fw (eb_run d 0 (eb_init f))))"
  using assms by (rule eb_run_jump)

theorem eb_run_boots_witness:
  "pc (eb_run 48 0 (eb_init boot_fw)) = EB_Jump"
  using eb_run_boots [of boot_fw 48] by (simp add: boot_fw_def)



end
