(* ===== verification/GoTime.thy ===== *)
theory GoTime
  imports KernelCmd ElfLoad ExitBoot
begin

text \<open>
  \<open>GoTime\<close> (\<open>src/JosPkg/Application/Loader/Loader.c\<close>) as the composition of
  its stages: the setup calls and the copy of the ESP root path (lines 55--118),
  the \<open>Kernel64.txt\<close> stage of \<open>KernelCmd\<close> (lines 244--391), the calls that
  free the text buffers and open the kernel file (lines 399--469), the ELF
  stage of \<open>ElfLoad\<close> with the memory check of \<open>MemCheck\<close> (lines 506--1039), the allocation of the loader block
  (lines 1074--1081), the handshake of \<open>ExitBoot\<close> (lines 1138--1219), and the
  fill of \<open>Loader_block\<close> before the jump to the entry point (lines
  1276--1319).  Firmware calls whose only effect on the loader is their status
  enter as lists of statuses, checked in program order.
\<close>

section \<open>Definitions\<close>

text \<open>
  The loader's \<open>LOADER_PARAMS\<close> as declared in the comment of lines 1245--1272
  (\<open>UINTN\<close> is 64 bits wide in the loader).  Strings are their contents; the
  memory map is the key of the map copied into the buffer; the pointers the
  loader only passes through (\<open>RTServices\<close>, \<open>GPU_Configs\<close>, \<open>FileMeta\<close>,
  \<open>ConfigTables\<close>) are omitted.
\<close>

record LOADER_BLOCK =
  UEFI_Version :: u32
  Bootloader_MajorVersion :: u32
  Bootloader_MinorVersion :: u32
  Memory_Map_Descriptor_Size :: u64
  Memory_Map :: "nat option"
  Memory_Map_Size :: u64
  Kernel_BaseAddress :: u64
  Kernel_Pages :: u64
  ESP_Root_Device_Path :: "u16 list"
  ESP_Root_Size :: u64
  Kernel_Path :: "u16 pool"
  Kernel_Path_Size :: u64
  Kernel_Options :: "u16 pool"
  Kernel_Options_Size :: u64
  Number_of_ConfigTables :: u64

text \<open>
  Opening a file and reading its \<open>EFI_FILE_INFO\<close> (lines 181--218 for
  \<open>Kernel64.txt\<close>, 426--469 for the kernel): \<open>Open\<close>, \<open>GetInfo\<close> with a \<open>NULL\<close>
  buffer to learn the size, \<open>AllocatePool\<close>, and \<open>GetInfo\<close> into the buffer.
\<close>

record file_calls =
  fc_open :: fw_status
  fc_info_size :: fw_status
  fc_alloc :: fw_status
  fc_info :: fw_status

text \<open>
  The status \<open>GoTime\<close> returns, if any: the first \<open>GetInfo\<close> is not checked
  (by the UEFI specification it answers \<open>EFI_BUFFER_TOO_SMALL\<close>).
\<close>

definition open_file_info :: "file_calls \<Rightarrow> fw_status option" where
  "open_file_info fc =
     (if EFI_ERROR (fc_open fc) then Some (fc_open fc)
      else if EFI_ERROR (fc_alloc fc) then Some (fc_alloc fc)
      else if EFI_ERROR (fc_info fc) then Some (fc_info fc)
      else None)"

text \<open>
  The statuses of the firmware calls of \<open>GoTime\<close> outside the modelled stages:
  the setup calls, the two file opens, the read and the two allocations of the
  \<open>Kernel64.txt\<close> stage, the three \<open>FreePool\<close> calls of lines 400--419, the calls
  of the ELF stage and the allocation of the loader block.
\<close>

record gt_calls =
  gt_setup :: "fw_status list"
  gt_txt :: file_calls
  gt_read :: fw_status
  gt_alloc_path :: fw_status
  gt_alloc_cmd :: fw_status
  gt_frees :: "fw_status list"
  gt_kfile :: file_calls
  gt_elf :: elf_calls
  gt_block :: fw_status

text \<open>
  Lines 55--118: \<open>OpenProtocol\<close>, the copy of the ESP root path into a pool of
  \<open>StrSize\<close> bytes, \<open>FreePool\<close>, \<open>OpenProtocol\<close>, \<open>OpenVolume\<close>, and the
  allocation of \<open>TxtFilePath\<close> (line 158); the result is \<open>ESPRoot\<close> and
  \<open>ESPRootSize\<close>.
\<close>

definition setup_stage :: "gt_calls \<Rightarrow> u16 list \<Rightarrow> loader_stop + u16 list \<times> nat" where
  "setup_stage c esp =
     (case first_error (gt_setup c) of
        Some e \<Rightarrow> Inl (Returns e)
      | None \<Rightarrow> Inr (take (StrSize esp div 2) esp, StrSize esp))"

text \<open>
  Lines 1276--1300: the fields of \<open>Loader_block\<close> from \<open>GoTime\<close>'s locals;
  \<open>ver\<close> is \<open>(UEFIVer, MAJOR_VER, MINOR_VER)\<close> and \<open>ncfg\<close> is \<open>NumSysCfgTables\<close>.
\<close>

definition fill_loader_block ::
  "u32 \<times> u32 \<times> u32 \<Rightarrow> u64 \<Rightarrow> nat \<Rightarrow> eb_state \<Rightarrow> u64 \<Rightarrow> u64 \<Rightarrow> u16 list \<times> nat \<Rightarrow>
   u16 pool \<times> u16 pool \<times> nat \<times> nat \<Rightarrow> LOADER_BLOCK" where
  "fill_loader_block ver ncfg d st base pages esp cmd =
     (case ver of (uv, ma, mi) \<Rightarrow> case esp of (er, es) \<Rightarrow> case cmd of (kp, cl, kps, cls) \<Rightarrow>
      \<lparr>UEFI_Version = uv, Bootloader_MajorVersion = ma, Bootloader_MinorVersion = mi,
       Memory_Map_Descriptor_Size = of_nat d, Memory_Map = mm_copy st,
       Memory_Map_Size = of_nat (MemMapSize st),
       Kernel_BaseAddress = base, Kernel_Pages = pages,
       ESP_Root_Device_Path = er, ESP_Root_Size = of_nat es,
       Kernel_Path = kp, Kernel_Path_Size = of_nat kps,
       Kernel_Options = cl, Kernel_Options_Size = of_nat cls,
       Number_of_ConfigTables = ncfg\<rparr>)"

text \<open>
  \<open>GoTime\<close>: the stages in program order, each \<open>return\<close> ending the run.  On
  success the result is the block passed to the kernel, the entry address
  \<open>Header_memory\<close> called through the System V ABI (\<open>KernelisPE = 0\<close>), and the
  memory after loading; \<open>None\<close> is a run that does not return (the memory
  check spinning).  \<open>mc\<close> is the firmware as the memory check sees it, \<open>d\<close>
  and \<open>s\<close> the descriptor size and the growth of the map on a pool allocation
  (\<open>ExitBoot\<close>).
\<close>

definition GoTime ::
  "gt_calls \<Rightarrow> u32 \<times> u32 \<times> u32 \<Rightarrow> u64 \<Rightarrow> u16 list \<Rightarrow> u16 list \<Rightarrow> Elf \<Rightarrow> Proghdr list \<Rightarrow>
   mc_fw \<Rightarrow> u8 list \<Rightarrow> phys_mem \<Rightarrow> nat \<Rightarrow> nat \<Rightarrow> firmware \<Rightarrow>
   (loader_stop + LOADER_BLOCK \<times> u64 \<times> phys_mem) option" where
  "GoTime c ver ncfg esp txt hdr phs mc kf m d s f0 =
     (case setup_stage c esp of
        Inl e \<Rightarrow> Some (Inl e)
      | Inr espr \<Rightarrow>
       (case open_file_info (gt_txt c) of
          Some e \<Rightarrow> Some (Inl (Returns e))
        | None \<Rightarrow>
        (case kernelcmd_stage (gt_read c) (gt_alloc_path c) (gt_alloc_cmd c) txt of
           Inl e \<Rightarrow> Some (Inl e)
         | Inr cmd \<Rightarrow>
           (case first_error (gt_frees c) of
              Some e \<Rightarrow> Some (Inl (Returns e))
            | None \<Rightarrow>
             (case open_file_info (gt_kfile c) of
                Some e \<Rightarrow> Some (Inl (Returns e))
              | None \<Rightarrow>
              (case elf_stage (gt_elf c) mc hdr phs kf m of
                 None \<Rightarrow> None
               | Some (Inl e) \<Rightarrow> Some (Inl e)
               | Some (Inr (base, pages, entry, m')) \<Rightarrow>
                 if EFI_ERROR (gt_block c) then Some (Inl (Returns (gt_block c)))
                 else
                   (let st = eb_run d s (eb_init f0) in
                    case pc st of
                      EB_Ret r \<Rightarrow> Some (Inl (Returns r))
                    | _ \<Rightarrow> Some (Inr (fill_loader_block ver ncfg d st base pages espr cmd, entry, m')))))))))"

text \<open>
  The calls of a run in which every firmware call succeeds, except the size
  queries, which answer \<open>EFI_BUFFER_TOO_SMALL\<close> as they should.
\<close>

definition ok_file :: file_calls where
  "ok_file = \<lparr>fc_open = FwSuccess, fc_info_size = FwBufferTooSmall, fc_alloc = FwSuccess,
              fc_info = FwSuccess\<rparr>"

definition all_ok :: gt_calls where
  "all_ok = \<lparr>gt_setup = [], gt_txt = ok_file, gt_read = FwSuccess, gt_alloc_path = FwSuccess,
             gt_alloc_cmd = FwSuccess, gt_frees = [], gt_kfile = ok_file, gt_elf = ok_calls,
             gt_block = FwSuccess\<rparr>"

section \<open>Properties\<close>

text \<open>
  C35.  End to end: when every firmware call succeeds, \<open>Kernel64.txt\<close> holds a
  space-free path and a command line, the ELF stage loads the image, and a pool
  allocation does not grow the map, \<open>GoTime\<close> jumps to the entry point with a
  loader block that carries exactly that path and command line, the base and
  page count of the loaded image, and the memory map that was current when
  boot services exited.
\<close>

theorem GoTime_hands_over:
  assumes "SP \<notin> set p" "LF \<notin> set p" "CR \<notin> set p" "LF \<notin> set q" "CR \<notin> set q"
    and elf: "elf_stage ok_calls mc hdr phs kf m = Some (Inr (base, pages, entry, m'))"
    and fw: "\<not> fw_oom f" "\<not> fw_exited f" "0 < fw_ndesc f" "0 < d"
  shows "\<exists>blk. GoTime all_ok ver ncfg esp (UTF16_BOM_LE # p @ [LF] @ q) hdr phs mc kf m d 0 f =
                 Some (Inr (blk, entry, m')) \<and>
               Kernel_Path blk = map Some p @ [Some 0] \<and> Kernel_Options blk = map Some q @ [Some 0] \<and>
               Kernel_BaseAddress blk = base \<and> Kernel_Pages blk = pages \<and>
               Memory_Map blk = Some (fw_key (fw (eb_run d 0 (eb_init f))))"
proof -
  have parse: "KernelcmdParse (UTF16_BOM_LE # p @ [LF] @ q @ []) =
      Inr (map Some p @ [Some 0], map Some q @ [Some 0], 2 * (length p + 1), 2 * (length q + 1))"
    using assms(1-5) by (intro KernelcmdParse_lines) simp_all
  have stage: "kernelcmd_stage FwSuccess FwSuccess FwSuccess (UTF16_BOM_LE # p @ [LF] @ q) =
      Inr (map Some p @ [Some 0], map Some q @ [Some 0], 2 * (length p + 1), 2 * (length q + 1))"
    using parse by (simp add: kernelcmd_stage_def bom_check_def EFI_ERROR_def)
  have run: "pc (eb_run d 0 (eb_init f)) = EB_Jump \<and>
             mm_copy (eb_run d 0 (eb_init f)) = Some (fw_key (fw (eb_run d 0 (eb_init f))))"
    using eb_run_jump [OF fw] by simp
  obtain uv ma mi where ver: "ver = (uv, ma, mi)" by (cases ver) auto
  show ?thesis
    using stage elf run
    by (simp add: GoTime_def all_ok_def ok_file_def open_file_info_def setup_stage_def first_error_def
        fill_loader_block_def EFI_ERROR_def Let_def ver)
qed

theorem GoTime_hands_over_witness:
  "\<exists>blk M. GoTime all_ok (0x20046, 2, 2) 0 (L ''fs0'') (UTF16_BOM_LE # L ''k'' @ [LF] @ L ''c'')
              ex_hdr [ex_load] zero_fw [1, 2] (\<lambda>_. 7) 48 0 boot_fw = Some (Inr (blk, 0x100000, M)) \<and>
            Kernel_Path blk = [Some 0x6B, Some 0] \<and> Kernel_Options blk = [Some 0x63, Some 0]"
proof -
  have "\<exists>M. elf_stage ok_calls zero_fw ex_hdr [ex_load] [1, 2] (\<lambda>_. 7) = Some (Inr (0x100000, 1, 0x100000, M))"
    by (simp add: elf_eval)
  then obtain M where
    r: "elf_stage ok_calls zero_fw ex_hdr [ex_load] [1, 2] (\<lambda>_. 7) = Some (Inr (0x100000, 1, 0x100000, M))"
    by blast
  show ?thesis
    using GoTime_hands_over [OF _ _ _ _ _ r, of "L ''k''" "L ''c''" boot_fw 48 "(0x20046, 2, 2)" 0 "L ''fs0''"]
    by (simp add: L_def boot_fw_def) blast
qed

end
