(* ===== verification/GopNaming.thy ===== *)
theory GopNaming
  imports Firmware
begin

text \<open>
  The naming pass of \<open>InitUEFI_GOP\<close> (\<open>src/JosPkg/Application/Loader/Graphics.c\<close>,
  lines 82--101 and 227--803): for every graphics handle, find the controller
  whose device path matches the handle's and ask the \<open>EFI_COMPONENT_NAME2\<close>
  drivers for the driver, controller and child names, first with a size check
  and a \<open>PCI_IO\<close> ownership test, then ("funky graphics device") without them
  and with the Wall of Shame check.  The names are computed and then dropped
  (their only use is commented out), so what the pass contributes to
  \<open>InitUEFI_GOP\<close> is the status it returns when a checked call fails; the names
  still steer which calls are made.
\<close>

section \<open>Definitions\<close>

subsection \<open>The Wall of Shame\<close>

text \<open>The driver names on the wall (lines 137--144), each with its terminator.\<close>

definition Wall_of_Shame :: "u16 list list" where
  "Wall_of_Shame =
     [L ''AMI PS/2 Driver'' @ [0], L ''ASIX AX88772B Ethernet Driver 1.0'' @ [0],
      L ''Socket Layer Driver'' @ [0], L ''AX88772 Ethernet Driver'' @ [0]]"

text \<open>
  \<open>compare(a, b, n)\<close> (loader library): the first \<open>n\<close> bytes agree; on \<open>CHAR16\<close>
  strings compared over an even number of bytes, the first \<open>n/2\<close> units.
\<close>

definition compare :: "u16 list \<Rightarrow> u16 list \<Rightarrow> nat \<Rightarrow> bool" where
  "compare a b n = (take (n div 2) a = take (n div 2) b)"

text \<open>Line 649: the name against one entry, over the smaller of the two \<open>StrSize\<close>s.\<close>

definition wall_match :: "u16 list \<Rightarrow> u16 list \<Rightarrow> bool" where
  "wall_match name bad =
     (let a = StrSize name; b = StrSize bad in compare name bad (if a < b then a else b))"

text \<open>Lines 640--663: the loop over the wall; a match means \<open>continue\<close> with the next driver.\<close>

definition wall_check :: "u16 list \<Rightarrow> bool" where
  "wall_check name = list_ex (wall_match name) Wall_of_Shame"

subsection \<open>Device paths\<close>

text \<open>
  A device path node is its bytes: type, subtype, a two-byte little-endian
  length that counts the whole node, then data.  A path instance is its nodes
  and lies in memory followed by an end node (\<open>7F FF 04 00\<close> at the end of
  the path); a multi-instance path is a list of instances.  \<open>GetDevicePathSize\<close>
  and \<open>GetNextDevicePathInstance\<close> are EDK2 library functions
  (\<open>UefiDevicePathLib\<close>): the size counts every instance with its end node, and
  an instance is returned as a fresh copy ending in an end node, with \<open>Size\<close>
  counting that end node.
\<close>

type_synonym dp_node = "u8 list"

definition END_ENTIRE :: "u8 list" where
  "END_ENTIRE = [0x7F, 0xFF, 4, 0]"

definition dp_bytes :: "dp_node list \<Rightarrow> u8 list" where
  "dp_bytes ns = concat ns @ END_ENTIRE"

definition GetDevicePathSize :: "dp_node list list \<Rightarrow> nat" where
  "GetDevicePathSize is = sum_list (map (\<lambda>ns. length (dp_bytes ns)) is)"

text \<open>\<open>DevicePathNodeLength\<close> of a path: the length of its first node (the end node if there is none).\<close>

definition DevicePathNodeLength :: "dp_node list \<Rightarrow> nat" where
  "DevicePathNodeLength ns = (case ns of [] \<Rightarrow> 4 | n # _ \<Rightarrow> length n)"

text \<open>
  \<open>LibMatchDevicePaths(Multi, Single)\<close> (lines 82--101): \<open>FALSE\<close> for a
  \<open>NULL\<close> path, otherwise whether the first \<open>Size\<close> bytes of \<open>Single\<close> equal
  some instance of \<open>Multi\<close> (its copy, end node included).  \<open>CompareMem\<close>
  reading past the end of a shorter \<open>Single\<close> is taken as a mismatch.
\<close>

definition LibMatchDevicePaths :: "dp_node list list option \<Rightarrow> dp_node list option \<Rightarrow> bool" where
  "LibMatchDevicePaths multi single =
     (case (multi, single) of
        (Some is, Some s) \<Rightarrow>
          list_ex (\<lambda>ns. take (length (dp_bytes ns)) (dp_bytes s) = dp_bytes ns) is
      | _ \<Rightarrow> False)"

text \<open>
  \<open>CntlrPathSize\<close> (line 237): the size of the graphics handle's path minus
  the length of its first node, plus 4 "to account for the end node".
\<close>

definition CntlrPathSize :: "dp_node list \<Rightarrow> nat" where
  "CntlrPathSize gp = GetDevicePathSize [gp] - DevicePathNodeLength gp + 4"

subsection \<open>The firmware's answers\<close>

text \<open>
  One entry of \<open>DevPathHandles\<close> as the naming loops query it: the four
  \<open>EFI_OPEN_PROTOCOL_TEST_PROTOCOL\<close> calls (\<open>DriverBinding\<close>, \<open>LoadedImage\<close>,
  \<open>SimpleFileSystem\<close>, \<open>Sio\<close>), the \<open>DevicePath\<close> open and the path, and per
  \<open>Name2Handles\<close> index the \<open>PCI_IO\<close> open \<open>BY_DRIVER\<close> and its
  \<open>CloseProtocol\<close>.
\<close>

record gop_ctrl =
  gc_binding :: fw_status
  gc_loaded :: fw_status
  gc_simplefs :: fw_status
  gc_sio :: fw_status
  gc_devpath :: fw_status
  gc_path :: "dp_node list list"
  gc_pciio :: "nat \<Rightarrow> fw_status"
  gc_close :: "nat \<Rightarrow> fw_status"

text \<open>
  One entry of \<open>Name2Handles\<close>: the \<open>ComponentName2\<close> open, \<open>GetDriverName\<close> per
  language (0, 1, 2 for \<open>en-US\<close>, \<open>en\<close>, \<open>eng\<close>), and \<open>GetControllerName\<close> per
  controller index, child (\<open>None\<close> for \<open>NULL\<close>, else the graphics handle's
  index) and language, each a status and the name it writes.
\<close>

record gop_name2 =
  gn_open :: fw_status
  gn_driver :: "nat \<Rightarrow> fw_status \<times> u16 list"
  gn_ctrl :: "nat \<Rightarrow> nat option \<Rightarrow> nat \<Rightarrow> fw_status \<times> u16 list"

text \<open>
  The three name pointers; \<open>None\<close> is the default string (\<open>L"No Driver Name"\<close>
  and so on), which the code recognises by pointer comparison.
\<close>

record gop_names =
  DriverDisplayName :: "u16 list option"
  ControllerDisplayName :: "u16 list option"
  ChildDisplayName :: "u16 list option"

definition default_names :: gop_names where
  "default_names = \<lparr>DriverDisplayName = None, ControllerDisplayName = None, ChildDisplayName = None\<rparr>"

subsection \<open>The naming loops\<close>

text \<open>
  A name query with the language fallback (e.g. lines 372--404): ask in
  \<open>en-US\<close>, on \<open>EFI_UNSUPPORTED\<close> in \<open>en\<close>, then in \<open>eng\<close>; an error leaves the
  default name.
\<close>

definition name_query :: "(nat \<Rightarrow> fw_status \<times> u16 list) \<Rightarrow> u16 list option" where
  "name_query q =
     (let r = (if fst (q 0) = FwUnsupported then
                 (if fst (q 1) = FwUnsupported then q 2 else q 1)
               else q 0)
      in if EFI_ERROR (fst r) then None else Some (snd r))"

text \<open>Lines 258--283: a handle with one of the four protocols is not a controller.\<close>

definition ctrl_skipped :: "gop_ctrl \<Rightarrow> bool" where
  "ctrl_skipped ct =
     (\<not> EFI_ERROR (gc_binding ct) \<or> \<not> EFI_ERROR (gc_loaded ct) \<or>
      \<not> EFI_ERROR (gc_simplefs ct) \<or> \<not> EFI_ERROR (gc_sio ct))"

text \<open>
  The first pass's driver loop (lines 323--466) for controller \<open>c\<close> and
  graphics handle \<open>dn\<close>: a driver that can open \<open>PCI_IO\<close> \<open>BY_DRIVER\<close> does not
  manage the controller (close it and go on), one that gets
  \<open>EFI_ALREADY_STARTED\<close> does: open its \<open>ComponentName2\<close> and query the three
  names (lines 365--462), then \<open>break\<close>.  \<open>Inr None\<close>: no driver found.
\<close>

fun name2_loop :: "gop_ctrl \<Rightarrow> nat \<Rightarrow> nat \<Rightarrow> nat \<Rightarrow> gop_name2 list \<Rightarrow> fw_status + gop_names option" where
  "name2_loop ct c dn j [] = Inr None"
| "name2_loop ct c dn j (nd # nds) =
     (if \<not> EFI_ERROR (gc_pciio ct j) then
        (if EFI_ERROR (gc_close ct j) then Inl (gc_close ct j) else name2_loop ct c dn (Suc j) nds)
      else if gc_pciio ct j \<noteq> FwAlreadyStarted then name2_loop ct c dn (Suc j) nds
      else if EFI_ERROR (gn_open nd) then Inl (gn_open nd)
      else Inr (Some \<lparr>DriverDisplayName = name_query (gn_driver nd),
                      ControllerDisplayName = name_query (gn_ctrl nd c None),
                      ChildDisplayName = name_query (gn_ctrl nd c (Some dn))\<rparr>))"

text \<open>
  The first pass's controller loop (lines 251--468): skip non-controllers,
  open the device path (an error is returned), skip paths whose size is not
  \<open>CntlrPathSize\<close>; the first matching controller runs the driver loop and
  ends the loop.
\<close>

fun ctrl_loop ::
  "gop_name2 list \<Rightarrow> nat \<Rightarrow> dp_node list \<Rightarrow> nat \<Rightarrow> nat \<Rightarrow> gop_ctrl list \<Rightarrow> gop_names \<Rightarrow> fw_status + gop_names" where
  "ctrl_loop n2 dn gp sz c [] nm = Inr nm"
| "ctrl_loop n2 dn gp sz c (ct # cts) nm =
     (if ctrl_skipped ct then ctrl_loop n2 dn gp sz (Suc c) cts nm
      else if EFI_ERROR (gc_devpath ct) then Inl (gc_devpath ct)
      else if GetDevicePathSize (gc_path ct) \<noteq> sz then ctrl_loop n2 dn gp sz (Suc c) cts nm
      else if LibMatchDevicePaths (Some (gc_path ct)) (Some gp) then
        (case name2_loop ct c dn 0 n2 of
           Inl s \<Rightarrow> Inl s
         | Inr None \<Rightarrow> Inr nm
         | Inr (Some nm') \<Rightarrow> Inr nm')
      else ctrl_loop n2 dn gp sz (Suc c) cts nm)"

text \<open>
  The second pass's driver loop (lines 562--783): the ownership test is
  commented out; open \<open>ComponentName2\<close> (an error is returned), query the
  driver name and reject a driver on the Wall of Shame (default driver name,
  next driver), query the controller and child names, and stop at the first
  driver that gives a child name.
\<close>

fun funky_name2_loop :: "nat \<Rightarrow> nat \<Rightarrow> gop_name2 list \<Rightarrow> gop_names \<Rightarrow> fw_status + gop_names" where
  "funky_name2_loop c dn [] nm = Inr nm"
| "funky_name2_loop c dn (nd # nds) nm =
     (if EFI_ERROR (gn_open nd) then Inl (gn_open nd)
      else
        (let drv = name_query (gn_driver nd) in
         if (case drv of None \<Rightarrow> False | Some name \<Rightarrow> wall_check name) then
           funky_name2_loop c dn nds (nm\<lparr>DriverDisplayName := None\<rparr>)
         else
           (let nm' = nm\<lparr>DriverDisplayName := drv,
                         ControllerDisplayName := name_query (gn_ctrl nd c None),
                         ChildDisplayName := name_query (gn_ctrl nd c (Some dn))\<rparr>
            in if ChildDisplayName nm' \<noteq> None then Inr nm' else funky_name2_loop c dn nds nm')))"

text \<open>
  The second pass's controller loop (lines 497--787): as the first without the
  size check; after the driver loop it stops once a child name was found.
\<close>

fun funky_ctrl_loop ::
  "gop_name2 list \<Rightarrow> nat \<Rightarrow> dp_node list \<Rightarrow> nat \<Rightarrow> gop_ctrl list \<Rightarrow> gop_names \<Rightarrow> fw_status + gop_names" where
  "funky_ctrl_loop n2 dn gp c [] nm = Inr nm"
| "funky_ctrl_loop n2 dn gp c (ct # cts) nm =
     (if ctrl_skipped ct then funky_ctrl_loop n2 dn gp (Suc c) cts nm
      else if EFI_ERROR (gc_devpath ct) then Inl (gc_devpath ct)
      else if LibMatchDevicePaths (Some (gc_path ct)) (Some gp) then
        (case funky_name2_loop c dn n2 nm of
           Inl s \<Rightarrow> Inl s
         | Inr nm' \<Rightarrow> if ChildDisplayName nm' \<noteq> None then Inr nm' else funky_ctrl_loop n2 dn gp (Suc c) cts nm')
      else funky_ctrl_loop n2 dn gp (Suc c) cts nm)"

text \<open>
  One graphics handle (lines 229--801), from the status of opening its device
  path and the path: on success the first pass, and the second when all three
  names are still the defaults; \<open>EFI_UNSUPPORTED\<close> skips the handle, another
  error is returned.  The result is the status returned, \<open>None\<close> to go on.
\<close>

definition dev_naming :: "gop_ctrl list \<Rightarrow> gop_name2 list \<Rightarrow> nat \<Rightarrow> fw_status \<times> dp_node list \<Rightarrow> fw_status option" where
  "dev_naming cts n2 dn d =
     (case d of (st, gp) \<Rightarrow>
        if st = FwSuccess then
          (case ctrl_loop n2 dn gp (CntlrPathSize gp) 0 cts default_names of
             Inl s \<Rightarrow> Some s
           | Inr nm \<Rightarrow>
               if nm = default_names then
                 (case funky_ctrl_loop n2 dn gp 0 cts nm of Inl s \<Rightarrow> Some s | Inr _ \<Rightarrow> None)
               else None)
        else if st = FwUnsupported then None
        else if EFI_ERROR st then Some st
        else None)"

text \<open>The loop over the graphics handles (lines 227--803).\<close>

fun naming_loop :: "gop_ctrl list \<Rightarrow> gop_name2 list \<Rightarrow> nat \<Rightarrow> (fw_status \<times> dp_node list) list \<Rightarrow> fw_status option" where
  "naming_loop cts n2 dn [] = None"
| "naming_loop cts n2 dn (d # ds) =
     (case dev_naming cts n2 dn d of
        Some s \<Rightarrow> Some s
      | None \<Rightarrow> naming_loop cts n2 (Suc dn) ds)"

text \<open>
  Well-formed nodes as the UEFI specification lays them out: at least the
  four header bytes, not an end node (type \<open>7F\<close>), and the length field
  giving the node's length.
\<close>

definition dp_node_wf :: "dp_node \<Rightarrow> bool" where
  "dp_node_wf n = (4 \<le> length n \<and> n ! 0 \<noteq> 0x7F \<and> unat (n ! 2) + 256 * unat (n ! 3) = length n)"

definition dp_wf :: "dp_node list \<Rightarrow> bool" where
  "dp_wf ns = list_all dp_node_wf ns"

text \<open>Every call of the naming pass that is followed by \<open>return\<close> on error succeeds.\<close>

definition naming_calls_ok :: "gop_ctrl list \<Rightarrow> gop_name2 list \<Rightarrow> bool" where
  "naming_calls_ok cts n2 =
     ((\<forall>ct\<in>set cts. \<not> EFI_ERROR (gc_devpath ct) \<and> (\<forall>j. \<not> EFI_ERROR (gc_close ct j))) \<and>
      (\<forall>nd\<in>set n2. \<not> EFI_ERROR (gn_open nd)))"

text \<open>
  Fixtures: the device path of a PCI Express graphics output
  \<open>PciRoot(0)/Pci(2,0)/AcpiAdr(0x80010100)\<close>, a controller answering with a
  given path, and a driver that names everything.
\<close>

definition ex_pciroot :: dp_node where
  "ex_pciroot = [0x02, 0x01, 0x0C, 0x00, 0xD0, 0x41, 0x03, 0x0A, 0, 0, 0, 0]"

definition ex_pci :: dp_node where
  "ex_pci = [0x01, 0x01, 0x06, 0x00, 0x00, 0x02]"

definition ex_acpiadr :: dp_node where
  "ex_acpiadr = [0x02, 0x03, 0x08, 0x00, 0x00, 0x01, 0x01, 0x80]"

definition ex_gpu_path :: "dp_node list" where
  "ex_gpu_path = [ex_pciroot, ex_pci, ex_acpiadr]"

definition ex_ctrl :: "dp_node list \<Rightarrow> gop_ctrl" where
  "ex_ctrl p =
     \<lparr>gc_binding = FwUnsupported, gc_loaded = FwUnsupported, gc_simplefs = FwUnsupported,
      gc_sio = FwUnsupported, gc_devpath = FwSuccess, gc_path = [p],
      gc_pciio = (\<lambda>_. FwAlreadyStarted), gc_close = (\<lambda>_. FwSuccess)\<rparr>"

definition ex_name2 :: gop_name2 where
  "ex_name2 =
     \<lparr>gn_open = FwSuccess, gn_driver = (\<lambda>_. (FwSuccess, L ''GPU Driver'' @ [0])),
      gn_ctrl = (\<lambda>_ _ _. (FwSuccess, L ''GPU'' @ [0]))\<rparr>"

section \<open>Lemmas\<close>

lemma StrSize_term:
  assumes "0 \<notin> set s"
  shows "StrSize (s @ 0 # r) = 2 * (length s + 1)"
proof -
  have "\<forall>x \<in> set s. x \<noteq> 0" using assms by auto
  then show ?thesis by (simp add: StrSize_def takeWhile_append2)
qed

lemma take_term_eq:
  assumes "0 \<notin> set s" "0 \<notin> set t"
  shows "(take (Suc (min (length s) (length t))) (s @ 0 # r) =
          take (Suc (min (length s) (length t))) (t @ 0 # r')) = (s = t)"
  using assms
proof (induction s arbitrary: t)
  case Nil
  then show ?case by (cases t) auto
next
  case (Cons x s)
  then show ?case by (cases t) auto
qed

lemma wall_match_term:
  assumes "0 \<notin> set s" "0 \<notin> set t"
  shows "wall_match (s @ 0 # r) (t @ [0]) = (s = t)"
proof -
  have sz: "StrSize (s @ 0 # r) = 2 * (length s + 1)" "StrSize (t @ [0]) = 2 * (length t + 1)"
    using StrSize_term [OF assms(1)] StrSize_term [OF assms(2), of "[]"] by simp_all
  have d: "(if 2 * (length s + 1) < 2 * (length t + 1) then 2 * (length s + 1) else 2 * (length t + 1)) div 2
        = Suc (min (length s) (length t))" by simp
  show ?thesis
    unfolding wall_match_def compare_def Let_def sz d by (rule take_term_eq [OF assms])
qed


lemma take_append_same_len:
  assumes "length ys = length xs" "take (length xs + k) (ys @ zs) = xs @ r"
  shows "ys = xs \<and> take k zs = r"
  using assms by simp

lemma END_ENTIRE_len [simp]: "length END_ENTIRE = 4"
  by (simp add: END_ENTIRE_def)

lemma wf_node_not_end:
  assumes "dp_node_wf n"
  shows "take (length END_ENTIRE) (n @ r) \<noteq> END_ENTIRE"
proof
  assume e: "take (length END_ENTIRE) (n @ r) = END_ENTIRE"
  have l: "0 < length n" using assms unfolding dp_node_wf_def by linarith
  have "take 4 (n @ r) ! 0 = (n @ r) ! 0" by (rule nth_take) simp
  also have "\<dots> = n ! 0" using l by (simp add: nth_append)
  finally have n0: "take 4 (n @ r) ! 0 = n ! 0" .
  have "take 4 (n @ r) ! 0 = END_ENTIRE ! 0" using e by simp
  then have "n ! 0 = 0x7F" using n0 by (simp add: END_ENTIRE_def)
  then show False using assms by (simp add: dp_node_wf_def)
qed

lemma wf_node_same_len:
  assumes "dp_node_wf a" "dp_node_wf g" "take (length a + k) (g @ G) = a @ A"
  shows "length a = length g"
proof -
  have i: "(g @ G) ! i = (a @ A) ! i" if "i < length a" for i
  proof -
    have "take (length a + k) (g @ G) ! i = (g @ G) ! i" using that by (intro nth_take) simp
    then show ?thesis using assms(3) by simp
  qed
  have "g ! 2 = a ! 2" "g ! 3 = a ! 3"
    using i [of 2] i [of 3] assms(1,2) by (simp_all add: dp_node_wf_def nth_append)
  then show ?thesis using assms(1,2) by (simp add: dp_node_wf_def)
qed

lemma dp_prefix_iff:
  assumes "\<forall>n\<in>set ns. dp_node_wf n" "\<forall>n\<in>set gp. dp_node_wf n"
  shows "take (length (dp_bytes ns)) (dp_bytes gp) = dp_bytes ns \<longleftrightarrow> ns = gp"
  using assms
proof (induction ns arbitrary: gp)
  case Nil
  consider (N) "gp = []" | (C) g gp' where "gp = g # gp'" by (cases gp) auto
  then show ?case
  proof cases
    case N
    then show ?thesis by simp
  next
    case C
    have "take (length END_ENTIRE) (g @ concat gp' @ END_ENTIRE) \<noteq> END_ENTIRE"
      using Nil.prems(2) C by (intro wf_node_not_end) simp
    then show ?thesis using C by (simp add: dp_bytes_def)
  qed
next
  case (Cons a ns)
  consider (N) "gp = []" | (C) g gp' where "gp = g # gp'" by (cases gp) auto
  then show ?case
  proof cases
    case N
    have "take (length END_ENTIRE) (a @ concat ns @ END_ENTIRE) \<noteq> END_ENTIRE"
      using Cons.prems(1) by (intro wf_node_not_end) simp
    moreover have "length END_ENTIRE \<le> length a"
      using Cons.prems(1) by (simp add: dp_node_wf_def)
    ultimately show ?thesis using N by (auto simp: dp_bytes_def)
  next
    case C
    have wa: "dp_node_wf a" and wg: "dp_node_wf g" using C Cons.prems by simp_all
    show ?thesis
    proof
      assume t: "take (length (dp_bytes (a # ns))) (dp_bytes gp) = dp_bytes (a # ns)"
      have t': "take (length a + length (dp_bytes ns)) (g @ dp_bytes gp') = a @ dp_bytes ns"
        using t C by (simp add: dp_bytes_def)
      have l: "length g = length a" using wf_node_same_len [OF wa wg t'] by simp
      have "g = a \<and> take (length (dp_bytes ns)) (dp_bytes gp') = dp_bytes ns"
        by (rule take_append_same_len [OF l t'])
      then show "a # ns = gp" using Cons.IH [of gp'] Cons.prems C by simp
    next
      assume "a # ns = gp"
      then show "take (length (dp_bytes (a # ns))) (dp_bytes gp) = dp_bytes (a # ns)" by simp
    qed
  qed
qed

lemma LibMatchDevicePaths_iff:
  assumes "list_all dp_wf is" "dp_wf gp"
  shows "LibMatchDevicePaths (Some is) (Some gp) \<longleftrightarrow> gp \<in> set is"
proof -
  have "take (length (dp_bytes ns)) (dp_bytes gp) = dp_bytes ns \<longleftrightarrow> ns = gp" if "ns \<in> set is" for ns
    using that assms by (intro dp_prefix_iff) (auto simp: dp_wf_def list_all_iff)
  then show ?thesis by (auto simp: LibMatchDevicePaths_def list_ex_iff)
qed

lemma GetDevicePathSize_member:
  "gp \<in> set is \<Longrightarrow> length (dp_bytes gp) \<le> GetDevicePathSize is"
  unfolding GetDevicePathSize_def by (rule member_le_sum_list) simp_all

lemma CntlrPathSize_less:
  assumes "4 < DevicePathNodeLength gp"
  shows "CntlrPathSize gp < length (dp_bytes gp)"
proof -
  have "DevicePathNodeLength gp \<le> length (concat gp)"
    using assms by (cases gp) (simp_all add: DevicePathNodeLength_def)
  then show ?thesis using assms by (simp add: CntlrPathSize_def GetDevicePathSize_def dp_bytes_def)
qed

lemma ctrl_loop_first_pass:
  assumes "dp_wf gp" "4 < DevicePathNodeLength gp" "\<forall>ct\<in>set cts. list_all dp_wf (gc_path ct)"
  shows "ctrl_loop n2 dn gp (CntlrPathSize gp) c cts nm =
           (case find (\<lambda>ct. \<not> ctrl_skipped ct \<and> EFI_ERROR (gc_devpath ct)) cts of
              Some ct \<Rightarrow> Inl (gc_devpath ct)
            | None \<Rightarrow> Inr nm)"
  using assms(3)
proof (induction cts arbitrary: c)
  case Nil
  then show ?case by simp
next
  case (Cons ct cts)
  have nm: "\<not> (GetDevicePathSize (gc_path ct) = CntlrPathSize gp \<and> LibMatchDevicePaths (Some (gc_path ct)) (Some gp))"
  proof
    assume a: "GetDevicePathSize (gc_path ct) = CntlrPathSize gp \<and> LibMatchDevicePaths (Some (gc_path ct)) (Some gp)"
    then have "gp \<in> set (gc_path ct)" using LibMatchDevicePaths_iff [of "gc_path ct" gp] Cons.prems assms(1) by simp
    then have "length (dp_bytes gp) \<le> CntlrPathSize gp" using a GetDevicePathSize_member by fastforce
    then show False using CntlrPathSize_less [OF assms(2)] by simp
  qed
  show ?case using Cons.IH [of "Suc c"] Cons.prems nm by auto
qed

lemma name2_loop_error: "name2_loop ct c dn j nds = Inl s \<Longrightarrow> EFI_ERROR s"
  by (induction ct c dn j nds rule: name2_loop.induct) (auto split: if_splits)

lemma ctrl_loop_error: "ctrl_loop n2 dn gp sz c cts nm = Inl s \<Longrightarrow> EFI_ERROR s"
  by (induction cts arbitrary: c) (auto split: if_splits sum.splits option.splits dest: name2_loop_error)

lemma funky_name2_loop_error: "funky_name2_loop c dn nds nm = Inl s \<Longrightarrow> EFI_ERROR s"
  by (induction nds arbitrary: nm) (auto simp: Let_def split: if_splits)

lemma funky_ctrl_loop_error: "funky_ctrl_loop n2 dn gp c cts nm = Inl s \<Longrightarrow> EFI_ERROR s"
  by (induction cts arbitrary: c nm) (auto split: if_splits sum.splits dest: funky_name2_loop_error)

lemma dev_naming_error: "dev_naming cts n2 dn d = Some s \<Longrightarrow> EFI_ERROR s"
  by (auto simp: dev_naming_def split: prod.splits if_splits sum.splits
           dest: ctrl_loop_error funky_ctrl_loop_error)

lemma naming_loop_error: "naming_loop cts n2 dn ds = Some s \<Longrightarrow> EFI_ERROR s"
  by (induction ds arbitrary: dn) (auto split: option.splits dest: dev_naming_error)

lemma name2_loop_ok: "\<forall>j. \<not> EFI_ERROR (gc_close ct j) \<Longrightarrow> \<forall>nd\<in>set nds. \<not> EFI_ERROR (gn_open nd) \<Longrightarrow>
  \<exists>r. name2_loop ct c dn j nds = Inr r"
  by (induction ct c dn j nds rule: name2_loop.induct) auto

lemma ctrl_loop_ok: "naming_calls_ok cts n2 \<Longrightarrow> \<exists>r. ctrl_loop n2 dn gp sz c cts nm = Inr r"
proof (induction cts arbitrary: c)
  case Nil
  then show ?case by simp
next
  case (Cons ct cts)
  have ih: "naming_calls_ok cts n2" using Cons.prems by (simp add: naming_calls_ok_def)
  obtain r where "name2_loop ct c dn 0 n2 = Inr r"
    using name2_loop_ok [of ct n2 c dn 0] Cons.prems by (auto simp: naming_calls_ok_def)
  then show ?case using Cons.IH [OF ih] Cons.prems
    by (auto simp: naming_calls_ok_def split: option.splits)
qed

lemma funky_name2_loop_ok: "\<forall>nd\<in>set nds. \<not> EFI_ERROR (gn_open nd) \<Longrightarrow> \<exists>r. funky_name2_loop c dn nds nm = Inr r"
  by (induction nds arbitrary: nm) (auto simp: Let_def)

lemma funky_ctrl_loop_ok: "naming_calls_ok cts n2 \<Longrightarrow> \<exists>r. funky_ctrl_loop n2 dn gp c cts nm = Inr r"
proof (induction cts arbitrary: c nm)
  case Nil
  then show ?case by simp
next
  case (Cons ct cts)
  have ih: "naming_calls_ok cts n2" using Cons.prems by (simp add: naming_calls_ok_def)
  obtain r where "funky_name2_loop c dn n2 nm = Inr r"
    using funky_name2_loop_ok [of n2 c dn nm] Cons.prems by (auto simp: naming_calls_ok_def)
  then show ?case using Cons.IH [OF ih] Cons.prems
    by (auto simp: naming_calls_ok_def)
qed

lemma naming_loop_ok:
  assumes "naming_calls_ok cts n2" "\<forall>d\<in>set ds. fst d = FwSuccess \<or> fst d = FwUnsupported"
  shows "naming_loop cts n2 dn ds = None"
  using assms(2)
proof (induction ds arbitrary: dn)
  case Nil
  then show ?case by simp
next
  case (Cons d ds)
  obtain st gp where d: "d = (st, gp)" by (cases d)
  obtain r1 where r1: "ctrl_loop n2 dn gp (CntlrPathSize gp) 0 cts default_names = Inr r1"
    using ctrl_loop_ok [OF assms(1)] by blast
  obtain r2 where r2: "funky_ctrl_loop n2 dn gp 0 cts r1 = Inr r2"
    using funky_ctrl_loop_ok [OF assms(1)] by blast
  have "dev_naming cts n2 dn d = None"
    using Cons.prems d r1 r2 by (auto simp: dev_naming_def)
  then show ?case using Cons by simp
qed

lemma ex_naming_ok:
  "\<forall>d\<in>set ds. fst d = FwSuccess \<Longrightarrow> naming_loop [ex_ctrl p] [ex_name2] dn ds = None"
  by (rule naming_loop_ok) (auto simp: naming_calls_ok_def ex_ctrl_def ex_name2_def EFI_ERROR_def)

lemmas ex_naming_defs = ex_pciroot_def ex_pci_def ex_acpiadr_def ex_gpu_path_def ex_ctrl_def ex_name2_def
  dp_wf_def dp_node_wf_def DevicePathNodeLength_def

section \<open>Properties\<close>

text \<open>
  C36.  Comparing over the smaller \<open>StrSize\<close> is exact: a terminated driver name
  is rejected by the Wall of Shame check exactly when it is one of the four
  names on the wall (a prefix of a listed name is not rejected, because the
  shorter string's terminator takes part in the comparison).
\<close>

theorem wall_check_exact:
  assumes "0 \<notin> set s"
  shows "wall_check (s @ 0 # r) = (s @ [0] \<in> set Wall_of_Shame)"
proof -
  have z: "0 \<notin> set (L ''AMI PS/2 Driver'')" "0 \<notin> set (L ''ASIX AX88772B Ethernet Driver 1.0'')"
    "0 \<notin> set (L ''Socket Layer Driver'')" "0 \<notin> set (L ''AX88772 Ethernet Driver'')"
    by (simp_all add: L_def)
  show ?thesis using assms z by (simp add: wall_check_def Wall_of_Shame_def wall_match_term)
qed

theorem wall_check_exact_witness:
  "wall_check (L ''AMI PS/2 Driver'' @ [0]) \<and> \<not> wall_check (L ''AMI PS/2'' @ [0])"
  using wall_check_exact [of "L ''AMI PS/2 Driver''" "[]"] wall_check_exact [of "L ''AMI PS/2''" "[]"]
  by (simp add: L_def Wall_of_Shame_def)

text \<open>
  C27.  The first naming pass never names a device: for well-formed device
  paths whose first node is longer than an end node, no controller passes both
  the size check against \<open>CntlrPathSize\<close> and \<open>LibMatchDevicePaths\<close> (a match
  needs the graphics path itself as an instance, which is longer than
  \<open>CntlrPathSize\<close>), so the pass only returns the first failing device-path
  open or leaves the three default names, and every device goes on to the
  second pass.
\<close>

theorem ctrl_loop_never_names:
  assumes "dp_wf gp" "4 < DevicePathNodeLength gp" "\<forall>ct\<in>set cts. list_all dp_wf (gc_path ct)"
  shows "ctrl_loop n2 dn gp (CntlrPathSize gp) c cts nm =
           (case find (\<lambda>ct. \<not> ctrl_skipped ct \<and> EFI_ERROR (gc_devpath ct)) cts of
              Some ct \<Rightarrow> Inl (gc_devpath ct)
            | None \<Rightarrow> Inr nm)"
  using assms by (rule ctrl_loop_first_pass)

theorem ctrl_loop_never_names_witness:
  "GetDevicePathSize [butlast ex_gpu_path] = CntlrPathSize ex_gpu_path \<and>
   ctrl_loop [ex_name2] 0 ex_gpu_path (CntlrPathSize ex_gpu_path) 0
     [ex_ctrl (butlast ex_gpu_path), ex_ctrl ex_gpu_path] default_names = Inr default_names"
proof -
  have s: "GetDevicePathSize [butlast ex_gpu_path] = CntlrPathSize ex_gpu_path"
    by (simp add: ex_naming_defs CntlrPathSize_def GetDevicePathSize_def dp_bytes_def END_ENTIRE_def)
  show ?thesis
    using s ctrl_loop_never_names [of ex_gpu_path "[ex_ctrl (butlast ex_gpu_path), ex_ctrl ex_gpu_path]"
        "[ex_name2]" 0 0 default_names]
    by (simp add: ex_naming_defs ctrl_skipped_def EFI_ERROR_def)
qed

text \<open>
  C29.  With \<open>GetNextDevicePathInstance\<close> returning each instance with its end
  node and \<open>Size\<close> counting it, \<open>LibMatchDevicePaths\<close> holds exactly when the
  single path is one of the instances: a controller whose path is a proper
  prefix of the graphics device's path (its parent) never matches.
\<close>

theorem LibMatchDevicePaths_exact:
  assumes "list_all dp_wf is" "dp_wf gp"
  shows "LibMatchDevicePaths (Some is) (Some gp) \<longleftrightarrow> gp \<in> set is"
  using assms by (rule LibMatchDevicePaths_iff)

theorem LibMatchDevicePaths_exact_witness:
  "\<not> LibMatchDevicePaths (Some [butlast ex_gpu_path]) (Some ex_gpu_path) \<and>
   LibMatchDevicePaths (Some [butlast ex_gpu_path, ex_gpu_path]) (Some ex_gpu_path)"
  using LibMatchDevicePaths_exact [of "[butlast ex_gpu_path]" ex_gpu_path]
    LibMatchDevicePaths_exact [of "[butlast ex_gpu_path, ex_gpu_path]" ex_gpu_path]
  by (simp add: ex_naming_defs)

end
