(* ===== verification/Graphics.thy ===== *)
theory Graphics
  imports GopNaming
begin

text \<open>
  \<open>InitUEFI_GOP\<close> (\<open>src/JosPkg/Application/Loader/Graphics.c\<close>, lines
  102--1161): the GOP structures of \<open>src/inc/uefi.h\<close>, the handle queries, the
  naming pass of \<open>GopNaming\<close>, the multi-GPU loop that sets mode 0 on every
  device, and the single-GPU case with its mode menu (lines 993--1074), which
  reads keys until one names a valid mode; each fills \<open>GPU_CONFIG\<close>.
\<close>

section \<open>Definitions\<close>

text \<open>
  The test of the menu loop (line 1008) in the source's arithmetic: the key is
  compared with \<open>0x30 + MaxMode - 1\<close> computed in 32 bits.
\<close>

definition key_valid :: "u32 \<Rightarrow> u16 \<Rightarrow> bool" where
  "key_valid mm c = (\<not> (0x30 > (ucast c :: u32) \<or> (ucast c :: u32) > 0x30 + mm - 1))"

definition GPU_MENU_TIMEOUT_SECONDS :: u64 where
  "GPU_MENU_TIMEOUT_SECONDS = 90"

text \<open>
  One key event of the menu: the status of the mode listing (the first failing
  \<open>QueryMode\<close> or \<open>FreePool\<close> of lines 1016--1033), the status of
  \<open>ReadKeyStroke\<close>, and the key read.
\<close>

type_synonym key_event = "fw_status \<times> fw_status \<times> u16"

text \<open>
  The menu loop (lines 1008--1070): \<open>t\<close> is \<open>timeout_seconds\<close>, \<open>key\<close> the last key.
  The inner \<open>while(timeout_seconds)\<close> reads one key and breaks, so the decrement
  of line 1056 is never reached.  A loop that waits for a key no event supplies
  is \<open>None\<close>.
\<close>

fun mode_menu :: "u32 \<Rightarrow> u64 \<Rightarrow> u16 \<Rightarrow> key_event list \<Rightarrow> (fw_status + u32) option" where
  "mode_menu mm t key evs =
     (if key_valid mm key then Some (Inr (if t \<noteq> 0 then ucast key - 0x30 else 0))
      else case evs of
        [] \<Rightarrow> None
      | (ls, rs, c) # evs' \<Rightarrow>
          if EFI_ERROR ls then Some (Inl ls)
          else if t = 0 then Some (Inr 0)
          else if EFI_ERROR rs then Some (Inl rs)
          else mode_menu mm t c evs')"

text \<open>Lines 993--1074: one mode is mode 0; otherwise the menu, from key 0 and the full timeout.\<close>

definition gop_mode :: "u32 \<Rightarrow> key_event list \<Rightarrow> (fw_status + u32) option" where
  "gop_mode mm evs = (if mm = 1 then Some (Inr 0) else mode_menu mm GPU_MENU_TIMEOUT_SECONDS 0 evs)"

text \<open>
  The GOP types (\<open>src/inc/uefi.h\<close> lines 45--145, restated in the comment of lines 1205--1239): a mode's
  information, the protocol's current mode, and the \<open>GPU_CONFIG\<close> that
  \<open>InitUEFI_GOP\<close> fills for \<open>GoTime\<close>.  \<open>Info\<close> is a pointer in the source; here it is
  the structure it points to.  \<open>GPUArray\<close> is a pool buffer of mode entries.
\<close>

datatype EFI_GRAPHICS_PIXEL_FORMAT =
    PixelRedGreenBlueReserved8BitPerColor
  | PixelBlueGreenRedReserved8BitPerColor
  | PixelBitMask
  | PixelBltOnly
  | PixelFormatMax

record EFI_PIXEL_BITMASK =
  RedMask :: u32
  GreenMask :: u32
  BlueMask :: u32
  ReservedMask :: u32

record EFI_GRAPHICS_OUTPUT_MODE_INFORMATION =
  Version :: u32
  HorizontalResolution :: u32
  VerticalResolution :: u32
  PixelFormat :: EFI_GRAPHICS_PIXEL_FORMAT
  PixelInformation :: EFI_PIXEL_BITMASK
  PixelsPerScanLine :: u32

record EFI_GRAPHICS_OUTPUT_PROTOCOL_MODE =
  MaxMode :: u32
  Mode :: u32
  Info :: EFI_GRAPHICS_OUTPUT_MODE_INFORMATION
  SizeOfInfo :: u64
  FrameBufferBase :: u64
  FrameBufferSize :: u64

record GPU_CONFIG =
  GPUArray :: "EFI_GRAPHICS_OUTPUT_PROTOCOL_MODE pool"
  NumberOfFrameBuffers :: u64

text \<open>
  One graphics handle as the firmware answers for it: the status of opening
  its device path (line 235) and the path, the status of opening its GOP
  (lines 857, 950), its \<open>Mode\<close> structure, \<open>SetMode\<close> as the status and the
  \<open>Mode\<close> structure after it, and the \<open>AllocatePool\<close> for the copy of \<open>Info\<close>.
\<close>

record gop_dev =
  gd_devpath :: fw_status
  gd_path :: "dp_node list"
  gd_open :: fw_status
  gd_mode :: EFI_GRAPHICS_OUTPUT_PROTOCOL_MODE
  gd_setmode :: "u32 \<Rightarrow> fw_status \<times> EFI_GRAPHICS_OUTPUT_PROTOCOL_MODE"
  gd_info_alloc :: fw_status

text \<open>
  The boot-service answers of \<open>InitUEFI_GOP\<close> outside the devices: the three
  \<open>LocateHandleBuffer\<close> calls (lines 150, 189, 209), the graphics handles (by
  the UEFI specification \<open>LocateHandleBuffer\<close> returns \<open>EFI_NOT_FOUND\<close> when
  there is none, so they are a first handle and the rest), the entries of
  \<open>DevPathHandles\<close> and \<open>Name2Handles\<close>, the two \<open>FreePool\<close>
  calls of lines 807 and 823, the \<open>AllocatePool\<close> of \<open>GPUArray\<close> (lines 844, 933)
  and the \<open>FreePool\<close> of \<open>GraphicsHandles\<close> (line 1138).
\<close>

record gop_fw =
  gf_locate :: fw_status
  gf_devs :: "gop_dev \<times> gop_dev list"
  gf_name2 :: fw_status
  gf_devpaths :: fw_status
  gf_ctrls :: "gop_ctrl list"
  gf_name2s :: "gop_name2 list"
  gf_frees :: "fw_status list"
  gf_arr_alloc :: fw_status
  gf_free_handles :: fw_status

definition gop_handles :: "gop_fw \<Rightarrow> gop_dev list" where
  "gop_handles g = fst (gf_devs g) # snd (gf_devs g)"

text \<open>
  The configuration of one device into \<open>GPUArray[DevNum]\<close> after \<open>SetMode(m)\<close>
  (lines 881--915, 1078--1109): the five fields and the copy of \<open>Info\<close> are taken
  from the \<open>Mode\<close> structure as \<open>SetMode\<close> left it.
\<close>

definition config_dev ::
  "nat \<Rightarrow> gop_dev \<Rightarrow> u32 \<Rightarrow> EFI_GRAPHICS_OUTPUT_PROTOCOL_MODE pool \<Rightarrow>
   loader_stop + EFI_GRAPHICS_OUTPUT_PROTOCOL_MODE pool" where
  "config_dev i d m arr =
     (case gd_setmode d m of (st, md) \<Rightarrow>
        if EFI_ERROR st then Inl (Returns st)
        else if EFI_ERROR (gd_info_alloc d) then Inl (Returns (gd_info_alloc d))
        else pool_write i
               \<lparr>MaxMode = MaxMode md, Mode = Mode md, Info = Info md, SizeOfInfo = SizeOfInfo md,
                FrameBufferBase = FrameBufferBase md, FrameBufferSize = FrameBufferSize md\<rparr> arr)"

text \<open>The multi-GPU loop (lines 852--921): open each GOP and set mode 0.\<close>

fun multi_gpu_loop ::
  "nat \<Rightarrow> gop_dev list \<Rightarrow> EFI_GRAPHICS_OUTPUT_PROTOCOL_MODE pool \<Rightarrow>
   loader_stop + EFI_GRAPHICS_OUTPUT_PROTOCOL_MODE pool" where
  "multi_gpu_loop i [] arr = Inr arr"
| "multi_gpu_loop i (d # ds) arr =
     (if EFI_ERROR (gd_open d) then Inl (Returns (gd_open d))
      else case config_dev i d 0 arr of
             Inl e \<Rightarrow> Inl e
           | Inr arr' \<Rightarrow> multi_gpu_loop (Suc i) ds arr')"

text \<open>
  The single-GPU case (lines 942--1113): open the GOP of \<open>GraphicsHandles[0]\<close>,
  choose the mode (\<open>gop_mode\<close>) and configure entry 0.
\<close>

definition single_gpu ::
  "gop_dev \<Rightarrow> key_event list \<Rightarrow> EFI_GRAPHICS_OUTPUT_PROTOCOL_MODE pool \<Rightarrow>
   (loader_stop + EFI_GRAPHICS_OUTPUT_PROTOCOL_MODE pool) option" where
  "single_gpu d evs arr =
     (if EFI_ERROR (gd_open d) then Some (Inl (Returns (gd_open d)))
      else case gop_mode (MaxMode (gd_mode d)) evs of
             None \<Rightarrow> None
           | Some (Inl s) \<Rightarrow> Some (Inl (Returns s))
           | Some (Inr m) \<Rightarrow> Some (config_dev 0 d m arr))"

text \<open>
  \<open>InitUEFI_GOP\<close> (lines 102--1161) from the firmware's answers and the key
  events of the menu: the handle queries, the naming loop, the frees, the
  multi- or single-GPU configuration into a \<open>GPUArray\<close> of
  \<open>NumberOfFrameBuffers\<close> entries, and the free of the handle buffer.  \<open>None\<close>
  is the menu waiting for a key.
\<close>

definition InitUEFI_GOP :: "gop_fw \<Rightarrow> key_event list \<Rightarrow> (loader_stop + GPU_CONFIG) option" where
  "InitUEFI_GOP g evs =
     (let devs = gop_handles g; n = length devs in
      if EFI_ERROR (gf_locate g) then Some (Inl (Returns (gf_locate g)))
      else if EFI_ERROR (gf_name2 g) then Some (Inl (Returns (gf_name2 g)))
      else if EFI_ERROR (gf_devpaths g) then Some (Inl (Returns (gf_devpaths g)))
      else case naming_loop (gf_ctrls g) (gf_name2s g) 0 (map (\<lambda>d. (gd_devpath d, gd_path d)) devs) of
        Some s \<Rightarrow> Some (Inl (Returns s))
      | None \<Rightarrow>
        (case first_error (gf_frees g) of
           Some s \<Rightarrow> Some (Inl (Returns s))
         | None \<Rightarrow>
           (let nfb = (if n > 1 then n else 1) in
            if EFI_ERROR (gf_arr_alloc g) then Some (Inl (Returns (gf_arr_alloc g)))
            else
              (let r = (if n > 1 then Some (multi_gpu_loop 0 devs (alloc_pool nfb))
                        else single_gpu (fst (gf_devs g)) evs (alloc_pool nfb)) in
               case r of
                 None \<Rightarrow> None
               | Some (Inl e) \<Rightarrow> Some (Inl e)
               | Some (Inr arr) \<Rightarrow>
                   if EFI_ERROR (gf_free_handles g) then Some (Inl (Returns (gf_free_handles g)))
                   else Some (Inr \<lparr>GPUArray = arr, NumberOfFrameBuffers = of_nat nfb\<rparr>)))))"

text \<open>
  Fixtures: a 1024x768 mode structure, a device that answers every call with
  success and keeps that structure after \<open>SetMode\<close>, and two such devices,
  named through their own handle by one driver.
\<close>

definition ex_gop_mode :: EFI_GRAPHICS_OUTPUT_PROTOCOL_MODE where
  "ex_gop_mode =
     \<lparr>MaxMode = 2, Mode = 0,
      Info = \<lparr>Version = 0, HorizontalResolution = 1024, VerticalResolution = 768,
              PixelFormat = PixelBlueGreenRedReserved8BitPerColor,
              PixelInformation = \<lparr>RedMask = 0, GreenMask = 0, BlueMask = 0, ReservedMask = 0\<rparr>,
              PixelsPerScanLine = 1024\<rparr>,
      SizeOfInfo = 36, FrameBufferBase = 0x80000000, FrameBufferSize = 0x300000\<rparr>"

definition ex_gop_dev :: gop_dev where
  "ex_gop_dev =
     \<lparr>gd_devpath = FwSuccess, gd_path = ex_gpu_path, gd_open = FwSuccess, gd_mode = ex_gop_mode,
      gd_setmode = (\<lambda>m. (FwSuccess, ex_gop_mode\<lparr>Mode := m\<rparr>)), gd_info_alloc = FwSuccess\<rparr>"

definition ex_gop_fw :: gop_fw where
  "ex_gop_fw =
     \<lparr>gf_locate = FwSuccess, gf_devs = (ex_gop_dev, [ex_gop_dev]), gf_name2 = FwSuccess,
      gf_devpaths = FwSuccess, gf_ctrls = [ex_ctrl ex_gpu_path], gf_name2s = [ex_name2],
      gf_frees = [FwSuccess, FwSuccess], gf_arr_alloc = FwSuccess, gf_free_handles = FwSuccess\<rparr>"

section \<open>Lemmas\<close>

lemma key_valid_less:
  assumes "key_valid mm c"
  shows "ucast c - 0x30 < mm"
proof -
  have le: "0x30 \<le> (ucast c :: u32)" "(ucast c :: u32) \<le> 0x30 + mm - 1"
    using assms unfolding key_valid_def by (simp_all add: not_less)
  have lo: "48 \<le> unat (ucast c :: u32)" using le(1) by (simp add: word_le_nat_alt)
  have hi: "unat (ucast c :: u32) \<le> unat (0x30 + mm - 1)" using le(2) by (simp add: word_le_nat_alt)
  have e: "(0x30 + mm - 1 :: u32) = mm + 0x2F" by simp
  have sum: "unat (0x30 + mm - 1) = (unat mm + 47) mod 2 ^ 32"
    unfolding e by (simp add: unat_word_ariths)
  have mm: "unat mm < 2 ^ 32"
  proof -
    have "unat mm < 2 ^ LENGTH(32)" by (rule unsigned_less)
    then show ?thesis by simp
  qed
  have nowrap: "unat mm + 47 < 2 ^ 32"
  proof (rule ccontr)
    assume a: "\<not> unat mm + 47 < 2 ^ 32"
    then have "(unat mm + 47) mod 2 ^ 32 = unat mm + 47 - 2 ^ 32"
      using mm by (simp add: mod_if)
    then have "unat (0x30 + mm - 1) < 48" using sum mm by simp
    then show False using lo hi by simp
  qed
  have sub: "unat (ucast c - 0x30 :: u32) = unat (ucast c :: u32) - 48"
    using le(1) by (simp add: unat_sub)
  have "unat (ucast c :: u32) - 48 < unat mm" using hi sum nowrap lo by simp
  then show ?thesis using sub by (simp add: word_less_nat_alt)
qed
lemma mode_menu_less:
  "t \<noteq> 0 \<Longrightarrow> mode_menu mm t key evs = Some (Inr m) \<Longrightarrow> m < mm"
proof (induction mm t key evs rule: mode_menu.induct)
  case (1 mm t key evs)
  show ?case
  proof (cases "key_valid mm key")
    case True
    then show ?thesis using 1(2,3) key_valid_less [OF True] by simp
  next
    case False
    then show ?thesis using 1 by (auto split: list.splits if_splits)
  qed
qed

lemma mode_menu_waits:
  "t \<noteq> 0 \<Longrightarrow> \<not> key_valid mm key \<Longrightarrow>
   (\<forall>(ls, rs, c) \<in> set evs. \<not> EFI_ERROR ls \<and> \<not> EFI_ERROR rs \<and> \<not> key_valid mm c) \<Longrightarrow>
   mode_menu mm t key evs = None"
  by (induction evs arbitrary: key) auto

lemma gop_mode_less:
  assumes "gop_mode mm evs = Some (Inr m)"
  shows "m < mm"
proof (cases "mm = 1")
  case True
  then show ?thesis using assms by (simp add: gop_mode_def)
next
  case False
  then show ?thesis using assms mode_menu_less [of GPU_MENU_TIMEOUT_SECONDS mm 0 evs m]
    by (simp add: gop_mode_def GPU_MENU_TIMEOUT_SECONDS_def)
qed

lemma config_dev_entry:
  assumes "config_dev i d m arr = Inr arr'"
  shows "i < length arr \<and> arr' = arr[i := Some (snd (gd_setmode d m))]"
proof -
  obtain st md where sm: "gd_setmode d m = (st, md)" by (cases "gd_setmode d m")
  show ?thesis using assms
    by (cases md) (simp add: config_dev_def sm pool_write_def split: if_splits)
qed

lemma multi_gpu_loop_entries:
  assumes "multi_gpu_loop i ds arr = Inr arr'"
  shows "length arr' = length arr \<and> (\<forall>k < i. arr' ! k = arr ! k) \<and>
         (\<forall>j < length ds. arr' ! (i + j) = Some (snd (gd_setmode (ds ! j) 0)))"
  using assms
proof (induction ds arbitrary: i arr)
  case Nil
  then show ?case by simp
next
  case (Cons d ds)
  obtain arr1 where c: "config_dev i d 0 arr = Inr arr1" and r: "multi_gpu_loop (Suc i) ds arr1 = Inr arr'"
    using Cons.prems by (auto split: if_splits sum.splits)
  have e: "i < length arr" "arr1 = arr[i := Some (snd (gd_setmode d 0))]"
    using config_dev_entry [OF c] by simp_all
  have ih: "length arr' = length arr1" "\<forall>k < Suc i. arr' ! k = arr1 ! k"
    "\<forall>j < length ds. arr' ! (Suc i + j) = Some (snd (gd_setmode (ds ! j) 0))"
    using Cons.IH [OF r] by simp_all
  have j: "arr' ! (i + j) = Some (snd (gd_setmode ((d # ds) ! j) 0))" if "j < length (d # ds)" for j
  proof (cases j)
    case 0
    then show ?thesis using ih(2) e by simp
  next
    case (Suc j')
    then show ?thesis using ih(3) that by simp
  qed
  show ?case using ih(1,2) e j by simp
qed

section \<open>Properties\<close>

text \<open>
  C37.  The mode chosen in the single-GPU case is always a valid mode number:
  below \<open>MaxMode\<close>, also when \<open>0x30 + MaxMode - 1\<close> wraps in 32 bits.
\<close>

theorem gop_mode_valid:
  assumes "gop_mode mm evs = Some (Inr m)"
  shows "m < mm"
  using assms by (rule gop_mode_less)

theorem gop_mode_valid_witness:
  "gop_mode 3 [(FwSuccess, FwSuccess, 0x37), (FwSuccess, FwSuccess, 0x32)] = Some (Inr 2) \<and> (2 :: u32) < 3"
proof -
  have r: "gop_mode 3 [(FwSuccess, FwSuccess, 0x37), (FwSuccess, FwSuccess, 0x32)] = Some (Inr 2)"
    by (simp add: gop_mode_def key_valid_def GPU_MENU_TIMEOUT_SECONDS_def EFI_ERROR_def)
  show ?thesis using gop_mode_valid [OF r] r by simp
qed

text \<open>
  C38.  The menu has no timeout: as long as the keys read are not valid mode
  digits it keeps waiting for another key, and the "Defaulting to mode" branch
  is never taken, because the inner loop breaks before \<open>timeout_seconds\<close> is
  decremented.
\<close>

theorem gop_mode_waits:
  assumes "mm \<noteq> 1" "\<forall>(ls, rs, c) \<in> set evs. \<not> EFI_ERROR ls \<and> \<not> EFI_ERROR rs \<and> \<not> key_valid mm c"
  shows "gop_mode mm evs = None"
proof -
  have "\<not> key_valid mm 0" by (simp add: key_valid_def)
  then show ?thesis using assms mode_menu_waits [of GPU_MENU_TIMEOUT_SECONDS mm 0 evs]
    by (simp add: gop_mode_def GPU_MENU_TIMEOUT_SECONDS_def)
qed

theorem gop_mode_waits_witness:
  "gop_mode 3 [(FwSuccess, FwSuccess, 0x39), (FwSuccess, FwSuccess, 0x1B)] = None"
  using gop_mode_waits [of 3 "[(FwSuccess, FwSuccess, 0x39), (FwSuccess, FwSuccess, 0x1B)]"]
  by (simp add: key_valid_def EFI_ERROR_def)

text \<open>
  C40.  When \<open>InitUEFI_GOP\<close> returns success, \<open>NumberOfFrameBuffers\<close> is the
  number of graphics handles and every entry of \<open>GPUArray\<close> is initialised with
  the \<open>Mode\<close> structure of its device after \<open>SetMode\<close>: mode 0 for every device
  when there are several, the menu's choice, a valid mode, when there is one.
\<close>

theorem InitUEFI_GOP_config:
  assumes "InitUEFI_GOP g evs = Some (Inr cfg)"
  shows "NumberOfFrameBuffers cfg = of_nat (length (gop_handles g)) \<and>
         length (GPUArray cfg) = length (gop_handles g) \<and>
         (\<forall>i < length (gop_handles g). \<exists>m.
            GPUArray cfg ! i = Some (snd (gd_setmode (gop_handles g ! i) m)) \<and>
            (if 1 < length (gop_handles g) then m = 0 else m < MaxMode (gd_mode (gop_handles g ! i))))"
proof -
  define devs where "devs = gop_handles g"
  have hd: "devs = fst (gf_devs g) # snd (gf_devs g)" by (simp add: devs_def gop_handles_def)
  let ?n = "if 1 < length devs then length devs else 1"
  obtain arr where
    r: "(if 1 < length devs then Some (multi_gpu_loop 0 devs (alloc_pool ?n))
         else single_gpu (fst (gf_devs g)) evs (alloc_pool ?n)) = Some (Inr arr)"
    and cfg: "cfg = \<lparr>GPUArray = arr, NumberOfFrameBuffers = of_nat ?n\<rparr>"
    using assms unfolding InitUEFI_GOP_def Let_def devs_def [symmetric]
    by (auto split: if_splits option.splits sum.splits)
  show ?thesis
  proof (cases "1 < length devs")
    case True
    then have m: "multi_gpu_loop 0 devs (alloc_pool (length devs)) = Inr arr" using r by simp
    show ?thesis using multi_gpu_loop_entries [OF m] True cfg
      by (simp add: devs_def [symmetric] alloc_pool_def)
  next
    case False
    then have one: "snd (gf_devs g) = []" using hd by (cases "snd (gf_devs g)") auto
    obtain m where o: "\<not> EFI_ERROR (gd_open (fst (gf_devs g)))"
      and gm: "gop_mode (MaxMode (gd_mode (fst (gf_devs g)))) evs = Some (Inr m)"
      and c: "config_dev 0 (fst (gf_devs g)) m (alloc_pool 1) = Inr arr"
      using r False by (auto simp: single_gpu_def split: if_splits option.splits sum.splits)
    have "arr = [Some (snd (gd_setmode (fst (gf_devs g)) m))]"
      using config_dev_entry [OF c] by (simp add: alloc_pool_def)
    then show ?thesis using cfg one hd gop_mode_less [OF gm] by (auto simp: devs_def [symmetric])
  qed
qed

theorem InitUEFI_GOP_config_witness:
  "InitUEFI_GOP ex_gop_fw [] =
     Some (Inr \<lparr>GPUArray = [Some ex_gop_mode, Some ex_gop_mode], NumberOfFrameBuffers = 2\<rparr>) \<and>
   NumberOfFrameBuffers \<lparr>GPUArray = [Some ex_gop_mode, Some ex_gop_mode], NumberOfFrameBuffers = 2\<rparr> =
     of_nat (length (gop_handles ex_gop_fw))"
proof -
  have md: "ex_gop_mode\<lparr>Mode := 0\<rparr> = ex_gop_mode" by (simp add: ex_gop_mode_def)
  have n: "naming_loop [ex_ctrl ex_gpu_path] [ex_name2] 0 [(FwSuccess, ex_gpu_path), (FwSuccess, ex_gpu_path)] = None"
    by (rule ex_naming_ok) simp
  have r: "InitUEFI_GOP ex_gop_fw [] =
     Some (Inr \<lparr>GPUArray = [Some ex_gop_mode, Some ex_gop_mode], NumberOfFrameBuffers = 2\<rparr>)"
    by (simp add: InitUEFI_GOP_def ex_gop_fw_def gop_handles_def ex_gop_dev_def EFI_ERROR_def
        first_error_def config_dev_def pool_write_def alloc_pool_def md n del: naming_loop.simps)
  show ?thesis using InitUEFI_GOP_config [OF r] r by simp
qed

end
