(* ===== verification/Init.thy ===== *)
theory Init
  imports Prelude
begin

text \<open>
  The kernel entry file \<open>src/kern/init.c\<close>: the recursion of
  \<open>test_backtrace\<close> and the panic machinery \<open>_panic\<close>/\<open>_warn\<close>.  The console is
  the list of lines printed (\<open>kevent\<close>); the global \<open>panicstr\<close>, cleared with the
  rest of the BSS by \<open>i386_init\<close>, records the first panic.  After printing,
  \<open>_panic\<close> enters the kernel monitor for good (\<open>Monitor\<close>), so later panics can
  only come from code the monitor runs.
\<close>

section \<open>Definitions\<close>

datatype kevent =
    Entering int
  | Leaving int
  | Backtrace
  | PanicMsg string int string
  | WarnMsg string int string

text \<open>
  \<open>test_backtrace\<close> (lines 13--22): print, recurse down to 0, call
  \<open>mon_backtrace\<close>, print on the way back.
\<close>

function test_backtrace :: "int \<Rightarrow> kevent list" where
  "test_backtrace x =
     [Entering x] @ (if x > 0 then test_backtrace (x - 1) else [Backtrace]) @ [Leaving x]"
  by pat_completeness auto

termination test_backtrace
  by (relation "measure nat") auto

text \<open>
  The kernel state init.c touches: \<open>panicstr\<close>, the console, and the pointer
  \<open>UEFI_LP\<close> to the loader block (a BSS variable of uefi.c set before
  \<open>i386_init\<close> runs).
\<close>

record kinit =
  panicstr :: "string option"
  console :: "kevent list"
  uefi_lp :: u32

text \<open>
  The BSS clearing of \<open>i386_init\<close> (lines 25--35): save \<open>UEFI_LP\<close>,
  \<open>memset(edata, 0, end - edata)\<close>, which zeroes \<open>panicstr\<close> (line 76) and
  \<open>UEFI_LP\<close>, and restore \<open>UEFI_LP\<close>.
\<close>

definition i386_init_bss :: "kinit \<Rightarrow> kinit" where
  "i386_init_bss st =
     (let uefi_params = uefi_lp st;
          st' = st\<lparr>panicstr := None, uefi_lp := 0\<rparr>
      in st'\<lparr>uefi_lp := uefi_params\<rparr>)"

text \<open>
  \<open>_panic\<close> (lines 82--104) up to the entry into the monitor: a second panic
  goes straight to \<open>dead\<close>; the first records \<open>fmt\<close> and prints the message.
\<close>

definition uPanic :: "string \<Rightarrow> int \<Rightarrow> string \<Rightarrow> kinit \<Rightarrow> kinit" where
  "uPanic file line fmt st =
     (if panicstr st \<noteq> None then st
      else st\<lparr>panicstr := Some fmt, console := console st @ [PanicMsg file line fmt]\<rparr>)"

text \<open>\<open>_warn\<close> (lines 107--117) prints every time.\<close>

definition uWarn :: "string \<Rightarrow> int \<Rightarrow> string \<Rightarrow> kinit \<Rightarrow> kinit" where
  "uWarn file line fmt st = st\<lparr>console := console st @ [WarnMsg file line fmt]\<rparr>"

text \<open>
  The states reachable by any sequence of panics and warnings after the BSS is
  cleared, starting from any state in which nothing has been printed.
\<close>

inductive kreach :: "kinit \<Rightarrow> bool" where
  bss: "console st = [] \<Longrightarrow> kreach (i386_init_bss st)"
| panic: "kreach st \<Longrightarrow> kreach (uPanic file line fmt st)"
| warn: "kreach st \<Longrightarrow> kreach (uWarn file line fmt st)"

fun is_panic :: "kevent \<Rightarrow> bool" where
  "is_panic (PanicMsg f l m) = True"
| "is_panic _ = False"

definition panic_inv :: "kinit \<Rightarrow> bool" where
  "panic_inv st =
     (case panicstr st of
        None \<Rightarrow> filter is_panic (console st) = []
      | Some fmt \<Rightarrow> (\<exists>f l. filter is_panic (console st) = [PanicMsg f l fmt]))"

section \<open>Lemmas\<close>

declare test_backtrace.simps [simp del]

lemma panic_inv_uPanic: "panic_inv st \<Longrightarrow> panic_inv (uPanic file line fmt st)"
  by (auto simp: panic_inv_def uPanic_def split: option.splits)

lemma panic_inv_uWarn: "panic_inv st \<Longrightarrow> panic_inv (uWarn file line fmt st)"
  by (simp add: panic_inv_def uWarn_def split: option.splits)

lemma kreach_panic_inv: "kreach st \<Longrightarrow> panic_inv st"
  by (induction rule: kreach.induct)
     (simp_all add: panic_inv_uPanic panic_inv_uWarn, simp add: panic_inv_def i386_init_bss_def Let_def)

lemma test_backtrace_nat:
  "test_backtrace (int n) =
     map Entering (rev (map int [0..<Suc n])) @ [Backtrace] @ map Leaving (map int [0..<Suc n])"
proof (induction n)
  case 0
  then show ?case by (subst test_backtrace.simps) simp
next
  case (Suc n)
  have "int (Suc n) - 1 = int n" by simp
  then show ?case using Suc by (subst test_backtrace.simps) simp
qed

lemma upto_int_nat: "[0..int n] = map int [0..<Suc n]"
proof (induction n)
  case 0
  then show ?case by simp
next
  case (Suc n)
  have "[0..int (Suc n)] = [0..int (Suc n) - 1] @ [int (Suc n)]" by (rule upto_rec2) simp
  then show ?case using Suc by simp
qed

section \<open>Properties\<close>

text \<open>
  C39.  Whatever sequence of panics and warnings follows the clearing of the
  BSS, the kernel prints at most one "kernel panic" message, and \<open>panicstr\<close> is
  set exactly when it has been printed.
\<close>

theorem panic_once:
  assumes "kreach st"
  shows "length (filter is_panic (console st)) \<le> 1 \<and>
         (panicstr st = None \<longleftrightarrow> filter is_panic (console st) = [])"
  using kreach_panic_inv [OF assms] by (auto simp: panic_inv_def split: option.splits)

theorem panic_once_witness:
  "length (filter is_panic (console (uPanic ''pmap.c'' 2 ''y'' (uPanic ''init.c'' 1 ''x''
     (i386_init_bss \<lparr>panicstr = Some ''old'', console = [], uefi_lp = 0x1EB9EC90\<rparr>))))) \<le> 1"
  using panic_once [OF kreach.panic [OF kreach.panic [OF kreach.bss]],
      of "\<lparr>panicstr = Some ''old'', console = [], uefi_lp = 0x1EB9EC90\<rparr>" "''pmap.c''" 2 "''y''" "''init.c''" 1 "''x''"]
  by simp

text \<open>
  \<open>test_backtrace x\<close> terminates for every \<open>x\<close>, and for \<open>x \<ge> 0\<close> prints the
  entering lines from \<open>x\<close> down to 0, one backtrace, and the leaving lines from 0
  up to \<open>x\<close>.
\<close>

theorem test_backtrace_trace:
  assumes "0 \<le> x"
  shows "test_backtrace x = map Entering (rev [0..x]) @ [Backtrace] @ map Leaving [0..x]"
proof -
  obtain n where x: "x = int n" using assms nonneg_eq_int by blast
  show ?thesis unfolding x upto_int_nat by (rule test_backtrace_nat)
qed

theorem test_backtrace_trace_witness:
  "test_backtrace 2 = [Entering 2, Entering 1, Entering 0, Backtrace, Leaving 0, Leaving 1, Leaving 2]"
  using test_backtrace_trace [of 2] by (simp add: upto.simps)

end
