(* ===== verification/HexDump.thy ===== *)
theory HexDump
  imports PrintEngine
begin

text \<open>
  \<open>DumpHex\<close> of the loader's print library
  (\<open>src/JosPkg/Application/Loader/print.c\<close>, lines 749--812): a hex dump of a
  buffer, sixteen bytes per line, each line a \<open>Print\<close> of the indentation, the
  offset, the bytes as hex pairs (\<open>Val\<close>) and as characters (\<open>Str\<close>).  The data
  bytes are read as \<open>CHAR8\<close>, which is \<open>char\<close> in the EDK2 build, signed on
  x86-64, so \<open>c >> 4\<close> is negative for a byte from \<open>0x80\<close> on and indexes
  before \<open>Hex[]\<close>.  The screen counter only resets itself (the prompt is
  commented out) and is not modelled; the \<open>Print\<close> calls are the output.
\<close>

section \<open>Definitions\<close>

text \<open>\<open>Hex[i]\<close> for an \<open>int\<close> index: \<open>None\<close> is a read outside the 16 entries.\<close>

definition hex_char :: "int \<Rightarrow> u8 option" where
  "hex_char i = (if 0 \<le> i \<and> i < 16 then Some (Hex ! nat i) else None)"

text \<open>
  One byte at \<open>Index\<close> (lines 782--786): \<open>Val\<close> gets \<open>Hex[c>>4]\<close>,
  \<open>Hex[c&0xF]\<close> and a separator (\<open>-\<close> after the eighth byte), \<open>Str\<close> gets the
  character or \<open>.\<close>; \<open>c\<close> is the signed value, the shift arithmetic.
\<close>

definition dump_byte :: "nat \<Rightarrow> u8 \<Rightarrow> (u8 list \<times> u8) option" where
  "dump_byte idx c =
     (let v = sint c in
      case (hex_char (v div 16), hex_char (take_bit 4 v)) of
        (Some h, Some l) \<Rightarrow>
          Some ([h, l, if idx = 7 then 0x2D else 0x20], if v < 0x20 \<or> v > 0x7A then 0x2E else c)
      | _ \<Rightarrow> None)"

text \<open>
  The inner loop of a line (lines 781--790): \<open>Inr (Val, Str)\<close> without their
  terminators, or \<open>Inl Index\<close> of the byte whose read of \<open>Hex[]\<close> is out of
  bounds.
\<close>

fun dump_line :: "nat \<Rightarrow> u8 list \<Rightarrow> nat + u8 list \<times> u8 list" where
  "dump_line idx [] = Inr ([], [])"
| "dump_line idx (c # cs) =
     (case dump_byte idx c of
        None \<Rightarrow> Inl idx
      | Some (v, s) \<Rightarrow>
          (case dump_line (Suc idx) cs of
             Inl j \<Rightarrow> Inl j
           | Inr (vs, ss) \<Rightarrow> Inr (v @ vs, s # ss)))"

text \<open>The format of line 791, \<open>L"%*a%X: %-.48a *%a*\n"\<close>, with its terminator.\<close>

definition dump_fmt :: "u16 list" where
  "dump_fmt = L ''%*a%X: %-.48a *%a*'' @ [0x0A, 0]"

text \<open>
  \<open>DumpHex(Indent, Offset, DataSize, UserData)\<close> (lines 749--812), the buffer
  being the \<open>DataSize\<close> bytes of \<open>UserData\<close>: the \<open>Print\<close> calls made, as format
  and arguments, and \<open>Some Index\<close> when a line stops at a read outside
  \<open>Hex[]\<close>.
\<close>

function DumpHex :: "u64 \<Rightarrow> u64 \<Rightarrow> u8 list \<Rightarrow> (u16 list \<times> va_item list) list \<times> nat option" where
  "DumpHex indent off data =
     (if data = [] then ([], None)
      else
        (let d = take 16 data in
         case dump_line 0 d of
           Inl j \<Rightarrow> ([], Some j)
         | Inr (v, s) \<Rightarrow>
             (case DumpHex indent (off + of_nat (length d)) (drop 16 data) of
                (ps, e) \<Rightarrow>
                  ((dump_fmt, [VInt indent, VAStr (Some [0]), VInt off, VAStr (Some (v @ [0])),
                               VAStr (Some (s @ [0]))]) # ps, e))))"
  by pat_completeness auto

termination DumpHex
  by (relation "measure (\<lambda>(i, x, d). length d)") auto

text \<open>
  Reading a dump back: the hex pairs of a \<open>Val\<close> string, and the \<open>Val\<close> argument
  of a \<open>Print\<close> call of \<open>DumpHex\<close>.
\<close>

fun undump :: "u8 list \<Rightarrow> nat list" where
  "undump (h # l # s # r) = (16 * digit_val (ucast h) + digit_val (ucast l)) # undump r"
| "undump _ = []"

fun call_val :: "u16 list \<times> va_item list \<Rightarrow> nat list" where
  "call_val (f, [i, a, x, VAStr (Some v), s]) = undump v"
| "call_val _ = []"

section \<open>Lemmas\<close>

declare DumpHex.simps [simp del]

lemma sint_byte: "sint (b :: u8) = (if b < 0x80 then uint b else uint b - 256)"
proof -
  have u: "0 \<le> uint b" "uint b < 256" using uint_lt2p [of b] by simp_all
  have lt: "b < 0x80 \<longleftrightarrow> uint b < 128" by (simp add: word_less_def)
  have d: "\<not> uint b < 128 \<Longrightarrow> uint b div 128 = 1" using u by (simp add: int_div_pos_eq)
  show ?thesis using u lt d
    by (auto simp: sint_uint signed_take_bit_eq_take_bit_minus take_bit_int_eq_self bit_iff_odd_drop_bit
        drop_bit_eq_div)
qed

text \<open>A byte below \<open>0x80\<close> gives the hex pair of its value; from \<open>0x80\<close> on the read is out of bounds.\<close>

lemma dump_byte_low:
  assumes "b < 0x80"
  shows "\<exists>s. dump_byte i b = Some ([Hex ! (unat b div 16), Hex ! (unat b mod 16), if i = 7 then 0x2D else 0x20], s)"
proof -
  define k where "k = unat b"
  have v1: "sint b = uint b" using assms by (subst sint_byte) simp
  have v: "sint b = int k" using v1 by (simp add: k_def)
  have lt: "k < 128" using assms by (simp add: word_less_nat_alt k_def)
  have d: "int k div 16 = int (k div 16)" by (simp add: zdiv_int)
  have m: "take_bit 4 (int k) = int (k mod 16)" by (simp add: take_bit_eq_mod zmod_int)
  have hi: "hex_char (sint b div 16) = Some (Hex ! (k div 16))"
    using lt unfolding v d hex_char_def by simp
  have lo: "hex_char (take_bit 4 (sint b)) = Some (Hex ! (k mod 16))"
    unfolding v m hex_char_def by simp
  show ?thesis by (simp add: dump_byte_def hi lo k_def Let_def)
qed

lemma dump_byte_high:
  assumes "\<not> b < 0x80"
  shows "dump_byte i b = None"
proof -
  have "sint b < 0" using assms uint_lt2p [of b] by (simp add: sint_byte)
  then have "sint b div 16 < 0" by simp
  then show ?thesis by (simp add: dump_byte_def hex_char_def split: option.splits)
qed

lemma dump_line_low:
  "\<forall>b \<in> set d. b < 0x80 \<Longrightarrow>
   \<exists>v s. dump_line i d = Inr (v, s) \<and> undump v = map unat d \<and> length v = 3 * length d"
proof (induction d arbitrary: i)
  case Nil
  then show ?case by simp
next
  case (Cons b d)
  obtain s where b: "dump_byte i b = Some ([Hex ! (unat b div 16), Hex ! (unat b mod 16),
                                             if i = 7 then 0x2D else 0x20], s)"
    using dump_byte_low [of b i] Cons.prems by auto
  obtain v ss where r: "dump_line (Suc i) d = Inr (v, ss)" and u: "undump v = map unat d"
    and l: "length v = 3 * length d"
    using Cons.IH [of "Suc i"] Cons.prems by auto
  have "unat b < 2 ^ LENGTH(8)" by (rule unsigned_less)
  then have "unat b div 16 < 16" "unat b mod 16 < 16" by simp_all
  then show ?case using b r u l by (simp add: Hex_digit)
qed

lemma dump_line_high:
  "\<exists>b \<in> set d. \<not> b < 0x80 \<Longrightarrow> \<exists>j. dump_line i d = Inl j"
proof (induction d arbitrary: i)
  case Nil
  then show ?case by simp
next
  case (Cons b d)
  show ?case
  proof (cases "b < 0x80")
    case True
    then obtain s where "dump_byte i b = Some ([Hex ! (unat b div 16), Hex ! (unat b mod 16),
                                                if i = 7 then 0x2D else 0x20], s)"
      using dump_byte_low by blast
    moreover obtain j where "dump_line (Suc i) d = Inl j" using Cons True by auto
    ultimately show ?thesis by simp
  next
    case False
    then show ?thesis by (simp add: dump_byte_high)
  qed
qed

lemma undump_append:
  "length v = 3 * n \<Longrightarrow> undump (v @ r) = undump v @ undump r"
proof (induction n arbitrary: v)
  case 0
  then show ?case by simp
next
  case (Suc n)
  then obtain h l s v' where "v = h # l # s # v'" "length v' = 3 * n"
    by (cases v rule: undump.cases) auto
  then show ?case using Suc.IH by simp
qed

lemma DumpHex_lines:
  "DumpHex ind off data = (cs, e) \<Longrightarrow>
   (e = None \<longleftrightarrow> (\<forall>b \<in> set data. b < 0x80)) \<and>
   ((\<forall>b \<in> set data. b < 0x80) \<longrightarrow> concat (map call_val cs) = map unat data)"
proof (induction ind off data arbitrary: cs e rule: DumpHex.induct)
  case (1 ind off data)
  show ?case
  proof (cases "data = []")
    case True
    then show ?thesis using "1.prems" by (simp add: DumpHex.simps)
  next
    case False
    let ?d = "take 16 data"
    have split: "set data = set ?d \<union> set (drop 16 data)"
      by (metis append_take_drop_id set_append)
    show ?thesis
    proof (cases "\<forall>b \<in> set ?d. b < 0x80")
      case True
      obtain v s where dl: "dump_line 0 ?d = Inr (v, s)" and u: "undump v = map unat ?d"
        and l: "length v = 3 * length ?d"
        using dump_line_low [OF True, of 0] by auto
      obtain ps e' where r: "DumpHex ind (off + of_nat (length ?d)) (drop 16 data) = (ps, e')"
        by (cases "DumpHex ind (off + of_nat (length ?d)) (drop 16 data)")
      have ih: "(e' = None \<longleftrightarrow> (\<forall>b \<in> set (drop 16 data). b < 0x80)) \<and>
                ((\<forall>b \<in> set (drop 16 data). b < 0x80) \<longrightarrow> concat (map call_val ps) = map unat (drop 16 data))"
        using "1.IH" [OF False refl dl refl r] .
      have ce: "cs = (dump_fmt, [VInt ind, VAStr (Some [0]), VInt off, VAStr (Some (v @ [0])),
                                 VAStr (Some (s @ [0]))]) # ps" "e = e'"
        using "1.prems" False dl r by (simp_all add: DumpHex.simps [of ind off data] Let_def)
      have cv: "call_val (hd cs) = map unat ?d"
        using ce(1) u undump_append [OF l, of "[0]"] by simp
      have "map unat data = map unat ?d @ map unat (drop 16 data)"
        by (metis append_take_drop_id map_append)
      then show ?thesis using ih ce cv True split by auto
    next
      case bad: False
      obtain j where "dump_line 0 ?d = Inl j" using dump_line_high bad by blast
      then have "e = Some j" using "1.prems" False by (simp add: DumpHex.simps [of ind off data] Let_def)
      then show ?thesis using bad split by auto
    qed
  qed
qed

section \<open>Properties\<close>

text \<open>
  C9.  \<open>DumpHex\<close> reads outside \<open>Hex[]\<close> for every byte from \<open>0x80\<close> on,
  because \<open>CHAR8\<close> is signed: it dumps the whole buffer exactly when every
  byte is below \<open>0x80\<close>, and then the hex pairs of its \<open>Print\<close> calls read
  back as the data.
\<close>

theorem DumpHex_hex_roundtrip:
  "(snd (DumpHex ind off data) = None \<longleftrightarrow> (\<forall>b \<in> set data. b < 0x80)) \<and>
   ((\<forall>b \<in> set data. b < 0x80) \<longrightarrow> concat (map call_val (fst (DumpHex ind off data))) = map unat data)"
  using DumpHex_lines [of ind off data "fst (DumpHex ind off data)" "snd (DumpHex ind off data)"] by simp

theorem DumpHex_hex_roundtrip_witness:
  "snd (DumpHex 0 0 [0x41, 0x90]) \<noteq> None \<and>
   concat (map call_val (fst (DumpHex 0 0 [0x41, 0x7A]))) = [0x41, 0x7A]"
  using DumpHex_hex_roundtrip [of 0 0 "[0x41, 0x90]"] DumpHex_hex_roundtrip [of 0 0 "[0x41, 0x7A]"]
  by simp

end
