(* ===== verification/PoolPrint.thy ===== *)
theory PoolPrint
  imports PrintEngine
begin

text \<open>
  The pool back end of the print library
  (\<open>src/JosPkg/Application/Loader/print.c\<close>): \<open>_PoolPrint\<close>, which grows the
  \<open>POOL_PRINT\<close> buffer with \<open>ReallocatePool\<close> before appending through
  \<open>_SPrint\<close>, and the entry points \<open>VPoolPrint\<close>, \<open>PoolPrint\<close> and \<open>CatPrint\<close>
  over \<open>_PoolCatPrint\<close>.  A pool is \<open>POOL_PRINT option\<close>: \<open>None\<close> is a \<open>NULL\<close>
  \<open>str\<close> with \<open>len = maxlen = 0\<close> (the zeroed structure, or the state after a
  failed reallocation).  \<open>ReallocatePool\<close> is not in the sources; whether the
  \<open>i\<close>-th call of \<open>_PoolPrint\<close> gets its new buffer is \<open>ok i\<close>, and a
  successful one copies the \<open>len\<close> characters already written.
\<close>

section \<open>Definitions\<close>

definition pool_len :: "POOL_PRINT option \<Rightarrow> u64" where
  "pool_len sp = (case sp of None \<Rightarrow> 0 | Some s \<Rightarrow> spc_len s)"

definition pool_maxlen :: "POOL_PRINT option \<Rightarrow> u64" where
  "pool_maxlen sp = (case sp of None \<Rightarrow> 0 | Some s \<Rightarrow> spc_maxlen s)"

definition pool_str :: "POOL_PRINT option \<Rightarrow> u16 list" where
  "pool_str sp = (case sp of None \<Rightarrow> [] | Some s \<Rightarrow> spc_str s)"

text \<open>
  \<open>_PoolPrint\<close> (lines 210--248): \<open>newlen = len + StrLen(Buffer) + 1\<close>; when it
  exceeds \<open>maxlen\<close>, \<open>maxlen = newlen + PRINT_STRING_LEN\<close> and the buffer is
  reallocated, and a failed reallocation leaves \<open>str = NULL\<close>, \<open>len = maxlen =
  0\<close>; then \<open>_SPrint\<close> appends, which on a \<open>NULL\<close> buffer with \<open>maxlen = 0\<close>
  appends nothing.
\<close>

definition PoolPrint_out :: "bool \<Rightarrow> POOL_PRINT option \<Rightarrow> u16 list \<Rightarrow> POOL_PRINT option" where
  "PoolPrint_out ok sp buf =
     (let newlen = pool_len sp + of_nat (length (takeWhile (\<lambda>c. c \<noteq> 0) buf)) + 1
      in if pool_maxlen sp < newlen then
           (if ok then
              Some (SPrint_out \<lparr>spc_str = pool_str sp, spc_maxlen = newlen + of_nat PRINT_STRING_LEN,
                                spc_len = pool_len sp\<rparr> buf)
            else None)
         else map_option (\<lambda>s. SPrint_out s buf) sp)"

text \<open>The output callback of \<open>_PoolCatPrint\<close> set to \<open>_PoolPrint\<close>, counting its calls.\<close>

fun pool_event :: "(nat \<Rightarrow> bool) \<Rightarrow> POOL_PRINT option \<times> nat \<Rightarrow> print_event \<Rightarrow> POOL_PRINT option \<times> nat" where
  "pool_event ok (sp, i) (Output b) = (PoolPrint_out (ok i) sp b, Suc i)"
| "pool_event ok (sp, i) (SetAttrCall a) = (sp, i)"

text \<open>\<open>_PoolCatPrint(fmt, args, spc, _PoolPrint)\<close> (lines 255--274).\<close>

definition PoolCatPrint ::
  "(nat \<Rightarrow> bool) \<Rightarrow> (EFI_TIME \<Rightarrow> print_error + u16 list) \<Rightarrow> u16 list \<Rightarrow> va_item list \<Rightarrow>
   POOL_PRINT option \<Rightarrow> print_error + POOL_PRINT option" where
  "PoolCatPrint ok tts fmt args sp =
     (case uPrint tts (zero_state fmt args) of
        Inl e \<Rightarrow> Inl e
      | Inr (_, ps) \<Rightarrow> Inr (fst (foldl (pool_event ok) (sp, 0) (ps_out ps))))"

text \<open>
  \<open>VPoolPrint\<close> and \<open>PoolPrint\<close> (lines 359--420): a zeroed \<open>POOL_PRINT\<close>, and the
  result \<open>spc.str\<close>, \<open>None\<close> for \<open>NULL\<close>.
\<close>

definition VPoolPrint ::
  "(nat \<Rightarrow> bool) \<Rightarrow> (EFI_TIME \<Rightarrow> print_error + u16 list) \<Rightarrow> u16 list \<Rightarrow> va_item list \<Rightarrow>
   print_error + u16 list option" where
  "VPoolPrint ok tts fmt args = map_sum id (map_option spc_str) (PoolCatPrint ok tts fmt args None)"

definition PoolPrint :: "(nat \<Rightarrow> bool) \<Rightarrow> u16 list \<Rightarrow> va_item list \<Rightarrow> print_error + u16 list option" where
  "PoolPrint ok fmt args = VPoolPrint ok TimeToString fmt args"

text \<open>\<open>CatPrint\<close> (lines 422--456): append to the caller's \<open>POOL_PRINT\<close>, which it returns updated.\<close>

definition CatPrint ::
  "(nat \<Rightarrow> bool) \<Rightarrow> POOL_PRINT option \<Rightarrow> u16 list \<Rightarrow> va_item list \<Rightarrow> print_error + POOL_PRINT option" where
  "CatPrint ok sp fmt args = PoolCatPrint ok TimeToString fmt args sp"

text \<open>
  The invariant of a pool buffer: \<open>len\<close> counts the characters written, and
  \<open>len < maxlen\<close>, so the terminator \<open>str[len]\<close> lies inside the \<open>maxlen\<close>
  characters allocated.
\<close>

definition pool_inv :: "POOL_PRINT option \<Rightarrow> bool" where
  "pool_inv sp = (case sp of None \<Rightarrow> True
                   | Some s \<Rightarrow> unat (spc_len s) = length (spc_str s) \<and> spc_len s < spc_maxlen s)"

section \<open>Lemmas\<close>

lemma takeWhile_nz: "0 \<notin> set b \<Longrightarrow> takeWhile (\<lambda>c. c \<noteq> 0) b = b"
  by (induction b) auto

lemma unat_u64_add_nat:
  "unat (a :: u64) + k < 2 ^ 64 \<Longrightarrow> unat (a + of_nat k) = unat a + k"
  by (simp add: unat_word_ariths unat_of_nat take_bit_nat_eq_self)

text \<open>\<open>_SPrint\<close> with room for the text appends all of it.\<close>

lemma SPrint_out_room:
  assumes "0 \<notin> set b" "unat (spc_len s) + length b \<le> unat (spc_maxlen s)"
  shows "SPrint_out s b = s\<lparr>spc_str := spc_str s @ b, spc_len := spc_len s + of_nat (length b)\<rparr>"
proof -
  have lt: "unat (spc_maxlen s) < 2 ^ 64" using unsigned_less [of "spc_maxlen s"] by simp
  have k: "length b < 2 ^ 64" using assms(2) lt by simp
  have uk: "unat (of_nat (length b) :: u64) = length b"
    using k by (simp add: unat_of_nat take_bit_nat_eq_self)
  have sum: "unat (spc_len s + of_nat (length b)) = unat (spc_len s) + length b"
    using assms(2) lt by (intro unat_u64_add_nat) simp
  have "\<not> spc_maxlen s < spc_len s + of_nat (length b)"
    using assms(2) sum by (simp add: word_less_nat_alt)
  then show ?thesis using uk by (simp add: SPrint_out_def Let_def takeWhile_nz [OF assms(1)])
qed

text \<open>One \<open>_PoolPrint\<close> whose reallocation, if any, succeeds: the text is appended in full and the invariant kept.\<close>

lemma PoolPrint_out_append:
  assumes inv: "pool_inv sp" and z: "0 \<notin> set b"
    and bnd: "unat (pool_len sp) + length b + 201 < 2 ^ 64"
  shows "\<exists>s'. PoolPrint_out True sp b = Some s' \<and> spc_str s' = pool_str sp @ b \<and>
              spc_len s' = pool_len sp + of_nat (length b) \<and> pool_inv (Some s')"
proof -
  let ?n = "unat (pool_len sp)" and ?k = "length b"
  have nl: "unat (pool_len sp + of_nat ?k + 1) = ?n + ?k + 1"
    using bnd by (simp add: unat_word_ariths unat_of_nat take_bit_nat_eq_self)
  have ml: "unat (pool_len sp + of_nat ?k + 1 + of_nat PRINT_STRING_LEN) = ?n + ?k + 201"
    using unat_u64_add_nat [of "pool_len sp + of_nat ?k + 1" PRINT_STRING_LEN] bnd nl
    by (simp add: PRINT_STRING_LEN_def)
  have len: "unat (pool_len sp) = length (pool_str sp)"
    using inv by (cases sp) (simp_all add: pool_inv_def pool_len_def pool_str_def)
  have sl: "unat (pool_len sp + of_nat ?k) = ?n + ?k"
    using bnd by (intro unat_u64_add_nat) simp
  show ?thesis
  proof (cases "pool_maxlen sp < pool_len sp + of_nat ?k + 1")
    case True
    let ?s = "\<lparr>spc_str = pool_str sp, spc_maxlen = pool_len sp + of_nat ?k + 1 + of_nat PRINT_STRING_LEN,
               spc_len = pool_len sp\<rparr>"
    have r: "SPrint_out ?s b = ?s\<lparr>spc_str := pool_str sp @ b, spc_len := pool_len sp + of_nat ?k\<rparr>"
      using SPrint_out_room [OF z, of ?s] ml by simp
    have "pool_len sp + of_nat ?k < pool_len sp + of_nat ?k + 1 + of_nat PRINT_STRING_LEN"
      using sl ml by (simp add: word_less_nat_alt)
    then show ?thesis using True r len sl
      by (simp add: PoolPrint_out_def Let_def takeWhile_nz [OF z] pool_inv_def)
  next
    case False
    then obtain s where sp: "sp = Some s" using nl by (cases sp) (auto simp: pool_maxlen_def pool_len_def word_less_nat_alt)
    have room: "?n + ?k + 1 \<le> unat (spc_maxlen s)"
      using False nl sp by (simp add: pool_maxlen_def word_less_nat_alt)
    have r: "SPrint_out s b = s\<lparr>spc_str := spc_str s @ b, spc_len := spc_len s + of_nat ?k\<rparr>"
      using SPrint_out_room [OF z, of s] room sp by (simp add: pool_len_def)
    have "spc_len s + of_nat ?k < spc_maxlen s"
      using sl room sp by (simp add: word_less_nat_alt pool_len_def)
    then show ?thesis using False r len sl sp
      by (simp add: PoolPrint_out_def Let_def takeWhile_nz [OF z] pool_inv_def pool_str_def pool_len_def)
  qed
qed

lemma pool_inv_len: "pool_inv sp \<Longrightarrow> unat (pool_len sp) = length (pool_str sp)"
  by (cases sp) (simp_all add: pool_inv_def pool_len_def pool_str_def)

text \<open>A run of \<open>_PoolPrint\<close> calls whose reallocations all succeed appends every flushed chunk.\<close>

lemma foldl_pool_event:
  assumes ok: "\<forall>i. ok i" and "pool_inv sp" and "0 \<notin> set (concat (map out_text es))"
    and "length (pool_str sp) + length (concat (map out_text es)) + 201 < 2 ^ 64"
  shows "pool_inv (fst (foldl (pool_event ok) (sp, i) es)) \<and>
         pool_str (fst (foldl (pool_event ok) (sp, i) es)) = pool_str sp @ concat (map out_text es)"
  using assms(2-)
proof (induction es arbitrary: sp i)
  case Nil
  then show ?case by simp
next
  case (Cons e es)
  show ?case
  proof (cases e)
    case (Output b)
    obtain s' where s': "PoolPrint_out True sp b = Some s'" "spc_str s' = pool_str sp @ b"
      "pool_inv (Some s')"
      using PoolPrint_out_append [of sp b] Cons.prems Output pool_inv_len [of sp] by auto
    have "pool_event ok (sp, i) e = (Some s', Suc i)" using s'(1) ok Output by simp
    then show ?thesis
      using Cons.IH [of "Some s'" "Suc i"] Cons.prems Output s' by (simp add: pool_str_def)
  next
    case (SetAttrCall a)
    then show ?thesis using Cons.IH [of sp i] Cons.prems by simp
  qed
qed

text \<open>\<open>_PoolCatPrint\<close> with reallocations that succeed appends the whole printed text to the pool.\<close>

lemma PoolCatPrint_appends:
  assumes run: "print_run tts None (zero_state fmt args) = Inr ps"
    and ok: "\<forall>i. ok i" and inv: "pool_inv sp" and z: "0 \<notin> set (text_of ps)"
    and bnd: "length (pool_str sp) + length (text_of ps) + 201 < 2 ^ 64"
  shows "\<exists>s'. PoolCatPrint ok tts fmt args sp = Inr (Some s') \<and>
              spc_str s' = pool_str sp @ text_of ps \<and> pool_inv (Some s')"
proof -
  have zs: "(zero_state fmt args)\<lparr>ps_len := 0, ps_buf := []\<rparr> = zero_state fmt args"
    by (simp add: zero_state_def)
  have u: "uPrint tts (zero_state fmt args) = Inr (ps_len (PFLUSH ps), PFLUSH ps)"
    using run by (simp add: uPrint_def zs)
  let ?es = "ps_out ps"
  obtain sp1 j where f: "foldl (pool_event ok) (sp, 0) ?es = (sp1, j)" by fastforce
  have tx: "text_of ps = concat (map out_text ?es) @ ps_buf ps" by (simp add: text_of_def)
  have i1: "pool_inv sp1 \<and> pool_str sp1 = pool_str sp @ concat (map out_text ?es)"
    using foldl_pool_event [OF ok inv, of ?es 0] z bnd f tx by simp
  obtain s' where s': "PoolPrint_out True sp1 (ps_buf ps) = Some s'"
      "spc_str s' = pool_str sp1 @ ps_buf ps" "pool_inv (Some s')"
    using PoolPrint_out_append [of sp1 "ps_buf ps"] i1 pool_inv_len [of sp1] z bnd tx by auto
  show ?thesis
    using u f s' i1 ok tx by (simp add: PoolCatPrint_def PFLUSH_def)
qed

section \<open>Properties of the pool printers\<close>

text \<open>
  C6.  \<open>CatPrint\<close> refines string append: when every \<open>ReallocatePool\<close>
  succeeds, the text contains no 0 and the lengths stay far from \<open>2^64\<close>,
  \<open>CatPrint\<close> appends exactly the text \<open>_Print\<close> produces to the caller's
  pool, keeping \<open>len\<close> equal to the characters written and below \<open>maxlen\<close>;
  \<open>PoolPrint\<close> returns that text in a fresh pool.
\<close>

theorem CatPrint_appends:
  assumes "print_run TimeToString None (zero_state fmt args) = Inr ps"
    and "\<forall>i. ok i" and "pool_inv sp" and "0 \<notin> set (text_of ps)"
    and "length (pool_str sp) + length (text_of ps) + 201 < 2 ^ 64"
  shows "(\<exists>s'. CatPrint ok sp fmt args = Inr (Some s') \<and>
              spc_str s' = pool_str sp @ text_of ps \<and> pool_inv (Some s')) \<and>
         PoolPrint ok fmt args = Inr (Some (text_of ps))"
proof -
  have n: "pool_inv None" "pool_str None = []" by (simp_all add: pool_inv_def pool_str_def)
  obtain s0 where "PoolCatPrint ok TimeToString fmt args None = Inr (Some s0)" "spc_str s0 = text_of ps"
    using PoolCatPrint_appends [OF assms(1,2) n(1) assms(4)] assms(5) n(2) by auto
  then show ?thesis
    using PoolCatPrint_appends [OF assms] by (simp add: CatPrint_def PoolPrint_def VPoolPrint_def)
qed

theorem CatPrint_appends_witness:
  "(\<exists>s'. CatPrint (\<lambda>_. True) (Some \<lparr>spc_str = L ''x'', spc_maxlen = 2, spc_len = 1\<rparr>) (L ''ab'' @ [0]) [] =
          Inr (Some s') \<and> spc_str s' = L ''xab'' \<and> pool_inv (Some s')) \<and>
   PoolPrint (\<lambda>_. True) (L ''ab'' @ [0]) [] = Inr (Some (L ''ab''))"
proof -
  obtain ps where run: "print_run TimeToString None (zero_state (L ''ab'' @ [0]) []) = Inr ps"
      and tx: "text_of ps = L ''ab''"
    by (simp add: print_eval text_of_def)
  have inv: "pool_inv (Some \<lparr>spc_str = L ''x'', spc_maxlen = 2, spc_len = 1\<rparr>)"
    by (simp add: pool_inv_def L_def)
  show ?thesis
    using CatPrint_appends [OF run, of "\<lambda>_. True", OF _ inv] tx
    by (simp add: pool_str_def L_def)
qed

text \<open>
  A failed \<open>ReallocatePool\<close> frees nothing and keeps nothing: the pool comes
  back \<open>NULL\<close>, and the text the caller had already gathered in it is lost
  together with the new text.
\<close>

theorem CatPrint_realloc_fail_loses:
  "CatPrint (\<lambda>_. False) (Some \<lparr>spc_str = L ''x'', spc_maxlen = 2, spc_len = 1\<rparr>) (L ''ab'' @ [0]) [] = Inr None"
  by (simp add: CatPrint_def PoolCatPrint_def print_eval PoolPrint_out_def pool_len_def pool_maxlen_def)

end
