(* ===== verification/KernelApi.thy ===== *)
theory KernelApi
  imports Monitor MapImporter
begin

text \<open>
  The kernel's memory-map interface \<open>src/kern/uefi_f.h\<close>: the five functions
  of uefi.c the rest of the kernel calls (\<open>LP_info\<close>, \<open>PrintMemoryMap\<close>,
  \<open>init_memory_map\<close>, \<open>AllocatePages\<close>, \<open>FreePages\<close>) as one datatype of calls
  and a step function over the kernel state, and sessions of calls made one
  after the other.  The property here spans the components: the allocator
  and the report only ever change the \<open>Type\<close> of descriptors, so the
  preconditions of the allocator's lemmas survive any session of them.
\<close>

section \<open>Definitions\<close>






text \<open>
  Two states with the same loader block, globals and descriptors, up to
  their \<open>Type\<close> fields.
\<close>

definition layout_kept :: "kstate \<Rightarrow> kstate \<Rightarrow> bool" where
  "layout_kept st st' =
     (st' = st\<lparr>kmem := kmem st'\<rparr> \<and> (\<forall>q. kmem st' q = (kmem st q)\<lparr>Type := Type (kmem st' q)\<rparr>))"

section \<open>Lemmas\<close>

lemma layout_kept_refl [simp]: "layout_kept st st"
  by (simp add: layout_kept_def)



lemma layout_kept_retag [simp]: "layout_kept st (st\<lparr>kmem := retag (kmem st) p s t n\<rparr>)"
  by (simp add: layout_kept_def retag_apply)













section \<open>Properties of the interface\<close>



end
