(* ===== verification/Spec2Isabelle.thy ===== *)
theory Spec2Isabelle
  imports MapImporter Monitor PrintEngine GoTime Graphics Init MemCheck HexDump PoolPrint KernelApi
begin

text \<open>
  \<^bold>\<open>A verification development of the UEFI loader and memory-map kernel
  (max181199/uefi).\<close>

  \<^medskip>
  \<^bold>\<open>The program.\<close>  A UEFI application (\<open>src/JosPkg/Application/Loader\<close>)
  sets up graphics (\<open>InitUEFI_GOP\<close>, Graphics.c), then \<open>GoTime\<close> (Loader.c) reads
  \<open>Kernel64.txt\<close> for the kernel path and command line, loads the ELF kernel,
  fetches the firmware memory map, exits boot services and jumps to the kernel
  with a \<open>LOADER_PARAMS\<close> block; its print library is print.c.  The kernel
  (\<open>src/kern\<close>) starts in \<open>i386_init\<close> (init.c), rebuilds the firmware map into a
  map of one descriptor per 4096-byte page (\<open>init_memory_map\<close>, uefi.c),
  allocates and frees pages by retagging that map (\<open>AllocatePages\<close>,
  \<open>FreePages\<close>), reports it (\<open>PrintMemoryMap\<close>) and runs the monitor
  (monitor.c), which \<open>_panic\<close> also enters.

  \<^medskip>
  \<^bold>\<open>Theories.\<close>
  \<^item> \<open>Prelude\<close>: machine words, memory as a typed view indexed by byte address,
    \<open>entry_count\<close> and the stride arithmetic of pointer loops.
  \<^item> \<open>MemoryDescriptor\<close>: \<open>EFI_MEMORY_DESCRIPTOR\<close>, the memory types and
    \<open>memory_types[]\<close>, the memory-map part of the kernel's \<open>LOADER_PARAMS\<close>, the
    kernel state \<open>kstate\<close> (globals of uefi.c and the rebuilt map) and
    \<open>LowBorder\<close>, the 32-bit truncation through which uefi.c reaches the map.
  \<^item> \<open>PageAllocator\<close>: \<open>AllocatePages\<close> with its three strategies and
    \<open>FreePages\<close>; scans are \<open>partial_function (option)\<close>, results are status,
    \<open>*mem\<close> and the new state, or \<open>NullDereference\<close>; the abstract specification
    is first fit over the map as an array.
  \<^item> \<open>MapImporter\<close>: \<open>init_memory_map\<close> (region search, descriptor and page
    loops, the running address) and its loop-free description \<open>import_spec\<close>.
  \<^item> \<open>MapReport\<close>: \<open>PrintMemoryMap\<close> as the printed blocks, specified by the
    run-length encoding \<open>runs\<close>.
  \<^item> \<open>Monitor\<close>: command table, tokenizer \<open>parse_args\<close>, dispatcher \<open>runcmd\<close>,
    the frame walk \<open>backtrace_loop\<close>, \<open>LP_info\<close> of uefi.c (which repoints
    \<open>UEFI_LP\<close>), and the monitor loop over input lines, carrying the kernel
    state from command to command.
  \<^item> \<open>KernelApi\<close>: the interface \<open>src/kern/uefi_f.h\<close> as a datatype of
    calls and a step function over the kernel state, sessions of calls, and
    the frame property that allocator and report calls change only descriptor
    types.
  \<^item> \<open>NumberFormat\<close>: \<open>ValueToHex\<close> and \<open>ValueToString\<close> of print.c with readers
    \<open>hex_val\<close>, \<open>dec_val\<close> and the reference grouping \<open>commafy\<close>.
  \<^item> \<open>PrintEngine\<close>: \<open>_Print\<close> with its output buffer (\<open>PPUTC\<close>, \<open>PFLUSH\<close>,
    \<open>PSETATTR\<close>), \<open>PITEM\<close>, the format parser as one loop \<open>print_run\<close> over the
    format, \<open>_SPrint\<close>/\<open>VSPrint\<close>/\<open>SPrint\<close> and \<open>TimeToString\<close>; variadic
    arguments are a list \<open>va_item\<close>, a missing or mistyped one is an error value.
  \<^item> \<open>HexDump\<close>: \<open>DumpHex\<close> of print.c, its lines as the \<open>Print\<close> calls it
    makes, with \<open>CHAR8\<close> read as a signed byte.
  \<^item> \<open>PoolPrint\<close>: the pool back end of print.c, \<open>_PoolPrint\<close> (grow with
    \<open>ReallocatePool\<close>, then \<open>_SPrint\<close>), \<open>_PoolCatPrint\<close>, \<open>VPoolPrint\<close>,
    \<open>PoolPrint\<close> and \<open>CatPrint\<close>; a pool is \<open>POOL_PRINT option\<close>, \<open>None\<close> for a
    \<open>NULL\<close> buffer, and the outcome of each reallocation is a parameter.
  \<^item> \<open>Firmware\<close>: the loader's view of boot services: \<open>fw_status\<close>,
    \<open>EFI_ERROR\<close>, \<open>EFI_SIZE_TO_PAGES\<close>, \<open>StrSize\<close>, and pool buffers whose cells are
    uninitialised until written, a write past the end being \<open>WildWrite\<close>.
  \<^item> \<open>KernelCmd\<close>: the path of \<open>Kernel64.txt\<close> and its parse (Loader.c
    132--391): byte order mark check, the two length loops, the two copies.
  \<^item> \<open>ElfLoad\<close>: the ELF stage of \<open>GoTime\<close> (506--1039): header check, program
    header extent, page count, allocation at \<open>0x100000\<close> and its zeroing, the
    memory check of \<open>MemCheck\<close>, the segment loop reading the file (a byte list) into physical memory (a byte
    map over 64-bit addresses).
  \<^item> \<open>MemCheck\<close>: the workaround for firmware that hands out memory that is
    not free (649--934): the zero check of the allocation and the search for
    another address with \<open>ActuallyFreeAddress\<close> and then page by page, five
    loops as partial functions over the answers of the helpers, which are not
    in the sources, and of \<open>AllocatePages\<close>/\<open>FreePages\<close> (record \<open>mc_fw\<close>).
    \<open>ElfLoad\<close> calls it between the zeroing and the segment loop.
  \<^item> \<open>ExitBoot\<close>: the \<open>GetMemoryMap\<close>/\<open>ExitBootServices\<close> handshake (1138--1219)
    as a step function over a program counter, its reachable states as an
    inductive predicate, against a firmware whose map key changes with every
    allocation and free.
  \<^item> \<open>GoTime\<close>: \<open>GoTime\<close> as the composition of these stages with the two
    file-open sequences (\<open>Open\<close>, the unchecked size query, \<open>AllocatePool\<close>,
    \<open>GetInfo\<close>) and the fill of the loader block (1276--1300); it returns
    \<open>None\<close> when the memory check does not return.
  \<^item> \<open>GopNaming\<close>: the naming pass of \<open>InitUEFI_GOP\<close>: device paths as node
    byte lists, \<open>LibMatchDevicePaths\<close> and \<open>CntlrPathSize\<close>, the firmware's
    answers per controller handle and per \<open>ComponentName2\<close> driver, the name
    queries with their language fallback, the two controller and driver loops
    (the second with the Wall of Shame check) and the loop over the graphics
    handles.
  \<^item> \<open>Graphics\<close>: \<open>InitUEFI_GOP\<close>: the GOP types of \<open>src/inc/uefi.h\<close>, the
    handle queries, the naming pass, the multi-GPU loop and the single-GPU case
    with its mode menu, filling \<open>GPU_CONFIG\<close> with a pool buffer \<open>GPUArray\<close>.
  \<^item> \<open>Init\<close>: \<open>test_backtrace\<close>, the BSS clearing of \<open>i386_init\<close> (which
    keeps \<open>UEFI_LP\<close>), \<open>_panic\<close> and \<open>_warn\<close> as a reachability relation
    over \<open>panicstr\<close> and the console.

  \<^medskip>
  \<^bold>\<open>What is proved.\<close>  Each claim is a theorem after a text block naming it.
  C1--C3: the allocation strategies refine first fit; allocation at an address
  followed by \<open>FreePages\<close> restores the state.  C4, C5, C7: \<open>init_memory_map\<close>
  returns for every nonzero stride and equals \<open>import_spec\<close>, diverges for stride
  0, and makes pages of reserved descriptors conventional.  C6: \<open>CatPrint\<close>
  refines string append and keeps the pool invariant while reallocations
  succeed, and \<open>PoolPrint\<close> returns the printed text.  C8: \<open>PrintMemoryMap\<close> prints all runs but the last.  C9:
  \<open>DumpHex\<close> reads outside \<open>Hex[]\<close> for bytes from \<open>0x80\<close> on and otherwise
  dumps hex pairs that read back as the data.
  C10--C12: tokenizer round trip, the monitor never exits, the backtrace
  terminates.  C13--C15: hexadecimal and decimal round trips and the comma
  grouping.  C16: \<open>lpinfo\<close> repoints \<open>UEFI_LP\<close> at a fixed address, after
  which \<open>PrintMemoryMap\<close> can hang.  C17, C18, C20: \<open>%lu\<close> of a large value, a
  trailing \<open>%\<close>, and \<open>TimeToString\<close>.  C19: allocation at an address is
  undone by \<open>FreePages\<close> after any session of allocator and report calls.
  C21: an address the memory check returns was allocated and reads as zero or
  holds an ELF image (relocated pages are not zeroed).
  C22--C25: \<open>Kernel64.txt\<close> round trip, heap overflow on spaces in the path, a
  file without line end, success returned on a bad byte order mark.  C26: the
  page-by-page retry loop tests the wrong variable and the memory check spins.
  C27: the first naming pass of \<open>InitUEFI_GOP\<close> never names a device.
  C28, C30, C31: the ELF stage writes only inside its pages for well-formed
  images, relocation does not move the segments, non-\<open>PT_LOAD\<close> headers are
  loaded.  C29: \<open>LibMatchDevicePaths\<close> matches only identical paths.  C32--C34: well-formedness of
  every reachable handshake state, the handshake succeeds when allocation does
  not grow the map, and fails on both attempts when it does.  C35: \<open>GoTime\<close> end
  to end hands the parsed path and command line, the loaded image and the
  current memory map to the kernel.  C36--C38: the Wall of Shame check is exact,
  the chosen mode is valid, and the menu never times out.  C39: at most one
  panic message.  C40: a successful \<open>InitUEFI_GOP\<close> fills one initialised
  \<open>GPUArray\<close> entry per graphics handle with the mode its device was set to.

  \<^medskip>
  \<^bold>\<open>Loops, fuel and bounds.\<close>  Loops whose termination depends on the data
  (the map scans with a runtime stride, the frame walk, the address searches of
  the memory check) are partial functions in
  the option monad, with termination proved where it holds and divergence where
  the code spins.  Counted and list-driven loops are primitive recursion or
  \<open>function\<close>s with a measure.  The only fuel is \<open>eb_run\<close>: ten steps of the
  handshake, which suffice because the handshake is straight-line code of ten
  calls, every step moves to a later program point and a final point is fixed.
  The mode menu is driven by a finite list of key events; running out of events
  is \<open>None\<close>, the loader blocking in \<open>WaitForEvent\<close>.

  \<^medskip>
  \<^bold>\<open>Not modelled.\<close>  Firmware calls whose only effect on the loader is a status
  (protocol opens, file opens, \<open>GetInfo\<close>, the frees of temporary buffers) enter
  as statuses; \<open>ActuallyFreeAddress\<close>, \<open>ActuallyFreeAddressByPage\<close> and
  \<open>VerifyZeroMem\<close> are not in the sources and enter as the functions of the
  memory check's firmware record \<open>mc_fw\<close>; \<open>ReallocatePool\<close> enters as
  whether each call succeeds.  The EDK2 library functions
  \<open>GetDevicePathSize\<close>, \<open>DevicePathNodeLength\<close> and
  \<open>GetNextDevicePathInstance\<close> used by the naming pass are modelled from the
  library's definition (an instance copy counts its end node).  The names the
  naming pass computes are never used after it.
  \<^item> \<open>%f\<close> (\<open>FloatToString\<close>) is the error \<open>FloatNotModelled\<close>: its loops run
    on IEEE doubles (\<open>while ((double)(INTN)f != f) f *= 10.0\<close> ends only
    through rounding), which the available libraries do not provide; a model
    over the reals would not terminate where the code does.
  \<^item> Output only: the console \<open>Print\<close> the loader calls (library code outside
    print.c), the debug blocks under \<open>#ifdef\<close> and the commented-out code, the
    debug-only \<open>QueryMode\<close> listing, the text layout of \<open>cprintf\<close>, the
    \<open>alocate_types[]\<close> names of uefi.c (never read), \<open>cons_init\<close>, the two
    test lines of \<open>i386_init\<close> and its inline assembly.
  \<^item> Data passed through unread: \<open>EFI_FILE_INFO\<close>, \<open>EFI_GUID\<close> and
    \<open>EFI_CONFIGURATION_TABLE\<close> of uefi.h, and the bytes of a descriptor past its
    five fields.
  \<^item> The in-place modification of firmware descriptors by
    \<open>init_memory_map\<close> (the destination is assumed not to overlap the firmware
    map), and the binary layout of \<open>LOADER_PARAMS\<close> shared by the 64-bit loader
    and the 32-bit kernel (the loader's header is not part of the sources).
  \<^item> The jump to the kernel: \<open>GoTime\<close> returns the entry address and the block
    it passes; \<open>KernelisPE\<close> is always 0, so the System V branch is taken.
\<close>

end
